theory Spec2Isabelle
  imports Main "HOL-Library.Char_ord" "HOL-Library.List_Lexorder" "HOL-Library.Product_Lexorder"
    "HOL-Library.Multiset"
begin

section \<open>Data model (Prisma schema, as created by the migrations)\<close>

text \<open>
  Every table is a list of rows. Dates are JavaScript time values: integer milliseconds
  since the epoch (the columns are \<^verbatim>\<open>TIMESTAMP(3)\<close>). Identifiers are strings.
  A character is a code unit below 256 (Latin-1), so a string of the model is a JavaScript
  string all of whose code units lie in that range.
\<close>

datatype WorkspaceKind = CUSTOMER | SUPPORT_OPS

datatype WorkspaceRole = ADMIN | MEMBER

datatype TicketStatus = OPEN | PENDING | RESOLVED | CLOSED

datatype TicketPriority = LOW | MEDIUM | HIGH

record User =
  user_id :: string
  user_email :: string
  user_passwordHash :: string
  user_isSupportAgent :: bool

record Workspace =
  ws_id :: string
  ws_name :: string
  ws_domain :: "string option"
  ws_kind :: WorkspaceKind

record WorkspaceMember =
  wm_id :: string
  wm_workspaceId :: string
  wm_userId :: string
  wm_role :: WorkspaceRole

record Ticket =
  t_id :: string
  t_workspaceId :: string
  t_createdByUserId :: string
  t_title :: string
  t_status :: TicketStatus
  t_priority :: "TicketPriority option"
  t_category :: "string option"
  t_createdAt :: int
  t_updatedAt :: int

record TicketMessage =
  msg_id :: string
  msg_ticketId :: string
  msg_authorId :: string
  msg_content :: string
  msg_createdAt :: int

record RefreshSession =
  rs_id :: string
  rs_userId :: string
  rs_refreshTokenHash :: string
  rs_expiresAt :: int
  rs_revokedAt :: "int option"

record DB =
  users :: "User list"
  workspaces :: "Workspace list"
  workspaceMembers :: "WorkspaceMember list"
  tickets :: "Ticket list"
  ticketMessages :: "TicketMessage list"
  refreshSessions :: "RefreshSession list"

text \<open>
  What a handler can do besides changing the datastore: send a response (status, JSON
  body, cookies set) or let an exception escape.
\<close>

datatype Exn =
  ConfigError
  | JwtInvalid
  | UniqueViolation
  | InconsistentData
  | RangeError

datatype Body =
  ErrorBody string string
  | UserBody string
  | TicketBody Ticket "TicketMessage list"
  | ListBody "Ticket list" "string option"
  | MessageBody TicketMessage
  | OkBody

record Response =
  status :: nat
  body :: Body
  cookies :: "(string \<times> string) list"

definition respond :: "nat \<Rightarrow> Body \<Rightarrow> Response" where
  "respond st b = \<lparr>status = st, body = b, cookies = []\<rparr>"

section \<open>Identity resolver and tenancy guard\<close>

text \<open>\<^verbatim>\<open>prisma.workspace.findUnique({ where: { id } })\<close>\<close>

definition findWorkspace :: "DB \<Rightarrow> string \<Rightarrow> Workspace option" where
  "findWorkspace db wid = find (\<lambda>w. ws_id w = wid) (workspaces db)"

text \<open>\<^verbatim>\<open>prisma.workspaceMember.findUnique({ where: { workspaceId_userId } })\<close>\<close>

definition findMembership :: "DB \<Rightarrow> string \<Rightarrow> string \<Rightarrow> WorkspaceMember option" where
  "findMembership db wid uid =
     find (\<lambda>m. wm_workspaceId m = wid \<and> wm_userId m = uid) (workspaceMembers db)"

text \<open>
  lib/supportAgent.ts: a membership row of the user with role ADMIN whose workspace has
  kind SUPPORT_OPS. The advisory flag on the user row is not read.
\<close>

definition isSupportAgent :: "DB \<Rightarrow> string \<Rightarrow> bool" where
  "isSupportAgent db userId =
     (find (\<lambda>m. wm_userId m = userId \<and> wm_role m = ADMIN \<and>
                 list_ex (\<lambda>w. ws_id w = wm_workspaceId m \<and> ws_kind w = SUPPORT_OPS)
                   (workspaces db))
        (workspaceMembers db) \<noteq> None)"

text \<open>
  middleware/workspaceAccess.ts, \<^verbatim>\<open>requireWorkspaceMember(workspaceId)\<close>: either a
  response is sent (\<open>Inl\<close>) or \<^verbatim>\<open>next()\<close> runs with
  \<^verbatim>\<open>req.workspaceMembership\<close> set to the pair (workspaceId, role).
\<close>

definition requireWorkspaceMember ::
  "DB \<Rightarrow> string \<Rightarrow> User option \<Rightarrow> Response + (string \<times> WorkspaceRole)" where
  "requireWorkspaceMember db workspaceId user =
     (case user of
        None \<Rightarrow> Inl (respond 401 (ErrorBody ''UNAUTHORIZED'' ''Access token required''))
      | Some u \<Rightarrow>
          (case findWorkspace db workspaceId of
             None \<Rightarrow> Inl (respond 404 (ErrorBody ''NOT_FOUND'' ''Workspace not found''))
           | Some workspace \<Rightarrow>
               if isSupportAgent db (user_id u) \<and> ws_kind workspace = CUSTOMER
               then Inr (workspaceId, ADMIN)
               else
                 (case findMembership db workspaceId (user_id u) of
                    None \<Rightarrow>
                      Inl (respond 403 (ErrorBody ''FORBIDDEN'' ''Not a member of this workspace''))
                  | Some membership \<Rightarrow> Inr (wm_workspaceId membership, wm_role membership))))"

section \<open>Resource access guard (lib/ticketAccess.ts)\<close>

text \<open>The messages of a ticket, \<^verbatim>\<open>orderBy: { createdAt: "asc" }\<close>.\<close>

definition ticketMessagesOf :: "DB \<Rightarrow> string \<Rightarrow> TicketMessage list" where
  "ticketMessagesOf db ticketId =
     sort_key msg_createdAt (filter (\<lambda>m. msg_ticketId m = ticketId) (ticketMessages db))"

text \<open>
  \<^verbatim>\<open>getTicketWithAccessCheck(ticketId, userId, isSupportAgent)\<close>. The ticket is loaded
  with its workspace (a required relation); a ticket row whose workspace row is missing
  cannot be loaded and the read of \<^verbatim>\<open>ticket.workspace.kind\<close> throws.
\<close>

definition getTicketWithAccessCheck ::
  "DB \<Rightarrow> string \<Rightarrow> string \<Rightarrow> bool \<Rightarrow> Exn + (Ticket \<times> TicketMessage list) option" where
  "getTicketWithAccessCheck db ticketId userId agent =
     (case find (\<lambda>t. t_id t = ticketId) (tickets db) of
        None \<Rightarrow> Inr None
      | Some ticket \<Rightarrow>
          (case findWorkspace db (t_workspaceId ticket) of
             None \<Rightarrow> Inl InconsistentData
           | Some workspace \<Rightarrow>
               if agent \<and> ws_kind workspace = CUSTOMER
               then Inr (Some (ticket, ticketMessagesOf db ticketId))
               else
                 (case findMembership db (t_workspaceId ticket) userId of
                    None \<Rightarrow> Inr None
                  | Some membership \<Rightarrow>
                      if wm_role membership = ADMIN
                      then Inr (Some (ticket, ticketMessagesOf db ticketId))
                      else if wm_role membership = MEMBER \<and> t_createdByUserId ticket = userId
                      then Inr (Some (ticket, ticketMessagesOf db ticketId))
                      else Inr None)))"

text \<open>routes/tickets.ts, \<^verbatim>\<open>GET /tickets/:ticketId\<close> (after \<^verbatim>\<open>requireAuth\<close>).\<close>

definition getTicketRoute :: "DB \<Rightarrow> User \<Rightarrow> string \<Rightarrow> Exn + Response" where
  "getTicketRoute db user ticketId =
     (let userId = user_id user;
          agent = isSupportAgent db userId
      in case getTicketWithAccessCheck db ticketId userId agent of
           Inl e \<Rightarrow> Inl e
         | Inr None \<Rightarrow> Inr (respond 404 (ErrorBody ''NOT_FOUND'' ''Ticket not found''))
         | Inr (Some (ticket, messages)) \<Rightarrow> Inr (respond 200 (TicketBody ticket messages)))"

section \<open>Integrity constraints of the schema\<close>

text \<open>
  Primary keys, the unique index on (workspace_id, user_id) of workspace_members, and the
  foreign key from tickets to workspaces.
\<close>

definition uniqueWorkspaceIds :: "DB \<Rightarrow> bool" where
  "uniqueWorkspaceIds db = distinct (map ws_id (workspaces db))"

definition uniqueTicketIds :: "DB \<Rightarrow> bool" where
  "uniqueTicketIds db = distinct (map t_id (tickets db))"

definition uniqueMemberships :: "DB \<Rightarrow> bool" where
  "uniqueMemberships db =
     distinct (map (\<lambda>m. (wm_workspaceId m, wm_userId m)) (workspaceMembers db))"

definition ticketWorkspacesExist :: "DB \<Rightarrow> bool" where
  "ticketWorkspacesExist db =
     list_all (\<lambda>t. list_ex (\<lambda>w. ws_id w = t_workspaceId t) (workspaces db)) (tickets db)"

section \<open>The access rules in the words of the specification\<close>

definition holdsRole :: "DB \<Rightarrow> string \<Rightarrow> string \<Rightarrow> WorkspaceRole \<Rightarrow> bool" where
  "holdsRole db userId workspaceId r =
     (\<exists>m \<in> set (workspaceMembers db).
        wm_workspaceId m = workspaceId \<and> wm_userId m = userId \<and> wm_role m = r)"

definition workspaceHasKind :: "DB \<Rightarrow> string \<Rightarrow> WorkspaceKind \<Rightarrow> bool" where
  "workspaceHasKind db workspaceId k =
     (\<exists>w \<in> set (workspaces db). ws_id w = workspaceId \<and> ws_kind w = k)"

definition elevatedAgent :: "DB \<Rightarrow> string \<Rightarrow> bool" where
  "elevatedAgent db userId =
     (\<exists>m \<in> set (workspaceMembers db).
        wm_userId m = userId \<and> wm_role m = ADMIN \<and>
        workspaceHasKind db (wm_workspaceId m) SUPPORT_OPS)"

definition mayReadTicket :: "DB \<Rightarrow> Ticket \<Rightarrow> string \<Rightarrow> bool \<Rightarrow> bool" where
  "mayReadTicket db t userId agent \<longleftrightarrow>
     (agent \<and> workspaceHasKind db (t_workspaceId t) CUSTOMER) \<or>
     holdsRole db userId (t_workspaceId t) ADMIN \<or>
     (holdsRole db userId (t_workspaceId t) MEMBER \<and> t_createdByUserId t = userId)"

section \<open>Token codec (lib/jwt.ts, lib/refreshToken.ts)\<close>

text \<open>
  \<^verbatim>\<open>process.env\<close> is a map from names to strings. The functions of the libraries
  the code calls (jsonwebtoken, crypto, bcryptjs, the \<^verbatim>\<open>Date\<close> parser) are parameters:
  no property of them is assumed except where a theorem says so.
\<close>

type_synonym Env = "string \<rightharpoonup> string"

record Lib =
  jwt_sign :: "string \<Rightarrow> string \<Rightarrow> nat \<Rightarrow> string"
  jwt_verify :: "string \<Rightarrow> string \<Rightarrow> string option"
  sha256_hex :: "string \<Rightarrow> string"
  bcrypt_hashSync :: "string \<Rightarrow> string \<Rightarrow> string"
  bcrypt_compareSync :: "string \<Rightarrow> string \<Rightarrow> bool"
  date_parse :: "string \<Rightarrow> int option"

definition ACCESS_TOKEN_TTL_SEC :: nat where
  "ACCESS_TOKEN_TTL_SEC = 10 * 60"

definition getSecret :: "Env \<Rightarrow> Exn + string" where
  "getSecret env =
     (case env ''JWT_ACCESS_SECRET'' of
        None \<Rightarrow> Inl ConfigError
      | Some secret \<Rightarrow>
          if secret = [] \<or> length secret < 16 then Inl ConfigError else Inr secret)"

definition createAccessToken :: "Env \<Rightarrow> Lib \<Rightarrow> string \<Rightarrow> Exn + string" where
  "createAccessToken env lib userId =
     (case getSecret env of
        Inl e \<Rightarrow> Inl e
      | Inr secret \<Rightarrow> Inr (jwt_sign lib userId secret ACCESS_TOKEN_TTL_SEC))"

text \<open>
  \<^verbatim>\<open>jwt.verify\<close> throws on a bad signature, algorithm or expiry (\<open>None\<close>), else
  returns the payload's \<^verbatim>\<open>sub\<close>; an empty \<^verbatim>\<open>sub\<close> is rejected by the caller.
\<close>

definition verifyAccessToken :: "Env \<Rightarrow> Lib \<Rightarrow> string \<Rightarrow> Exn + string" where
  "verifyAccessToken env lib token =
     (case getSecret env of
        Inl e \<Rightarrow> Inl e
      | Inr secret \<Rightarrow>
          (case jwt_verify lib token secret of
             None \<Rightarrow> Inl JwtInvalid
           | Some sub \<Rightarrow> if sub = [] then Inl JwtInvalid else Inr sub))"

definition hashRefreshToken :: "Lib \<Rightarrow> string \<Rightarrow> string" where
  "hashRefreshToken lib token = sha256_hex lib token"

text \<open>
  middleware/requireAuth.ts: the access-token cookie is verified on every request; any
  exception of the verification is caught and answered with 401.
\<close>

definition requireAuth :: "Env \<Rightarrow> Lib \<Rightarrow> DB \<Rightarrow> string option \<Rightarrow> Response + User" where
  "requireAuth env lib db token =
     (case token of
        None \<Rightarrow> Inl (respond 401 (ErrorBody ''UNAUTHORIZED'' ''Access token required''))
      | Some tok \<Rightarrow>
          if tok = [] then Inl (respond 401 (ErrorBody ''UNAUTHORIZED'' ''Access token required''))
          else
            (case verifyAccessToken env lib tok of
               Inl e \<Rightarrow>
                 Inl (respond 401 (ErrorBody ''UNAUTHORIZED'' ''Invalid or expired access token''))
             | Inr sub \<Rightarrow>
                 (case find (\<lambda>u. user_id u = sub) (users db) of
                    None \<Rightarrow> Inl (respond 401 (ErrorBody ''UNAUTHORIZED'' ''User not found''))
                  | Some user \<Rightarrow> Inr user)))"

text \<open>
  index.ts, the module's top level: the application is configured from \<^verbatim>\<open>PORT\<close>,
  \<^verbatim>\<open>WEB_ORIGIN\<close> and \<^verbatim>\<open>NODE_ENV\<close>, the routers are mounted and the server listens.
  No statement of it reads \<^verbatim>\<open>JWT_ACCESS_SECRET\<close> or calls \<^verbatim>\<open>getSecret\<close>, and
  importing lib/jwt.ts only defines a constant and three functions.
\<close>

record App =
  app_port :: string
  app_webOrigin :: string
  app_debugRoutes :: bool

definition startServer :: "Env \<Rightarrow> Exn + App" where
  "startServer env =
     Inr \<lparr>app_port = (case env ''PORT'' of None \<Rightarrow> ''4000'' | Some p \<Rightarrow> p),
          app_webOrigin =
            (case env ''WEB_ORIGIN'' of None \<Rightarrow> ''http://localhost:3000'' | Some orig \<Rightarrow> orig),
          app_debugRoutes = (env ''NODE_ENV'' \<noteq> Some ''production'')\<rparr>"

section \<open>Session ledger and rotation (routes/auth.ts)\<close>

text \<open>
  Inserting a row fails with a unique-constraint error when its primary key, or a column
  group with a unique index, is already present.
\<close>

definition createUser :: "DB \<Rightarrow> User \<Rightarrow> Exn + DB" where
  "createUser db u =
     (if user_id u \<in> set (map user_id (users db)) \<or>
         user_email u \<in> set (map user_email (users db))
      then Inl UniqueViolation
      else Inr (db\<lparr>users := users db @ [u]\<rparr>))"

definition createWorkspace :: "DB \<Rightarrow> Workspace \<Rightarrow> Exn + DB" where
  "createWorkspace db w =
     (if ws_id w \<in> set (map ws_id (workspaces db)) \<or>
         (ws_domain w \<noteq> None \<and> ws_domain w \<in> set (map ws_domain (workspaces db)))
      then Inl UniqueViolation
      else Inr (db\<lparr>workspaces := workspaces db @ [w]\<rparr>))"

definition createWorkspaceMember :: "DB \<Rightarrow> WorkspaceMember \<Rightarrow> Exn + DB" where
  "createWorkspaceMember db m =
     (if wm_id m \<in> set (map wm_id (workspaceMembers db)) \<or>
         (wm_workspaceId m, wm_userId m) \<in>
           set (map (\<lambda>x. (wm_workspaceId x, wm_userId x)) (workspaceMembers db))
      then Inl UniqueViolation
      else Inr (db\<lparr>workspaceMembers := workspaceMembers db @ [m]\<rparr>))"

definition createRefreshSession :: "DB \<Rightarrow> RefreshSession \<Rightarrow> Exn + DB" where
  "createRefreshSession db s =
     (if rs_id s \<in> set (map rs_id (refreshSessions db))
      then Inl UniqueViolation
      else Inr (db\<lparr>refreshSessions := refreshSessions db @ [s]\<rparr>))"

definition REFRESH_EXPIRES_MS :: int where
  "REFRESH_EXPIRES_MS = 7 * 24 * 60 * 60 * 1000"

text \<open>
  What a request draws from outside when it opens a session: the random refresh token,
  the generated row id and the clock reading \<^verbatim>\<open>Date.now()\<close>.
\<close>

record SessionGen =
  sg_refreshToken :: string
  sg_sessionId :: string
  sg_now :: int

text \<open>A handler ends with a response or an escaping exception, and leaves a datastore.\<close>

type_synonym Outcome = "(Exn + Response) \<times> DB"

definition setAuthCookiesAndRespond ::
  "Env \<Rightarrow> Lib \<Rightarrow> DB \<Rightarrow> string \<Rightarrow> string \<Rightarrow> string \<Rightarrow> nat \<Rightarrow> string \<Rightarrow> int \<Rightarrow> Outcome" where
  "setAuthCookiesAndRespond env lib db userId refreshToken refreshTokenHash statusCode
       sessionId now =
     (let expiresAt = now + REFRESH_EXPIRES_MS
      in case createRefreshSession db
                \<lparr>rs_id = sessionId, rs_userId = userId, rs_refreshTokenHash = refreshTokenHash,
                 rs_expiresAt = expiresAt, rs_revokedAt = None\<rparr> of
           Inl e \<Rightarrow> (Inl e, db)
         | Inr db' \<Rightarrow>
             (case createAccessToken env lib userId of
                Inl e \<Rightarrow> (Inl e, db')
              | Inr accessToken \<Rightarrow>
                  (Inr \<lparr>status = statusCode, body = UserBody userId,
                        cookies = [(''access_token'', accessToken),
                                   (''refresh_token'', refreshToken)]\<rparr>, db')))"

text \<open>\<^verbatim>\<open>prisma.refreshSession.update({ where: { id }, data: { revokedAt } })\<close>\<close>

definition revokeSessionById :: "DB \<Rightarrow> string \<Rightarrow> int \<Rightarrow> DB" where
  "revokeSessionById db sid now =
     db\<lparr>refreshSessions :=
          map (\<lambda>s. if rs_id s = sid then s\<lparr>rs_revokedAt := Some now\<rparr> else s)
            (refreshSessions db)\<rparr>"

text \<open>\<^verbatim>\<open>prisma.refreshSession.updateMany({ where: { refreshTokenHash }, ... })\<close>\<close>

definition revokeSessionsByHash :: "DB \<Rightarrow> string \<Rightarrow> int \<Rightarrow> DB" where
  "revokeSessionsByHash db h now =
     db\<lparr>refreshSessions :=
          map (\<lambda>s. if rs_refreshTokenHash s = h then s\<lparr>rs_revokedAt := Some now\<rparr> else s)
            (refreshSessions db)\<rparr>"

definition unauthorized :: "string \<Rightarrow> Response" where
  "unauthorized msg = respond 401 (ErrorBody ''UNAUTHORIZED'' msg)"

text \<open>
  \<^verbatim>\<open>POST /auth/refresh\<close>. \<open>token\<close> is the refresh-token cookie, \<open>nowCheck\<close> and
  \<open>nowRevoke\<close> the two readings of \<^verbatim>\<open>new Date()\<close>.
\<close>

definition refresh ::
  "Env \<Rightarrow> Lib \<Rightarrow> DB \<Rightarrow> string option \<Rightarrow> int \<Rightarrow> int \<Rightarrow> SessionGen \<Rightarrow> Outcome" where
  "refresh env lib db token nowCheck nowRevoke g =
     (case token of
        None \<Rightarrow> (Inr (unauthorized ''Refresh token required''), db)
      | Some tok \<Rightarrow>
          if tok = [] then (Inr (unauthorized ''Refresh token required''), db)
          else
            (let hash = hashRefreshToken lib tok
             in case find (\<lambda>s. rs_refreshTokenHash s = hash) (refreshSessions db) of
                  None \<Rightarrow> (Inr (unauthorized ''Invalid or expired refresh token''), db)
                | Some session \<Rightarrow>
                    if rs_revokedAt session \<noteq> None \<or> rs_expiresAt session < nowCheck
                    then (Inr (unauthorized ''Invalid or expired refresh token''), db)
                    else
                      (let db1 = revokeSessionById db (rs_id session) nowRevoke;
                           newRefreshToken = sg_refreshToken g;
                           newRefreshTokenHash = hashRefreshToken lib newRefreshToken
                       in setAuthCookiesAndRespond env lib db1 (rs_userId session)
                            newRefreshToken newRefreshTokenHash 200 (sg_sessionId g) (sg_now g))))"

text \<open>\<^verbatim>\<open>POST /auth/logout\<close>; clearing a cookie is setting it to the empty value.\<close>

definition logout :: "Lib \<Rightarrow> DB \<Rightarrow> string option \<Rightarrow> int \<Rightarrow> Outcome" where
  "logout lib db token nowRevoke =
     (let db' = (case token of
                   None \<Rightarrow> db
                 | Some tok \<Rightarrow>
                     if tok = [] then db
                     else revokeSessionsByHash db (hashRefreshToken lib tok) nowRevoke)
      in (Inr \<lparr>status = 200, body = OkBody,
               cookies = [(''access_token'', []), (''refresh_token'', [])]\<rparr>, db'))"

text \<open>
  \<^verbatim>\<open>POST /auth/login\<close>. \<open>parsed\<close> is the result of \<^verbatim>\<open>loginSchema.safeParse(req.body)\<close>:
  the first error message, or the pair (email, password).
\<close>

definition login ::
  "Env \<Rightarrow> Lib \<Rightarrow> DB \<Rightarrow> string + (string \<times> string) \<Rightarrow> SessionGen \<Rightarrow> Outcome" where
  "login env lib db parsed g =
     (case parsed of
        Inl msg \<Rightarrow> (Inr (respond 400 (ErrorBody ''VALIDATION_ERROR'' msg)), db)
      | Inr (email, password) \<Rightarrow>
          (case find (\<lambda>u. user_email u = email) (users db) of
             None \<Rightarrow>
               (Inr (respond 401 (ErrorBody ''INVALID_CREDENTIALS'' ''Invalid email or password'')),
                db)
           | Some user \<Rightarrow>
               if \<not> bcrypt_compareSync lib password (user_passwordHash user)
               then
                 (Inr (respond 401
                         (ErrorBody ''INVALID_CREDENTIALS'' ''Invalid email or password'')), db)
               else
                 setAuthCookiesAndRespond env lib db (user_id user) (sg_refreshToken g)
                   (hashRefreshToken lib (sg_refreshToken g)) 200 (sg_sessionId g) (sg_now g)))"

subsection \<open>Signup\<close>

text \<open>
  JavaScript string helpers: \<^verbatim>\<open>split\<close>, \<^verbatim>\<open>trim\<close>, \<^verbatim>\<open>toLowerCase\<close>. Of the white space
  and line terminators of ECMAScript, the code units below 256 are TAB, LF, VT, FF, CR,
  SP and NBSP (U+00A0). The letters with a lower-case form there are A to Z and U+00C0 to
  U+00DE without the multiplication sign U+00D7; the lower-case form is 32 code units up.
\<close>

fun split_on :: "char \<Rightarrow> string \<Rightarrow> string list" where
  "split_on sep [] = [[]]"
| "split_on sep (c # cs) =
     (if c = sep then [] # split_on sep cs
      else (case split_on sep cs of
              [] \<Rightarrow> [[c]]
            | p # ps \<Rightarrow> (c # p) # ps))"

definition isWhiteSpace :: "char \<Rightarrow> bool" where
  "isWhiteSpace c \<longleftrightarrow>
     c \<in> set [CHR 0x09, CHR 0x0A, CHR 0x0B, CHR 0x0C, CHR 0x0D, CHR '' '', CHR 0xA0]"

definition trim :: "string \<Rightarrow> string" where
  "trim s = rev (dropWhile isWhiteSpace (rev (dropWhile isWhiteSpace s)))"

definition toLowerChar :: "char \<Rightarrow> char" where
  "toLowerChar c =
     (if (CHR ''A'' \<le> c \<and> c \<le> CHR ''Z'') \<or> (CHR 0xC0 \<le> c \<and> c \<le> CHR 0xDE \<and> c \<noteq> CHR 0xD7)
      then char_of (of_char c + (32::nat))
      else c)"

definition toLowerCase :: "string \<Rightarrow> string" where
  "toLowerCase s = map toLowerChar s"

definition parseEmailDomain :: "string \<Rightarrow> string option" where
  "parseEmailDomain email =
     (case dropWhile (\<lambda>c. c \<noteq> CHR ''@'') email of
        [] \<Rightarrow> None
      | _ # rest \<Rightarrow> if rest = [] then None else Some (toLowerCase rest))"

definition isSupportAgentDomain :: "Env \<Rightarrow> string \<Rightarrow> bool" where
  "isSupportAgentDomain env email =
     (let domains =
            filter (\<lambda>d. d \<noteq> [])
              (map (\<lambda>d. toLowerCase (trim d))
                 (split_on CHR '',''
                    (case env ''SUPPORT_AGENT_EMAIL_DOMAINS'' of None \<Rightarrow> [] | Some v \<Rightarrow> v)))
      in case parseEmailDomain email of
           None \<Rightarrow> False
         | Some domain \<Rightarrow> domain \<in> set domains)"

text \<open>
  What signup draws from outside: the generated ids of the rows it may insert and the
  bcrypt salt, besides the values of the session it opens.
\<close>

record SignupGen =
  su_userId :: string
  su_salt :: string
  su_workspaceId :: string
  su_memberId :: string
  su_opsMemberId :: string
  su_session :: SessionGen

text \<open>
  The block of signup that looks the customer workspace of a domain up and creates it
  when there is none; the result is the workspace row and the datastore.
\<close>

definition findOrCreateCustomerWorkspace ::
  "DB \<Rightarrow> string \<Rightarrow> string \<Rightarrow> Exn + (Workspace \<times> DB)" where
  "findOrCreateCustomerWorkspace db domain newId =
     (case find (\<lambda>w. ws_domain w = Some domain) (workspaces db) of
        Some w \<Rightarrow> Inr (w, db)
      | None \<Rightarrow>
          (let w = \<lparr>ws_id = newId, ws_name = domain, ws_domain = Some domain,
                    ws_kind = CUSTOMER\<rparr>
           in case createWorkspace db w of
                Inl e \<Rightarrow> Inl e
              | Inr db' \<Rightarrow> Inr (w, db')))"

text \<open>
  The block \<^verbatim>\<open>if (supportAgent) { ... }\<close> of signup: the first SUPPORT_OPS workspace is
  looked up, and only if there is one the user is made ADMIN of it.
\<close>

definition grantSupportOps :: "DB \<Rightarrow> bool \<Rightarrow> string \<Rightarrow> string \<Rightarrow> Exn + DB" where
  "grantSupportOps db supportAgent userId memberId =
     (if supportAgent
      then (case find (\<lambda>w. ws_kind w = SUPPORT_OPS) (workspaces db) of
              None \<Rightarrow> Inr db
            | Some supportOps \<Rightarrow>
                createWorkspaceMember db
                  \<lparr>wm_id = memberId, wm_workspaceId = ws_id supportOps, wm_userId = userId,
                   wm_role = ADMIN\<rparr>)
      else Inr db)"

text \<open>
  \<^verbatim>\<open>POST /auth/signup\<close>. \<open>parsed\<close> is the result of
  \<^verbatim>\<open>signupSchema.safeParse(req.body)\<close>. The writes are not in a transaction: an
  exception leaves the rows inserted before it.
\<close>

definition signup ::
  "Env \<Rightarrow> Lib \<Rightarrow> DB \<Rightarrow> string + (string \<times> string) \<Rightarrow> SignupGen \<Rightarrow> Outcome" where
  "signup env lib db parsed g =
     (case parsed of
        Inl msg \<Rightarrow> (Inr (respond 400 (ErrorBody ''VALIDATION_ERROR'' msg)), db)
      | Inr (email, password) \<Rightarrow>
          (case find (\<lambda>u. user_email u = email) (users db) of
             Some existing \<Rightarrow>
               (Inr (respond 400 (ErrorBody ''EMAIL_TAKEN'' ''Email already registered'')), db)
           | None \<Rightarrow>
               (case parseEmailDomain email of
                  None \<Rightarrow>
                    (Inr (respond 400 (ErrorBody ''VALIDATION_ERROR'' ''Invalid email format'')), db)
                | Some domain \<Rightarrow>
                    (let supportAgent = isSupportAgentDomain env email;
                         passwordHash = bcrypt_hashSync lib password (su_salt g);
                         user = \<lparr>user_id = su_userId g, user_email = email,
                                 user_passwordHash = passwordHash,
                                 user_isSupportAgent = supportAgent\<rparr>
                     in case createUser db user of
                          Inl e \<Rightarrow> (Inl e, db)
                        | Inr db1 \<Rightarrow>
                            (case findOrCreateCustomerWorkspace db1 domain (su_workspaceId g) of
                               Inl e \<Rightarrow> (Inl e, db1)
                             | Inr (customerWorkspace, db2) \<Rightarrow>
                                 (case createWorkspaceMember db2
                                         \<lparr>wm_id = su_memberId g,
                                          wm_workspaceId = ws_id customerWorkspace,
                                          wm_userId = user_id user, wm_role = MEMBER\<rparr> of
                                    Inl e \<Rightarrow> (Inl e, db2)
                                  | Inr db3 \<Rightarrow>
                                      (case grantSupportOps db3 supportAgent (user_id user)
                                              (su_opsMemberId g) of
                                         Inl e \<Rightarrow> (Inl e, db3)
                                       | Inr db4 \<Rightarrow>
                                           (let refreshToken = sg_refreshToken (su_session g);
                                                refreshTokenHash = hashRefreshToken lib refreshToken
                                            in setAuthCookiesAndRespond env lib db4 (user_id user)
                                                 refreshToken refreshTokenHash 201
                                                 (sg_sessionId (su_session g))
                                                 (sg_now (su_session g))))))))))"

section \<open>Replies (routes/tickets.ts)\<close>

text \<open>
  \<^verbatim>\<open>replyMessageSchema\<close>: the \<^verbatim>\<open>message\<close> field of the body, absent (\<open>None\<close>)
  or a string of 1 to 5000 characters; the result is the first error message or the text.
\<close>

definition replyMessageSchema :: "string option \<Rightarrow> string + string" where
  "replyMessageSchema message =
     (case message of
        None \<Rightarrow> Inl ''Required''
      | Some m \<Rightarrow>
          if length m < 1 then Inl ''Message is required''
          else if length m > 5000 then Inl ''Message must be at most 5000 characters''
          else Inr m)"

definition createTicketMessage :: "DB \<Rightarrow> TicketMessage \<Rightarrow> Exn + DB" where
  "createTicketMessage db m =
     (if msg_id m \<in> set (map msg_id (ticketMessages db))
      then Inl UniqueViolation
      else Inr (db\<lparr>ticketMessages := ticketMessages db @ [m]\<rparr>))"

definition touchTicket :: "DB \<Rightarrow> string \<Rightarrow> int \<Rightarrow> DB" where
  "touchTicket db ticketId now =
     db\<lparr>tickets := map (\<lambda>t. if t_id t = ticketId then t\<lparr>t_updatedAt := now\<rparr> else t) (tickets db)\<rparr>"

text \<open>
  \<^verbatim>\<open>POST /tickets/:ticketId/messages\<close>. \<open>messageId\<close> is the generated id of the new
  row, \<open>dbNow\<close> its \<^verbatim>\<open>created_at\<close> default and \<open>now\<close> the reading \<^verbatim>\<open>new Date()\<close>.
  The insert and the update of \<^verbatim>\<open>updatedAt\<close> are one transaction.
\<close>

definition postMessageRoute ::
  "DB \<Rightarrow> User \<Rightarrow> string \<Rightarrow> string option \<Rightarrow> string \<Rightarrow> int \<Rightarrow> int \<Rightarrow> Outcome" where
  "postMessageRoute db user ticketId bodyMessage messageId dbNow now =
     (let userId = user_id user;
          agent = isSupportAgent db userId
      in case replyMessageSchema bodyMessage of
           Inl msg \<Rightarrow> (Inr (respond 400 (ErrorBody ''VALIDATION_ERROR'' msg)), db)
         | Inr content \<Rightarrow>
             (case getTicketWithAccessCheck db ticketId userId agent of
                Inl e \<Rightarrow> (Inl e, db)
              | Inr None \<Rightarrow> (Inr (respond 404 (ErrorBody ''NOT_FOUND'' ''Ticket not found'')), db)
              | Inr (Some (ticket, messages)) \<Rightarrow>
                  if t_status ticket = CLOSED \<and> \<not> agent \<and>
                     (case findMembership db (t_workspaceId ticket) userId of
                        None \<Rightarrow> True
                      | Some membership \<Rightarrow> wm_role membership \<noteq> ADMIN)
                  then
                    (Inr (respond 403
                            (ErrorBody ''TICKET_CLOSED''
                               ''This ticket is closed. New replies are not allowed.'')), db)
                  else
                    (let message = \<lparr>msg_id = messageId, msg_ticketId = ticketId,
                                    msg_authorId = userId, msg_content = content,
                                    msg_createdAt = dbNow\<rparr>
                     in case createTicketMessage db message of
                          Inl e \<Rightarrow> (Inl e, db)
                        | Inr db1 \<Rightarrow>
                            (Inr (respond 201 (MessageBody message)),
                             touchTicket db1 ticketId now))))"

section \<open>Pager (routes/workspaces.ts)\<close>

subsection \<open>Dates of the runtime (ECMA-262, Date objects)\<close>

text \<open>
  A time value is valid when it lies within 8.64e15 milliseconds of the epoch; a
  \<^verbatim>\<open>Date\<close> holds a valid time value or NaN. The calendar follows the day-number
  functions of the standard: \<^verbatim>\<open>DayFromYear\<close>, \<^verbatim>\<open>InLeapYear\<close>, \<^verbatim>\<open>YearFromTime\<close> (the year whose
  first day is the last one not after the given day, found from an estimate that is off by
  at most one), \<^verbatim>\<open>MonthFromTime\<close>, \<^verbatim>\<open>DateFromTime\<close>, \<^verbatim>\<open>MakeDay\<close> and \<^verbatim>\<open>MakeTime\<close>. Months
  and days of the month count from 1.
\<close>

definition msPerDay :: int where
  "msPerDay = 86400000"

definition maxTimeValue :: int where
  "maxTimeValue = 8640000000000000"

definition validTimeValue :: "int \<Rightarrow> bool" where
  "validTimeValue t \<longleftrightarrow> \<bar>t\<bar> \<le> maxTimeValue"

definition dayFromYear :: "int \<Rightarrow> int" where
  "dayFromYear y =
     365 * (y - 1970) + (y - 1969) div 4 - (y - 1901) div 100 + (y - 1601) div 400"

definition inLeapYear :: "int \<Rightarrow> bool" where
  "inLeapYear y \<longleftrightarrow> (y mod 4 = 0 \<and> y mod 100 \<noteq> 0) \<or> y mod 400 = 0"

definition yearFromDay :: "int \<Rightarrow> int" where
  "yearFromDay day =
     (let y0 = 1970 + (400 * day) div 146097
      in if dayFromYear (y0 + 1) \<le> day then y0 + 1
         else if day < dayFromYear y0 then y0 - 1
         else y0)"

text \<open>The day within the year on which a month starts; month 13 is the end of the year.\<close>

definition monthStart :: "bool \<Rightarrow> nat \<Rightarrow> int" where
  "monthStart leap m =
     [0, 31, 59, 90, 120, 151, 181, 212, 243, 273, 304, 334, 365] ! (m - 1) +
     (if leap \<and> 2 < m then 1 else 0)"

definition monthFromDay :: "bool \<Rightarrow> int \<Rightarrow> nat" where
  "monthFromDay leap dayInYear =
     (if dayInYear < monthStart leap 2 then 1
      else if dayInYear < monthStart leap 3 then 2
      else if dayInYear < monthStart leap 4 then 3
      else if dayInYear < monthStart leap 5 then 4
      else if dayInYear < monthStart leap 6 then 5
      else if dayInYear < monthStart leap 7 then 6
      else if dayInYear < monthStart leap 8 then 7
      else if dayInYear < monthStart leap 9 then 8
      else if dayInYear < monthStart leap 10 then 9
      else if dayInYear < monthStart leap 11 then 10
      else if dayInYear < monthStart leap 12 then 11
      else 12)"

definition civilFromDays :: "int \<Rightarrow> int \<times> nat \<times> nat" where
  "civilFromDays day =
     (let y = yearFromDay day;
          dayInYear = day - dayFromYear y;
          m = monthFromDay (inLeapYear y) dayInYear
      in (y, m, nat (dayInYear - monthStart (inLeapYear y) m + 1)))"

definition makeDay :: "int \<Rightarrow> nat \<Rightarrow> nat \<Rightarrow> int" where
  "makeDay y m d = dayFromYear y + monthStart (inLeapYear y) m + int d - 1"

definition daysInMonth :: "int \<Rightarrow> nat \<Rightarrow> nat" where
  "daysInMonth y m = nat (monthStart (inLeapYear y) (m + 1) - monthStart (inLeapYear y) m)"

definition makeTime :: "nat \<Rightarrow> nat \<Rightarrow> nat \<Rightarrow> nat \<Rightarrow> int" where
  "makeTime hh mi ss ms = int (((hh * 60 + mi) * 60 + ss) * 1000 + ms)"

subsection \<open>\<^verbatim>\<open>Date.prototype.toISOString\<close>\<close>

text \<open>
  The ISO form of a valid time value, \<^verbatim>\<open>YYYY-MM-DDTHH:mm:ss.sssZ\<close>, with the expanded
  year \<^verbatim>\<open>\<plusminus>YYYYYY\<close> outside 0..9999; for an invalid date the method throws a
  \<^verbatim>\<open>RangeError\<close>.
\<close>

definition digitChar :: "nat \<Rightarrow> char" where
  "digitChar d = ''0123456789'' ! (d mod 10)"

fun pad :: "nat \<Rightarrow> nat \<Rightarrow> string" where
  "pad 0 n = []"
| "pad (Suc w) n = pad w (n div 10) @ [digitChar n]"

definition yearString :: "int \<Rightarrow> string" where
  "yearString y =
     (if 0 \<le> y \<and> y \<le> 9999 then pad 4 (nat y)
      else (if y < 0 then ''-'' else ''+'') @ pad 6 (nat \<bar>y\<bar>))"

definition toISOString :: "int \<Rightarrow> Exn + string" where
  "toISOString t =
     (if \<not> validTimeValue t then Inl RangeError
      else
        (let ms = nat (t mod msPerDay);
             ymd = civilFromDays (t div msPerDay)
         in Inr (yearString (fst ymd) @ ''-'' @ pad 2 (fst (snd ymd)) @ ''-'' @
                 pad 2 (snd (snd ymd)) @ ''T'' @ pad 2 (ms div 3600000) @ '':'' @
                 pad 2 (ms div 60000 mod 60) @ '':'' @ pad 2 (ms div 1000 mod 60) @ ''.'' @
                 pad 3 (ms mod 1000) @ ''Z'')))"

subsection \<open>The Date Time String Format\<close>

text \<open>
  What \<^verbatim>\<open>new Date(s)\<close> must read: the complete form of the Date Time String Format with
  the UTC designator, \<^verbatim>\<open>YYYY-MM-DDTHH:mm:ss.sssZ\<close> or the same with an expanded year. A
  string of this form with an illegal field (month 13, 30 February, year \<^verbatim>\<open>-000000\<close>, a
  time value out of range) is no date. \<open>None\<close> is the invalid date.
\<close>

definition isDigit :: "char \<Rightarrow> bool" where
  "isDigit c \<longleftrightarrow> CHR ''0'' \<le> c \<and> c \<le> CHR ''9''"

definition digitsValue :: "string \<Rightarrow> nat" where
  "digitsValue ds = foldl (\<lambda>a c. 10 * a + (of_char c - 48)) 0 ds"

definition parseDigits :: "string \<Rightarrow> nat option" where
  "parseDigits ds = (if ds \<noteq> [] \<and> list_all isDigit ds then Some (digitsValue ds) else None)"

definition parseDateFields ::
  "bool \<Rightarrow> nat \<Rightarrow> nat \<Rightarrow> nat \<Rightarrow> nat \<Rightarrow> nat \<Rightarrow> nat \<Rightarrow> nat \<Rightarrow> int option" where
  "parseDateFields negative yv mo d hh mi ss ms =
     (let y = (if negative then - int yv else int yv)
      in if (negative \<and> yv = 0) \<or> mo < 1 \<or> 12 < mo \<or> d < 1 \<or> daysInMonth y mo < d \<or>
            24 < hh \<or> 59 < mi \<or> 59 < ss \<or> (hh = 24 \<and> (mi \<noteq> 0 \<or> ss \<noteq> 0 \<or> ms \<noteq> 0))
         then None
         else
           (let t = makeDay y mo d * msPerDay + makeTime hh mi ss ms
            in if validTimeValue t then Some t else None))"

definition parseIsoDateTime :: "string \<Rightarrow> int option" where
  "parseIsoDateTime s =
     (let expanded = (s \<noteq> [] \<and> (hd s = CHR ''+'' \<or> hd s = CHR ''-''));
          negative = (s \<noteq> [] \<and> hd s = CHR ''-'');
          ys = (if expanded then take 6 (tl s) else take 4 s);
          r = (if expanded then drop 7 s else drop 4 s)
      in if length ys \<noteq> (if expanded then 6 else 4) \<or> length r \<noteq> 20 \<or>
            r ! 0 \<noteq> CHR ''-'' \<or> r ! 3 \<noteq> CHR ''-'' \<or> r ! 6 \<noteq> CHR ''T'' \<or>
            r ! 9 \<noteq> CHR '':'' \<or> r ! 12 \<noteq> CHR '':'' \<or> r ! 15 \<noteq> CHR ''.'' \<or>
            r ! 19 \<noteq> CHR ''Z''
         then None
         else
           (case parseDigits ys of None \<Rightarrow> None | Some yv \<Rightarrow>
           (case parseDigits (take 2 (drop 1 r)) of None \<Rightarrow> None | Some mo \<Rightarrow>
           (case parseDigits (take 2 (drop 4 r)) of None \<Rightarrow> None | Some d \<Rightarrow>
           (case parseDigits (take 2 (drop 7 r)) of None \<Rightarrow> None | Some hh \<Rightarrow>
           (case parseDigits (take 2 (drop 10 r)) of None \<Rightarrow> None | Some mi \<Rightarrow>
           (case parseDigits (take 2 (drop 13 r)) of None \<Rightarrow> None | Some ss \<Rightarrow>
           (case parseDigits (take 3 (drop 16 r)) of None \<Rightarrow> None | Some ms \<Rightarrow>
              parseDateFields negative yv mo d hh mi ss ms))))))))"

text \<open>
  The parser of \<^verbatim>\<open>new Date(s)\<close> itself may read more strings than these (other forms of
  the format, and whatever the implementation adds); this is what the standard fixes.
\<close>

definition readsIsoDateTime :: "(string \<Rightarrow> int option) \<Rightarrow> bool" where
  "readsIsoDateTime dateOf \<longleftrightarrow> (\<forall>s t. parseIsoDateTime s = Some t \<longrightarrow> dateOf s = Some t)"

subsection \<open>Cursor helpers\<close>

text \<open>
  \<^verbatim>\<open>parseCursor\<close>; the parameter is the parser of \<^verbatim>\<open>new Date(dateStr)\<close>, whose
  \<open>None\<close> is the invalid date (\<^verbatim>\<open>getTime()\<close> is NaN).
\<close>

definition parseCursor :: "(string \<Rightarrow> int option) \<Rightarrow> string option \<Rightarrow> (int \<times> string) option" where
  "parseCursor dateOf cursor =
     (case cursor of
        None \<Rightarrow> None
      | Some c \<Rightarrow>
          if c = [] \<or> CHR ''|'' \<notin> set c then None
          else
            (case split_on CHR ''|'' c of
               [dateStr, cid] \<Rightarrow>
                 (case dateOf dateStr of
                    None \<Rightarrow> None
                  | Some date \<Rightarrow> if cid = [] then None else Some (date, cid))
             | _ \<Rightarrow> None))"

definition encodeCursor :: "int \<Rightarrow> string \<Rightarrow> Exn + string" where
  "encodeCursor date tid =
     (case toISOString date of
        Inl e \<Rightarrow> Inl e
      | Inr isoDate \<Rightarrow> Inr (isoDate @ ''|'' @ tid))"

subsection \<open>Sort helpers\<close>

datatype SortField = CreatedAt | UpdatedAt | Title | Status | Priority

definition parseSortField :: "string \<Rightarrow> SortField option" where
  "parseSortField s =
     (if s = ''createdAt'' then Some CreatedAt
      else if s = ''updatedAt'' then Some UpdatedAt
      else if s = ''title'' then Some Title
      else if s = ''status'' then Some Status
      else if s = ''priority'' then Some Priority
      else None)"

text \<open>The enum order of the database; an absent priority sorts last in ascending order.\<close>

fun statusRank :: "TicketStatus \<Rightarrow> nat" where
  "statusRank OPEN = 0"
| "statusRank PENDING = 1"
| "statusRank RESOLVED = 2"
| "statusRank CLOSED = 3"

fun priorityRank :: "TicketPriority option \<Rightarrow> nat" where
  "priorityRank (Some LOW) = 0"
| "priorityRank (Some MEDIUM) = 1"
| "priorityRank (Some HIGH) = 2"
| "priorityRank None = 3"

text \<open>
  \<^verbatim>\<open>getOrderBy(sort)\<close> applied to rows: the date sorts are descending with id
  descending, the others ascending with id ascending. Strings compare by character code.
\<close>

fun orderTickets :: "SortField \<Rightarrow> Ticket list \<Rightarrow> Ticket list" where
  "orderTickets UpdatedAt ts = rev (sort_key (\<lambda>t. (t_updatedAt t, t_id t)) ts)"
| "orderTickets Title ts = sort_key (\<lambda>t. (t_title t, t_id t)) ts"
| "orderTickets Status ts = sort_key (\<lambda>t. (statusRank (t_status t), t_id t)) ts"
| "orderTickets Priority ts = sort_key (\<lambda>t. (priorityRank (t_priority t), t_id t)) ts"
| "orderTickets CreatedAt ts = rev (sort_key (\<lambda>t. (t_createdAt t, t_id t)) ts)"

subsection \<open>Listing\<close>

text \<open>
  \<^verbatim>\<open>parseInt(s, 10)\<close>: leading white space, an optional sign, then the longest run of
  digits; \<open>None\<close> is NaN.
\<close>

definition parseInt10 :: "string \<Rightarrow> int option" where
  "parseInt10 s =
     (let t = dropWhile isWhiteSpace s;
          neg = (t \<noteq> [] \<and> hd t = CHR ''-'');
          r = (if t \<noteq> [] \<and> (hd t = CHR ''-'' \<or> hd t = CHR ''+'') then tl t else t);
          ds = takeWhile isDigit r
      in if ds = [] then None
         else Some (if neg then - int (digitsValue ds) else int (digitsValue ds)))"

text \<open>
  \<^verbatim>\<open>Math.min(50, Math.max(1, parseInt(String(req.query.limit ?? 20), 10) || 20))\<close>:
  NaN and 0 are falsy and give the default 20.
\<close>

definition effectiveLimit :: "string option \<Rightarrow> int" where
  "effectiveLimit limitParam =
     (let parsed = parseInt10 (case limitParam of None \<Rightarrow> ''20'' | Some s \<Rightarrow> s);
          n = (case parsed of None \<Rightarrow> 20 | Some k \<Rightarrow> if k = 0 then 20 else k)
      in min 50 (max 1 n))"

record ListQuery =
  q_mine :: "string option"
  q_limit :: "string option"
  q_sort :: "string option"
  q_cursor :: "string option"

definition effectiveMine :: "WorkspaceRole \<Rightarrow> ListQuery \<Rightarrow> bool" where
  "effectiveMine role q = (if role = MEMBER then True else q_mine q = Some ''true'')"

definition effectiveSort :: "WorkspaceRole \<Rightarrow> ListQuery \<Rightarrow> SortField" where
  "effectiveSort role q =
     (case (if role = ADMIN
            then parseSortField (case q_sort q of None \<Rightarrow> ''createdAt'' | Some s \<Rightarrow> s)
            else None) of
        Some f \<Rightarrow> f
      | None \<Rightarrow> CreatedAt)"

definition supportsCursor :: "SortField \<Rightarrow> bool" where
  "supportsCursor sortBy \<longleftrightarrow> sortBy = CreatedAt \<or> sortBy = UpdatedAt"

definition effectiveCursor ::
  "(string \<Rightarrow> int option) \<Rightarrow> SortField \<Rightarrow> ListQuery \<Rightarrow> (int \<times> string) option" where
  "effectiveCursor dateOf sortBy q =
     (if supportsCursor sortBy
      then parseCursor dateOf (Some (case q_cursor q of None \<Rightarrow> [] | Some c \<Rightarrow> c))
      else None)"

definition cursorDate :: "SortField \<Rightarrow> Ticket \<Rightarrow> int" where
  "cursorDate sortBy t = (if sortBy = UpdatedAt then t_updatedAt t else t_createdAt t)"

text \<open>The \<^verbatim>\<open>where\<close> object of the query, as a predicate on rows.\<close>

definition baseWhere ::
  "string \<Rightarrow> string option \<Rightarrow> SortField \<Rightarrow> (int \<times> string) option \<Rightarrow> Ticket \<Rightarrow> bool" where
  "baseWhere workspaceId createdBy sortBy cursor t \<longleftrightarrow>
     t_workspaceId t = workspaceId \<and>
     (case createdBy of None \<Rightarrow> True | Some u \<Rightarrow> t_createdByUserId t = u) \<and>
     (case cursor of
        None \<Rightarrow> True
      | Some (date, cid) \<Rightarrow>
          cursorDate sortBy t < date \<or> (cursorDate sortBy t = date \<and> t_id t < cid))"

text \<open>\<^verbatim>\<open>prisma.ticket.findMany({ where, orderBy, take })\<close>\<close>

definition findManyTickets :: "DB \<Rightarrow> (Ticket \<Rightarrow> bool) \<Rightarrow> SortField \<Rightarrow> nat \<Rightarrow> Ticket list" where
  "findManyTickets db wh sortBy n = take n (orderTickets sortBy (filter wh (tickets db)))"

text \<open>
  The handler of \<^verbatim>\<open>GET /workspaces/:workspaceId/tickets\<close>, run with the membership
  that the middleware attached. The exception of \<^verbatim>\<open>toISOString\<close> escapes the handler.
\<close>

definition listTickets ::
  "(string \<Rightarrow> int option) \<Rightarrow> DB \<Rightarrow> string \<times> WorkspaceRole \<Rightarrow> string \<Rightarrow> ListQuery \<Rightarrow>
   Exn + Response" where
  "listTickets dateOf db membership userId q =
     (let workspaceId = fst membership;
          role = snd membership;
          mine = effectiveMine role q;
          limit = nat (effectiveLimit (q_limit q));
          sortBy = effectiveSort role q;
          cursor = effectiveCursor dateOf sortBy q;
          items = findManyTickets db
                    (baseWhere workspaceId (if mine then Some userId else None) sortBy cursor)
                    sortBy (limit + 1);
          hasMore = (length items > limit);
          page = (if hasMore then take limit items else items);
          nextCursor =
            (if hasMore \<and> page \<noteq> [] \<and> supportsCursor sortBy
             then map_sum id Some (encodeCursor (cursorDate sortBy (last page)) (t_id (last page)))
             else Inr None)
      in case nextCursor of
           Inl e \<Rightarrow> Inl e
         | Inr c \<Rightarrow> Inr (respond 200 (ListBody page c)))"

text \<open>The route: \<^verbatim>\<open>requireWorkspaceMemberFromParams("workspaceId")\<close>, then the handler.\<close>

definition listTicketsRoute ::
  "(string \<Rightarrow> int option) \<Rightarrow> DB \<Rightarrow> User \<Rightarrow> string \<Rightarrow> ListQuery \<Rightarrow> Exn + Response" where
  "listTicketsRoute dateOf db user workspaceId q =
     (if workspaceId = [] \<or> trim workspaceId = []
      then Inr (respond 400 (ErrorBody ''VALIDATION_ERROR'' ''workspaceId is required''))
      else
        (case requireWorkspaceMember db workspaceId (Some user) of
           Inl r \<Rightarrow> Inr r
         | Inr membership \<Rightarrow> listTickets dateOf db membership (user_id user) q))"

section \<open>The listing in the words of the specification\<close>



text \<open>A row lies strictly after the cursor: the composite comparator.\<close>

definition afterCursor :: "SortField \<Rightarrow> (int \<times> string) option \<Rightarrow> Ticket \<Rightarrow> bool" where
  "afterCursor sortBy cursor t \<longleftrightarrow>
     (case cursor of
        None \<Rightarrow> True
      | Some (cursorValue, cursorId) \<Rightarrow>
          cursorDate sortBy t < cursorValue \<or>
          (cursorDate sortBy t = cursorValue \<and> t_id t < cursorId))"

section \<open>The session ledger in the words of the specification\<close>

definition liveSession :: "int \<Rightarrow> RefreshSession \<Rightarrow> bool" where
  "liveSession now s \<longleftrightarrow> rs_revokedAt s = None \<and> \<not> rs_expiresAt s < now"

definition sessionHashes :: "DB \<Rightarrow> string set" where
  "sessionHashes db = set (map rs_refreshTokenHash (refreshSessions db))"

definition uniqueSessionIds :: "DB \<Rightarrow> bool" where
  "uniqueSessionIds db = distinct (map rs_id (refreshSessions db))"

definition uniqueSessionHashes :: "DB \<Rightarrow> bool" where
  "uniqueSessionHashes db = distinct (map rs_refreshTokenHash (refreshSessions db))"

text \<open>A token is presented, and a session stored under its hash is live.\<close>

definition presentsLiveToken :: "Lib \<Rightarrow> DB \<Rightarrow> string option \<Rightarrow> int \<Rightarrow> bool" where
  "presentsLiveToken lib db token now \<longleftrightarrow>
     (\<exists>tok. token = Some tok \<and> tok \<noteq> [] \<and>
        (\<exists>s \<in> set (refreshSessions db).
           rs_refreshTokenHash s = hashRefreshToken lib tok \<and> liveSession now s))"

text \<open>
  The requests that write the session table, and runs of them. A run is fresh when every
  refresh token generated in it hashes to a value not yet stored, as 32 random bytes under
  SHA-256 do.
\<close>

datatype AuthRequest =
  Signup "string + (string \<times> string)" SignupGen
  | Login "string + (string \<times> string)" SessionGen
  | Refresh "string option" int int SessionGen
  | Logout "string option" int

fun handleAuth :: "Env \<Rightarrow> Lib \<Rightarrow> DB \<Rightarrow> AuthRequest \<Rightarrow> Outcome" where
  "handleAuth env lib db (Signup parsed g) = signup env lib db parsed g"
| "handleAuth env lib db (Login parsed g) = login env lib db parsed g"
| "handleAuth env lib db (Refresh token nowCheck nowRevoke g) =
     refresh env lib db token nowCheck nowRevoke g"
| "handleAuth env lib db (Logout token nowRevoke) = logout lib db token nowRevoke"

fun runAuth :: "Env \<Rightarrow> Lib \<Rightarrow> DB \<Rightarrow> AuthRequest list \<Rightarrow> DB" where
  "runAuth env lib db [] = db"
| "runAuth env lib db (r # rs) = runAuth env lib (snd (handleAuth env lib db r)) rs"

fun generatedHash :: "Lib \<Rightarrow> AuthRequest \<Rightarrow> string option" where
  "generatedHash lib (Signup parsed g) =
     Some (hashRefreshToken lib (sg_refreshToken (su_session g)))"
| "generatedHash lib (Login parsed g) = Some (hashRefreshToken lib (sg_refreshToken g))"
| "generatedHash lib (Refresh token nowCheck nowRevoke g) =
     Some (hashRefreshToken lib (sg_refreshToken g))"
| "generatedHash lib (Logout token nowRevoke) = None"

fun presentedHash :: "Lib \<Rightarrow> AuthRequest \<Rightarrow> string option" where
  "presentedHash lib (Refresh token nowCheck nowRevoke g) = map_option (hashRefreshToken lib) token"
| "presentedHash lib (Logout token nowRevoke) = map_option (hashRefreshToken lib) token"
| "presentedHash lib (Signup parsed g) = None"
| "presentedHash lib (Login parsed g) = None"

fun freshRun :: "Env \<Rightarrow> Lib \<Rightarrow> DB \<Rightarrow> AuthRequest list \<Rightarrow> bool" where
  "freshRun env lib db [] = True"
| "freshRun env lib db (r # rs) =
     ((case generatedHash lib r of None \<Rightarrow> True | Some h \<Rightarrow> h \<notin> sessionHashes db) \<and>
      freshRun env lib (snd (handleAuth env lib db r)) rs)"

text \<open>
  What one request may do to the session table: revoke sessions stored under the hash of
  the token it presents, and append at most one unrevoked session, with a new id, under
  the hash of the token it generates.
\<close>

definition ledgerStep :: "string option \<Rightarrow> string option \<Rightarrow> DB \<Rightarrow> DB \<Rightarrow> bool" where
  "ledgerStep presented generated db db' \<longleftrightarrow>
     (\<exists>P now extra.
        refreshSessions db' =
          map (\<lambda>s. if P s then s\<lparr>rs_revokedAt := Some now\<rparr> else s) (refreshSessions db) @ extra \<and>
        (\<forall>s. P s \<longrightarrow> presented = Some (rs_refreshTokenHash s)) \<and>
        (extra = [] \<or>
         (\<exists>s. extra = [s] \<and> generated = Some (rs_refreshTokenHash s) \<and>
              rs_revokedAt s = None \<and> rs_id s \<notin> set (map rs_id (refreshSessions db)))))"

definition deadHash :: "DB \<Rightarrow> string \<Rightarrow> bool" where
  "deadHash db h \<longleftrightarrow>
     h \<in> sessionHashes db \<and>
     (\<forall>s \<in> set (refreshSessions db). rs_refreshTokenHash s = h \<longrightarrow> rs_revokedAt s \<noteq> None)"

definition liveHash :: "DB \<Rightarrow> string \<Rightarrow> int \<Rightarrow> bool" where
  "liveHash db h expiry \<longleftrightarrow>
     (\<exists>s \<in> set (refreshSessions db).
        rs_refreshTokenHash s = h \<and> rs_revokedAt s = None \<and> rs_expiresAt s = expiry)"

section \<open>A small datastore for concrete runs\<close>

text \<open>
  One operations workspace and one customer workspace; Alice and Bob are members of the
  customer workspace, Carol is its administrator, Dana is a support agent.
\<close>

definition alice :: User where
  "alice = \<lparr>user_id = ''u_alice'', user_email = ''alice@acme.com'',
            user_passwordHash = ''salt$pw'', user_isSupportAgent = False\<rparr>"

definition bob :: User where
  "bob = \<lparr>user_id = ''u_bob'', user_email = ''bob@acme.com'',
          user_passwordHash = ''salt$pw'', user_isSupportAgent = False\<rparr>"

definition carol :: User where
  "carol = \<lparr>user_id = ''u_carol'', user_email = ''carol@acme.com'',
            user_passwordHash = ''salt$pw'', user_isSupportAgent = False\<rparr>"

definition dana :: User where
  "dana = \<lparr>user_id = ''u_dana'', user_email = ''dana@helpnest.io'',
           user_passwordHash = ''salt$pw'', user_isSupportAgent = True\<rparr>"

definition tk1 :: Ticket where
  "tk1 = \<lparr>t_id = ''tk1'', t_workspaceId = ''ws_acme'', t_createdByUserId = ''u_alice'',
          t_title = ''Printer'', t_status = OPEN, t_priority = None, t_category = None,
          t_createdAt = 1000, t_updatedAt = 1000\<rparr>"

definition tk2 :: Ticket where
  "tk2 = \<lparr>t_id = ''tk2'', t_workspaceId = ''ws_acme'', t_createdByUserId = ''u_bob'',
          t_title = ''Login'', t_status = OPEN, t_priority = Some HIGH, t_category = None,
          t_createdAt = 2000, t_updatedAt = 2000\<rparr>"

definition tk3 :: Ticket where
  "tk3 = \<lparr>t_id = ''tk3'', t_workspaceId = ''ws_acme'', t_createdByUserId = ''u_alice'',
          t_title = ''Invoice'', t_status = CLOSED, t_priority = None, t_category = None,
          t_createdAt = 3000, t_updatedAt = 3000\<rparr>"

definition demoDb :: DB where
  "demoDb =
     \<lparr>users = [alice, bob, carol, dana],
      workspaces =
        [\<lparr>ws_id = ''ws_ops'', ws_name = ''Support Ops'', ws_domain = None,
          ws_kind = SUPPORT_OPS\<rparr>,
         \<lparr>ws_id = ''ws_acme'', ws_name = ''acme.com'', ws_domain = Some ''acme.com'',
          ws_kind = CUSTOMER\<rparr>],
      workspaceMembers =
        [\<lparr>wm_id = ''m1'', wm_workspaceId = ''ws_acme'', wm_userId = ''u_alice'', wm_role = MEMBER\<rparr>,
         \<lparr>wm_id = ''m2'', wm_workspaceId = ''ws_acme'', wm_userId = ''u_bob'', wm_role = MEMBER\<rparr>,
         \<lparr>wm_id = ''m3'', wm_workspaceId = ''ws_acme'', wm_userId = ''u_carol'', wm_role = ADMIN\<rparr>,
         \<lparr>wm_id = ''m4'', wm_workspaceId = ''ws_ops'', wm_userId = ''u_dana'', wm_role = ADMIN\<rparr>],
      tickets = [tk1, tk2, tk3],
      ticketMessages = [],
      refreshSessions =
        [\<lparr>rs_id = ''s1'', rs_userId = ''u_alice'', rs_refreshTokenHash = ''h:T1'',
          rs_expiresAt = 5000, rs_revokedAt = None\<rparr>]\<rparr>"

text \<open>
  The same datastore with a fourth ticket, created by Carol at the time of Bob's and under
  the same title.
\<close>

definition tk4 :: Ticket where
  "tk4 = \<lparr>t_id = ''tk4'', t_workspaceId = ''ws_acme'', t_createdByUserId = ''u_carol'',
          t_title = ''Login'', t_status = PENDING, t_priority = Some LOW, t_category = None,
          t_createdAt = 2000, t_updatedAt = 4000\<rparr>"

definition listDb :: DB where
  "listDb = demoDb\<lparr>tickets := [tk1, tk2, tk3, tk4]\<rparr>"




text \<open>
  Stand-ins for the library functions, with the standard's date parser, and an environment
  with a valid secret.
\<close>

definition demoLib :: Lib where
  "demoLib =
     \<lparr>jwt_sign = (\<lambda>sub secret ttl. ''jwt:'' @ sub),
      jwt_verify = (\<lambda>tok secret. if take 4 tok = ''jwt:'' then Some (drop 4 tok) else None),
      sha256_hex = (\<lambda>tok. ''h:'' @ tok),
      bcrypt_hashSync = (\<lambda>pw salt. salt @ ''$'' @ pw),
      bcrypt_compareSync = (\<lambda>pw h. h = ''salt$'' @ pw),
      date_parse = parseIsoDateTime\<rparr>"

text \<open>The values drawn by two successive refresh requests.\<close>

definition demoGen1 :: SessionGen where
  "demoGen1 = \<lparr>sg_refreshToken = ''T2'', sg_sessionId = ''s2'', sg_now = 102\<rparr>"

definition demoGen2 :: SessionGen where
  "demoGen2 = \<lparr>sg_refreshToken = ''T3'', sg_sessionId = ''s3'', sg_now = 202\<rparr>"

text \<open>A datastore before any seeding, and the values drawn by one signup.\<close>

definition emptyDb :: DB where
  "emptyDb = \<lparr>users = [], workspaces = [], workspaceMembers = [], tickets = [],
               ticketMessages = [], refreshSessions = []\<rparr>"

definition demoSignupGen :: SignupGen where
  "demoSignupGen =
     \<lparr>su_userId = ''u_erin'', su_salt = ''salt'', su_workspaceId = ''ws_helpnest'',
      su_memberId = ''m5'', su_opsMemberId = ''m6'',
      su_session = \<lparr>sg_refreshToken = ''T9'', sg_sessionId = ''s9'', sg_now = 100\<rparr>\<rparr>"

definition demoEnv :: Env where
  "demoEnv = [''JWT_ACCESS_SECRET'' \<mapsto> ''0123456789abcdef'',
              ''SUPPORT_AGENT_EMAIL_DOMAINS'' \<mapsto> ''helpnest.io'']"

section \<open>Properties\<close>

lemma find_distinct_key:
  assumes "distinct (map f xs)" "x \<in> set xs" "f x = k"
  shows "find (\<lambda>y. f y = k) xs = Some x"
  using assms by (induction xs) (auto simp: image_iff)

lemma findWorkspace_Some_iff:
  assumes "uniqueWorkspaceIds db"
  shows "findWorkspace db wid = Some w \<longleftrightarrow> w \<in> set (workspaces db) \<and> ws_id w = wid"
proof
  assume "findWorkspace db wid = Some w"
  then show "w \<in> set (workspaces db) \<and> ws_id w = wid"
    by (auto simp: findWorkspace_def find_Some_iff)
next
  assume "w \<in> set (workspaces db) \<and> ws_id w = wid"
  with assms show "findWorkspace db wid = Some w"
    unfolding findWorkspace_def uniqueWorkspaceIds_def
    by (simp add: find_distinct_key)
qed

lemma findWorkspace_None_iff:
  "findWorkspace db wid = None \<longleftrightarrow> \<not> (\<exists>w \<in> set (workspaces db). ws_id w = wid)"
  by (auto simp: findWorkspace_def find_None_iff)

lemma find_distinct_pair:
  assumes "distinct (map (\<lambda>m. (f m, g m)) xs)" "x \<in> set xs" "f x = a" "g x = b"
  shows "find (\<lambda>y. f y = a \<and> g y = b) xs = Some x"
  using assms by (induction xs) (auto simp: image_iff)

lemma findMembership_Some_iff:
  assumes "uniqueMemberships db"
  shows "findMembership db wid uid = Some m \<longleftrightarrow>
           m \<in> set (workspaceMembers db) \<and> wm_workspaceId m = wid \<and> wm_userId m = uid"
proof
  assume "findMembership db wid uid = Some m"
  then show "m \<in> set (workspaceMembers db) \<and> wm_workspaceId m = wid \<and> wm_userId m = uid"
    by (auto simp: findMembership_def find_Some_iff)
next
  assume "m \<in> set (workspaceMembers db) \<and> wm_workspaceId m = wid \<and> wm_userId m = uid"
  with assms show "findMembership db wid uid = Some m"
    unfolding findMembership_def uniqueMemberships_def
    by (simp add: find_distinct_pair)
qed

lemma findMembership_None_iff:
  "findMembership db wid uid = None \<longleftrightarrow>
     \<not> (\<exists>m \<in> set (workspaceMembers db). wm_workspaceId m = wid \<and> wm_userId m = uid)"
  by (auto simp: findMembership_def find_None_iff)

lemma isSupportAgent_elevatedAgent: "isSupportAgent db uid = elevatedAgent db uid"
  by (auto simp: isSupportAgent_def elevatedAgent_def workspaceHasKind_def find_None_iff
      list_ex_iff)

lemma holdsRole_findMembership:
  assumes "uniqueMemberships db"
  shows "holdsRole db uid wid r \<longleftrightarrow> (\<exists>m. findMembership db wid uid = Some m \<and> wm_role m = r)"
  using findMembership_Some_iff [OF assms] by (auto simp: holdsRole_def)

lemma workspaceHasKind_findWorkspace:
  assumes "uniqueWorkspaceIds db"
  shows "workspaceHasKind db wid k \<longleftrightarrow> (\<exists>w. findWorkspace db wid = Some w \<and> ws_kind w = k)"
  using findWorkspace_Some_iff [OF assms] by (auto simp: workspaceHasKind_def)

text \<open>
  Claim C4. Membership resolution for an authenticated caller: an unknown workspace is
  answered 404 NOT_FOUND; otherwise an elevated agent (ADMIN member of a SUPPORT_OPS
  workspace) gets role ADMIN in a CUSTOMER workspace with no membership row consulted;
  otherwise the membership row of (workspace, user) gives the role, and its absence is
  answered 403 FORBIDDEN.
\<close>

theorem requireWorkspaceMember_resolution:
  assumes "uniqueWorkspaceIds db" and "uniqueMemberships db"
  shows "requireWorkspaceMember db wid (Some u) =
     (if \<not> (\<exists>w \<in> set (workspaces db). ws_id w = wid)
      then Inl (respond 404 (ErrorBody ''NOT_FOUND'' ''Workspace not found''))
      else if elevatedAgent db (user_id u) \<and> workspaceHasKind db wid CUSTOMER
      then Inr (wid, ADMIN)
      else if holdsRole db (user_id u) wid ADMIN then Inr (wid, ADMIN)
      else if holdsRole db (user_id u) wid MEMBER then Inr (wid, MEMBER)
      else Inl (respond 403 (ErrorBody ''FORBIDDEN'' ''Not a member of this workspace'')))"
proof (cases "findWorkspace db wid")
  case None
  then have "\<not> (\<exists>w \<in> set (workspaces db). ws_id w = wid)"
    using findWorkspace_None_iff [of db wid] by simp
  with None show ?thesis
    by (simp add: requireWorkspaceMember_def)
next
  case (Some w)
  then have ex: "\<exists>w \<in> set (workspaces db). ws_id w = wid"
    using findWorkspace_None_iff [of db wid] by simp
  have kind: "workspaceHasKind db wid CUSTOMER \<longleftrightarrow> ws_kind w = CUSTOMER"
    using Some by (simp add: workspaceHasKind_findWorkspace [OF assms(1)])
  show ?thesis
  proof (cases "findMembership db wid (user_id u)")
    case None
    then have "\<not> holdsRole db (user_id u) wid r" for r
      by (simp add: holdsRole_findMembership [OF assms(2)])
    with None Some ex kind show ?thesis
      by (simp add: requireWorkspaceMember_def isSupportAgent_elevatedAgent)
  next
    case (Some m)
    then have role: "holdsRole db (user_id u) wid r \<longleftrightarrow> wm_role m = r" for r
      by (simp add: holdsRole_findMembership [OF assms(2)])
    have "wm_workspaceId m = wid"
      using Some findMembership_Some_iff [OF assms(2)] by simp
    with Some \<open>findWorkspace db wid = Some w\<close> ex kind role show ?thesis
      by (cases "wm_role m") (simp_all add: requireWorkspaceMember_def isSupportAgent_elevatedAgent)
  qed
qed

lemma findTicket_Some_iff:
  assumes "uniqueTicketIds db"
  shows "find (\<lambda>t. t_id t = tid) (tickets db) = Some t \<longleftrightarrow>
           t \<in> set (tickets db) \<and> t_id t = tid"
proof
  assume "find (\<lambda>t. t_id t = tid) (tickets db) = Some t"
  then show "t \<in> set (tickets db) \<and> t_id t = tid"
    by (auto simp: find_Some_iff)
next
  assume "t \<in> set (tickets db) \<and> t_id t = tid"
  with assms show "find (\<lambda>t. t_id t = tid) (tickets db) = Some t"
    unfolding uniqueTicketIds_def by (simp add: find_distinct_key)
qed

lemma ticket_workspace_found:
  assumes "ticketWorkspacesExist db" "t \<in> set (tickets db)"
  shows "\<exists>w. findWorkspace db (t_workspaceId t) = Some w"
proof -
  from assms have "\<exists>w \<in> set (workspaces db). ws_id w = t_workspaceId t"
    by (auto simp: ticketWorkspacesExist_def list_all_iff list_ex_iff)
  then have "findWorkspace db (t_workspaceId t) \<noteq> None"
    by (simp add: findWorkspace_None_iff)
  then show ?thesis by auto
qed

lemma getTicketWithAccessCheck_found:
  assumes wf: "uniqueWorkspaceIds db" "uniqueMemberships db" "ticketWorkspacesExist db"
    and t: "find (\<lambda>t. t_id t = tid) (tickets db) = Some t"
  shows "getTicketWithAccessCheck db tid uid agent =
           (if mayReadTicket db t uid agent then Inr (Some (t, ticketMessagesOf db tid))
            else Inr None)"
proof -
  from t have "t \<in> set (tickets db)" by (auto simp: find_Some_iff)
  with wf(3) obtain w where w: "findWorkspace db (t_workspaceId t) = Some w"
    using ticket_workspace_found by blast
  have kind: "workspaceHasKind db (t_workspaceId t) CUSTOMER \<longleftrightarrow> ws_kind w = CUSTOMER"
    using w by (simp add: workspaceHasKind_findWorkspace [OF wf(1)])
  show ?thesis
  proof (cases "findMembership db (t_workspaceId t) uid")
    case None
    then have "\<not> holdsRole db uid (t_workspaceId t) r" for r
      by (simp add: holdsRole_findMembership [OF wf(2)])
    with None t w kind show ?thesis
      by (simp add: getTicketWithAccessCheck_def mayReadTicket_def)
  next
    case (Some m)
    then have "holdsRole db uid (t_workspaceId t) r \<longleftrightarrow> wm_role m = r" for r
      by (simp add: holdsRole_findMembership [OF wf(2)])
    with Some t w kind show ?thesis
      by (cases "wm_role m") (auto simp: getTicketWithAccessCheck_def mayReadTicket_def)
  qed
qed

text \<open>
  Claim C1. \<open>getTicketWithAccessCheck\<close> returns the ticket with the given id exactly when
  the caller is an elevated agent and the ticket's workspace is a CUSTOMER workspace, or
  the caller is ADMIN of the ticket's workspace, or the caller is MEMBER of it and created
  the ticket. In every other case, a missing ticket included, it returns null, the route
  \<^verbatim>\<open>GET /tickets/:ticketId\<close> answers 404 NOT_FOUND, and the route never answers 403.
\<close>

theorem getTicketWithAccessCheck_access:
  assumes "uniqueTicketIds db" and "uniqueWorkspaceIds db" and "uniqueMemberships db"
    and "ticketWorkspacesExist db"
  shows "(getTicketWithAccessCheck db tid uid agent = Inr (Some (t, ms)) \<longleftrightarrow>
            t \<in> set (tickets db) \<and> t_id t = tid \<and> mayReadTicket db t uid agent \<and>
            ms = ticketMessagesOf db tid) \<and>
         (\<not> (\<exists>t' \<in> set (tickets db). t_id t' = tid \<and> mayReadTicket db t' uid agent) \<longrightarrow>
            getTicketWithAccessCheck db tid uid agent = Inr None) \<and>
         (\<not> (\<exists>t' \<in> set (tickets db).
                t_id t' = tid \<and> mayReadTicket db t' (user_id u) (elevatedAgent db (user_id u))) \<longrightarrow>
            getTicketRoute db u tid =
              Inr (respond 404 (ErrorBody ''NOT_FOUND'' ''Ticket not found''))) \<and>
         (\<forall>r. getTicketRoute db u tid = Inr r \<longrightarrow> status r \<noteq> 403)"
proof (cases "find (\<lambda>t. t_id t = tid) (tickets db)")
  case None
  then have no: "\<not> (\<exists>t' \<in> set (tickets db). t_id t' = tid)"
    by (auto simp: find_None_iff)
  from None have g: "getTicketWithAccessCheck db tid a b = Inr None" for a b
    by (simp add: getTicketWithAccessCheck_def)
  from no g show ?thesis
    by (auto simp: getTicketRoute_def respond_def)
next
  case (Some t0)
  then have t0: "t0 \<in> set (tickets db)" "t_id t0 = tid"
    by (auto simp: find_Some_iff)
  have only: "t' \<in> set (tickets db) \<and> t_id t' = tid \<longleftrightarrow> t' = t0" for t'
  proof
    assume "t' \<in> set (tickets db) \<and> t_id t' = tid"
    then have "find (\<lambda>t. t_id t = tid) (tickets db) = Some t'"
      by (simp add: findTicket_Some_iff [OF assms(1)])
    with Some show "t' = t0" by simp
  next
    assume "t' = t0"
    with t0 show "t' \<in> set (tickets db) \<and> t_id t' = tid" by simp
  qed
  have g: "getTicketWithAccessCheck db tid a b =
             (if mayReadTicket db t0 a b then Inr (Some (t0, ticketMessagesOf db tid))
              else Inr None)" for a b
    using getTicketWithAccessCheck_found [OF assms(2,3,4) Some] .
  have ex: "(\<exists>t' \<in> set (tickets db). t_id t' = tid \<and> mayReadTicket db t' a b) \<longleftrightarrow>
              mayReadTicket db t0 a b" for a b
  proof
    assume "\<exists>t' \<in> set (tickets db). t_id t' = tid \<and> mayReadTicket db t' a b"
    then obtain t' where "t' \<in> set (tickets db) \<and> t_id t' = tid" "mayReadTicket db t' a b"
      by auto
    then show "mayReadTicket db t0 a b" using only [of t'] by simp
  next
    assume "mayReadTicket db t0 a b"
    with t0 show "\<exists>t' \<in> set (tickets db). t_id t' = tid \<and> mayReadTicket db t' a b"
      by auto
  qed
  have t_eq: "t \<in> set (tickets db) \<and> t_id t = tid \<longleftrightarrow> t = t0"
    using only .
  have c1: "getTicketWithAccessCheck db tid uid agent = Inr (Some (t, ms)) \<longleftrightarrow>
            t \<in> set (tickets db) \<and> t_id t = tid \<and> mayReadTicket db t uid agent \<and>
            ms = ticketMessagesOf db tid"
    using t_eq by (auto simp: g)
  have c2: "\<not> (\<exists>t' \<in> set (tickets db). t_id t' = tid \<and> mayReadTicket db t' uid agent) \<longrightarrow>
            getTicketWithAccessCheck db tid uid agent = Inr None"
    by (simp add: ex g)
  have c3: "\<not> (\<exists>t' \<in> set (tickets db).
                t_id t' = tid \<and> mayReadTicket db t' (user_id u) (elevatedAgent db (user_id u))) \<longrightarrow>
            getTicketRoute db u tid =
              Inr (respond 404 (ErrorBody ''NOT_FOUND'' ''Ticket not found''))"
    by (simp add: ex g getTicketRoute_def isSupportAgent_elevatedAgent)
  have c4: "\<forall>r. getTicketRoute db u tid = Inr r \<longrightarrow> status r \<noteq> 403"
    by (auto simp: g getTicketRoute_def respond_def Let_def split: if_splits)
  from c1 c2 c3 c4 show ?thesis by blast
qed

lemmas demo_defs = demoDb_def alice_def bob_def carol_def dana_def tk1_def tk2_def tk3_def

lemma demoDb_uniqueTicketIds: "uniqueTicketIds demoDb"
  by (simp add: uniqueTicketIds_def demo_defs)

lemma demoDb_uniqueWorkspaceIds: "uniqueWorkspaceIds demoDb"
  by (simp add: uniqueWorkspaceIds_def demo_defs)

lemma demoDb_uniqueMemberships: "uniqueMemberships demoDb"
  by (simp add: uniqueMemberships_def demo_defs)

lemma demoDb_ticketWorkspacesExist: "ticketWorkspacesExist demoDb"
  by (simp add: ticketWorkspacesExist_def demo_defs)

lemma demo_tables:
  "tickets demoDb = [tk1, tk2, tk3]"
  "users demoDb = [alice, bob, carol, dana]"
  by (simp_all add: demoDb_def)

lemma demo_ticket_fields:
  "t_id tk1 = ''tk1''" "t_id tk2 = ''tk2''" "t_id tk3 = ''tk3''"
  "t_workspaceId tk1 = ''ws_acme''" "t_workspaceId tk2 = ''ws_acme''"
  "t_workspaceId tk3 = ''ws_acme''"
  "t_createdByUserId tk1 = ''u_alice''" "t_createdByUserId tk2 = ''u_bob''"
  "t_createdByUserId tk3 = ''u_alice''"
  "t_createdAt tk1 = 1000" "t_createdAt tk2 = 2000" "t_createdAt tk3 = 3000"
  "t_status tk1 = OPEN" "t_status tk2 = OPEN" "t_status tk3 = CLOSED"
  by (simp_all add: tk1_def tk2_def tk3_def)

lemma demo_user_ids:
  "user_id alice = ''u_alice''" "user_id bob = ''u_bob''" "user_id carol = ''u_carol''"
  "user_id dana = ''u_dana''"
  by (simp_all add: alice_def bob_def carol_def dana_def)

lemma demo_roles:
  "requireWorkspaceMember demoDb ''ws_acme'' (Some alice) = Inr (''ws_acme'', MEMBER)"
  "requireWorkspaceMember demoDb ''ws_acme'' (Some carol) = Inr (''ws_acme'', ADMIN)"
  by (simp_all add: requireWorkspaceMember_def findWorkspace_def findMembership_def
      isSupportAgent_def demoDb_def demo_user_ids)

lemma effectiveLimit_default: "effectiveLimit None = 20"
  by (simp add: effectiveLimit_def parseInt10_def isWhiteSpace_def isDigit_def digitsValue_def
      less_eq_char_def)

lemma demo_query:
  "effectiveSort r \<lparr>q_mine = m, q_limit = l, q_sort = None, q_cursor = c\<rparr> = CreatedAt"
  "effectiveCursor d CreatedAt \<lparr>q_mine = m, q_limit = l, q_sort = s, q_cursor = None\<rparr> = None"
  by (cases r; simp add: effectiveSort_def effectiveCursor_def parseSortField_def parseCursor_def)+

lemma demo_order_all: "orderTickets CreatedAt [tk1, tk2, tk3] = [tk3, tk2, tk1]"
  by (simp add: demo_ticket_fields)

lemma demo_order_alice: "orderTickets CreatedAt [tk1, tk3] = [tk3, tk1]"
  by (simp add: demo_ticket_fields)

lemma trim_acme: "trim ''ws_acme'' = ''ws_acme''"
  by (simp add: trim_def isWhiteSpace_def)

theorem requireWorkspaceMember_resolution_witness:
  "uniqueWorkspaceIds demoDb \<and> uniqueMemberships demoDb \<and>
   requireWorkspaceMember demoDb ''ws_acme'' (Some dana) = Inr (''ws_acme'', ADMIN) \<and>
   requireWorkspaceMember demoDb ''ws_acme'' (Some alice) = Inr (''ws_acme'', MEMBER) \<and>
   requireWorkspaceMember demoDb ''ws_ops'' (Some alice) =
     Inl (respond 403 (ErrorBody ''FORBIDDEN'' ''Not a member of this workspace'')) \<and>
   requireWorkspaceMember demoDb ''ws_none'' (Some alice) =
     Inl (respond 404 (ErrorBody ''NOT_FOUND'' ''Workspace not found''))"
proof -
  note r = requireWorkspaceMember_resolution [OF demoDb_uniqueWorkspaceIds demoDb_uniqueMemberships]
  have a: "requireWorkspaceMember demoDb ''ws_acme'' (Some dana) = Inr (''ws_acme'', ADMIN)"
    using r [of "''ws_acme''" dana]
    by (simp add: elevatedAgent_def workspaceHasKind_def holdsRole_def demo_defs)
  have b: "requireWorkspaceMember demoDb ''ws_acme'' (Some alice) = Inr (''ws_acme'', MEMBER)"
    using r [of "''ws_acme''" alice]
    by (simp add: elevatedAgent_def workspaceHasKind_def holdsRole_def demo_defs)
  have c: "requireWorkspaceMember demoDb ''ws_ops'' (Some alice) =
             Inl (respond 403 (ErrorBody ''FORBIDDEN'' ''Not a member of this workspace''))"
    using r [of "''ws_ops''" alice]
    by (simp add: elevatedAgent_def workspaceHasKind_def holdsRole_def demo_defs)
  have d: "requireWorkspaceMember demoDb ''ws_none'' (Some alice) =
             Inl (respond 404 (ErrorBody ''NOT_FOUND'' ''Workspace not found''))"
    using r [of "''ws_none''" alice]
    by (simp add: demo_defs)
  from a b c d demoDb_uniqueWorkspaceIds demoDb_uniqueMemberships show ?thesis by simp
qed

theorem getTicketWithAccessCheck_access_witness:
  "uniqueTicketIds demoDb \<and> uniqueWorkspaceIds demoDb \<and> uniqueMemberships demoDb \<and>
   ticketWorkspacesExist demoDb \<and>
   getTicketWithAccessCheck demoDb ''tk1'' ''u_alice'' False = Inr (Some (tk1, [])) \<and>
   getTicketWithAccessCheck demoDb ''tk2'' ''u_alice'' False = Inr None \<and>
   getTicketRoute demoDb alice ''tk2'' =
     Inr (respond 404 (ErrorBody ''NOT_FOUND'' ''Ticket not found''))"
proof -
  note r = getTicketWithAccessCheck_access [OF demoDb_uniqueTicketIds demoDb_uniqueWorkspaceIds
      demoDb_uniqueMemberships demoDb_ticketWorkspacesExist]
  have a: "getTicketWithAccessCheck demoDb ''tk1'' ''u_alice'' False = Inr (Some (tk1, []))"
    using r [of "''tk1''" "''u_alice''" False tk1 "[]" alice]
    by (simp add: mayReadTicket_def holdsRole_def ticketMessagesOf_def demo_defs)
  have no: "\<not> (\<exists>t' \<in> set (tickets demoDb).
                 t_id t' = ''tk2'' \<and> mayReadTicket demoDb t' ''u_alice'' False)"
    by (simp add: mayReadTicket_def holdsRole_def demo_defs)
  have el: "elevatedAgent demoDb ''u_alice'' = False"
    by (simp add: elevatedAgent_def workspaceHasKind_def demo_defs)
  have uid: "user_id alice = ''u_alice''"
    by (simp add: alice_def)
  have b: "getTicketWithAccessCheck demoDb ''tk2'' ''u_alice'' False = Inr None"
    using r [of "''tk2''" "''u_alice''" False tk2 "[]" alice] no by blast
  have c: "getTicketRoute demoDb alice ''tk2'' =
             Inr (respond 404 (ErrorBody ''NOT_FOUND'' ''Ticket not found''))"
    using r [of "''tk2''" "''u_alice''" False tk2 "[]" alice] no el uid by simp
  from a b c demoDb_uniqueTicketIds demoDb_uniqueWorkspaceIds demoDb_uniqueMemberships
    demoDb_ticketWorkspacesExist show ?thesis by simp
qed

subsection \<open>The signing secret\<close>

lemma getSecret_bad:
  assumes "env ''JWT_ACCESS_SECRET'' = None \<or>
           (\<exists>s. env ''JWT_ACCESS_SECRET'' = Some s \<and> length s < 16)"
  shows "getSecret env = Inl ConfigError"
  using assms by (auto simp: getSecret_def)

text \<open>
  Claim C9, as the code has it. When the signing secret is missing or shorter than 16
  characters the server still starts; the configuration error is raised by every call
  that signs or verifies an access token, that is, per request, and the authentication
  middleware turns the failed verification into a 401 answer.
\<close>

theorem secret_checked_per_call:
  assumes "env ''JWT_ACCESS_SECRET'' = None \<or>
           (\<exists>s. env ''JWT_ACCESS_SECRET'' = Some s \<and> length s < 16)"
  shows "(\<exists>app. startServer env = Inr app) \<and>
         createAccessToken env lib userId = Inl ConfigError \<and>
         verifyAccessToken env lib token = Inl ConfigError \<and>
         (token \<noteq> [] \<longrightarrow>
            requireAuth env lib db (Some token) =
              Inl (respond 401 (ErrorBody ''UNAUTHORIZED'' ''Invalid or expired access token'')))"
  using getSecret_bad [of env, OF assms]
  by (simp add: startServer_def createAccessToken_def verifyAccessToken_def requireAuth_def)

theorem secret_checked_per_call_witness:
  "([''JWT_ACCESS_SECRET'' \<mapsto> ''tooshort''] ''JWT_ACCESS_SECRET'' = None \<or>
    (\<exists>s. [''JWT_ACCESS_SECRET'' \<mapsto> ''tooshort''] ''JWT_ACCESS_SECRET'' = Some s \<and> length s < 16)) \<and>
   (\<exists>app. startServer [''JWT_ACCESS_SECRET'' \<mapsto> ''tooshort''] = Inr app) \<and>
   createAccessToken [''JWT_ACCESS_SECRET'' \<mapsto> ''tooshort''] demoLib ''u_alice'' = Inl ConfigError \<and>
   verifyAccessToken [''JWT_ACCESS_SECRET'' \<mapsto> ''tooshort''] demoLib ''jwt:u_alice'' =
     Inl ConfigError \<and>
   requireAuth [''JWT_ACCESS_SECRET'' \<mapsto> ''tooshort''] demoLib demoDb (Some ''jwt:u_alice'') =
     Inl (respond 401 (ErrorBody ''UNAUTHORIZED'' ''Invalid or expired access token''))"
proof -
  have n: "''jwt:u_alice'' \<noteq> []" by simp
  have h: "[''JWT_ACCESS_SECRET'' \<mapsto> ''tooshort''] ''JWT_ACCESS_SECRET'' = None \<or>
           (\<exists>s. [''JWT_ACCESS_SECRET'' \<mapsto> ''tooshort''] ''JWT_ACCESS_SECRET'' = Some s \<and>
                length s < 16)"
    by simp
  from secret_checked_per_call
    [of "[''JWT_ACCESS_SECRET'' \<mapsto> ''tooshort'']" demoLib "''u_alice''" "''jwt:u_alice''" demoDb,
     OF h] h n
  show ?thesis by blast
qed

text \<open>
  The claim as written fails: with no secret in the environment the start-up code
  completes, and the error appears only when a token is signed.
\<close>

theorem startup_secret_counterexample:
  "startServer Map.empty =
     Inr \<lparr>app_port = ''4000'', app_webOrigin = ''http://localhost:3000'',
          app_debugRoutes = True\<rparr> \<and>
   createAccessToken Map.empty demoLib ''u_alice'' = Inl ConfigError"
  by (simp add: startServer_def createAccessToken_def getSecret_def)

subsection \<open>Replies to closed tickets\<close>

lemma replyMessageSchema_Inr_iff:
  "replyMessageSchema b = Inr content \<longleftrightarrow>
     b = Some content \<and> 1 \<le> length content \<and> length content \<le> 5000"
  by (cases b; cases content) (auto simp: replyMessageSchema_def)

text \<open>
  Claim C6. The reply route on a CLOSED ticket, for a caller with read access and a
  well-formed message (1 to 5000 characters): a caller who is neither an elevated agent
  nor ADMIN of the ticket's workspace is answered 403 TICKET_CLOSED and the datastore is
  unchanged; an elevated agent or a workspace ADMIN is answered 201 and the message is
  stored (the generated message id being new).
\<close>

theorem postMessage_closed_gate:
  assumes "uniqueTicketIds db" and "uniqueWorkspaceIds db" and "uniqueMemberships db"
    and "ticketWorkspacesExist db"
    and "t \<in> set (tickets db)" and "t_id t = ticketId" and "t_status t = CLOSED"
    and "mayReadTicket db t (user_id user) (elevatedAgent db (user_id user))"
    and "1 \<le> length content" and "length content \<le> 5000"
  shows "(\<not> elevatedAgent db (user_id user) \<and>
          \<not> holdsRole db (user_id user) (t_workspaceId t) ADMIN \<longrightarrow>
            postMessageRoute db user ticketId (Some content) messageId dbNow now =
              (Inr (respond 403
                      (ErrorBody ''TICKET_CLOSED''
                         ''This ticket is closed. New replies are not allowed.'')), db)) \<and>
         ((elevatedAgent db (user_id user) \<or>
           holdsRole db (user_id user) (t_workspaceId t) ADMIN) \<and>
          messageId \<notin> set (map msg_id (ticketMessages db)) \<longrightarrow>
            (let message = \<lparr>msg_id = messageId, msg_ticketId = ticketId,
                            msg_authorId = user_id user, msg_content = content,
                            msg_createdAt = dbNow\<rparr>
             in postMessageRoute db user ticketId (Some content) messageId dbNow now =
                  (Inr (respond 201 (MessageBody message)),
                   touchTicket (db\<lparr>ticketMessages := ticketMessages db @ [message]\<rparr>)
                     ticketId now)))"
proof -
  let ?uid = "user_id user"
  let ?agent = "elevatedAgent db ?uid"
  have body: "replyMessageSchema (Some content) = Inr content"
    using assms(9,10) by (simp add: replyMessageSchema_Inr_iff)
  have found: "find (\<lambda>t. t_id t = ticketId) (tickets db) = Some t"
    using assms(5,6) by (simp add: findTicket_Some_iff [OF assms(1)])
  have access: "getTicketWithAccessCheck db ticketId ?uid ?agent =
                  Inr (Some (t, ticketMessagesOf db ticketId))"
    using getTicketWithAccessCheck_found [OF assms(2,3,4) found, of ?uid ?agent] assms(8)
    by simp
  have admin: "holdsRole db ?uid (t_workspaceId t) ADMIN \<longleftrightarrow>
                 (\<exists>m. findMembership db (t_workspaceId t) ?uid = Some m \<and> wm_role m = ADMIN)"
    by (rule holdsRole_findMembership [OF assms(3)])
  have deny: "\<not> ?agent \<and> \<not> holdsRole db ?uid (t_workspaceId t) ADMIN \<longrightarrow>
            postMessageRoute db user ticketId (Some content) messageId dbNow now =
              (Inr (respond 403
                      (ErrorBody ''TICKET_CLOSED''
                         ''This ticket is closed. New replies are not allowed.'')), db)"
    using body access assms(7) admin
    by (auto simp: postMessageRoute_def isSupportAgent_elevatedAgent Let_def
        split: option.splits)
  have allow: "(?agent \<or> holdsRole db ?uid (t_workspaceId t) ADMIN) \<and>
          messageId \<notin> set (map msg_id (ticketMessages db)) \<longrightarrow>
            (let message = \<lparr>msg_id = messageId, msg_ticketId = ticketId,
                            msg_authorId = ?uid, msg_content = content,
                            msg_createdAt = dbNow\<rparr>
             in postMessageRoute db user ticketId (Some content) messageId dbNow now =
                  (Inr (respond 201 (MessageBody message)),
                   touchTicket (db\<lparr>ticketMessages := ticketMessages db @ [message]\<rparr>)
                     ticketId now))"
    using body access assms(7) admin
    by (auto simp: postMessageRoute_def isSupportAgent_elevatedAgent Let_def
        createTicketMessage_def split: option.splits)
  from deny allow show ?thesis by blast
qed

lemma demo_elevated:
  "\<not> elevatedAgent demoDb ''u_alice''" "\<not> elevatedAgent demoDb ''u_carol''"
  "elevatedAgent demoDb ''u_dana''"
  by (simp_all add: elevatedAgent_def workspaceHasKind_def demo_defs)

theorem postMessage_closed_gate_witness:
  "uniqueTicketIds demoDb \<and> uniqueWorkspaceIds demoDb \<and> uniqueMemberships demoDb \<and>
   ticketWorkspacesExist demoDb \<and> tk3 \<in> set (tickets demoDb) \<and> t_status tk3 = CLOSED \<and>
   mayReadTicket demoDb tk3 (user_id alice) (elevatedAgent demoDb (user_id alice)) \<and>
   mayReadTicket demoDb tk3 (user_id carol) (elevatedAgent demoDb (user_id carol)) \<and>
   postMessageRoute demoDb alice ''tk3'' (Some ''hello'') ''msg1'' 4000 4001 =
     (Inr (respond 403
             (ErrorBody ''TICKET_CLOSED''
                ''This ticket is closed. New replies are not allowed.'')), demoDb) \<and>
   fst (postMessageRoute demoDb carol ''tk3'' (Some ''hello'') ''msg1'' 4000 4001) =
     Inr (respond 201
            (MessageBody \<lparr>msg_id = ''msg1'', msg_ticketId = ''tk3'', msg_authorId = ''u_carol'',
                          msg_content = ''hello'', msg_createdAt = 4000\<rparr>))"
proof -
  have t: "tk3 \<in> set (tickets demoDb)" "t_id tk3 = ''tk3''" "t_status tk3 = CLOSED"
    by (simp_all add: demo_defs)
  have ra: "mayReadTicket demoDb tk3 (user_id alice) (elevatedAgent demoDb (user_id alice))"
    by (simp add: mayReadTicket_def holdsRole_def demo_defs)
  have rc: "mayReadTicket demoDb tk3 (user_id carol) (elevatedAgent demoDb (user_id carol))"
    by (simp add: mayReadTicket_def holdsRole_def demo_defs)
  have len: "1 \<le> length ''hello''" "length ''hello'' \<le> 5000"
    by simp_all
  note g = postMessage_closed_gate [OF demoDb_uniqueTicketIds demoDb_uniqueWorkspaceIds
      demoDb_uniqueMemberships demoDb_ticketWorkspacesExist t]
  have a: "postMessageRoute demoDb alice ''tk3'' (Some ''hello'') ''msg1'' 4000 4001 =
     (Inr (respond 403
             (ErrorBody ''TICKET_CLOSED''
                ''This ticket is closed. New replies are not allowed.'')), demoDb)"
    using g [OF ra len, of "''msg1''" 4000 4001] demo_elevated
    by (simp add: holdsRole_def demo_defs)
  have c: "fst (postMessageRoute demoDb carol ''tk3'' (Some ''hello'') ''msg1'' 4000 4001) =
     Inr (respond 201
            (MessageBody \<lparr>msg_id = ''msg1'', msg_ticketId = ''tk3'', msg_authorId = ''u_carol'',
                          msg_content = ''hello'', msg_createdAt = 4000\<rparr>))"
    using g [OF rc len, of "''msg1''" 4000 4001]
    by (simp add: holdsRole_def demo_defs Let_def)
  from a c t ra rc demoDb_uniqueTicketIds demoDb_uniqueWorkspaceIds demoDb_uniqueMemberships
    demoDb_ticketWorkspacesExist show ?thesis by simp
qed

subsection \<open>Refresh\<close>

lemma find_hash_unique:
  assumes "uniqueSessionHashes db" "s \<in> set (refreshSessions db)" "rs_refreshTokenHash s = h"
  shows "find (\<lambda>x. rs_refreshTokenHash x = h) (refreshSessions db) = Some s"
  using assms unfolding uniqueSessionHashes_def by (simp add: find_distinct_key)

lemma refresh_no_live:
  assumes "\<not> presentsLiveToken lib db token nowCheck"
  shows "\<exists>msg. refresh env lib db token nowCheck nowRevoke g = (Inr (unauthorized msg), db)"
proof (cases token)
  case None
  then show ?thesis by (fastforce simp: refresh_def)
next
  case (Some tok)
  show ?thesis
  proof (cases "tok = []")
    case True
    with Some show ?thesis by (fastforce simp: refresh_def)
  next
    case False
    show ?thesis
    proof (cases "find (\<lambda>s. rs_refreshTokenHash s = hashRefreshToken lib tok) (refreshSessions db)")
      case None
      with Some False show ?thesis by (fastforce simp: refresh_def)
    next
      case (Some s)
      then have "s \<in> set (refreshSessions db)" "rs_refreshTokenHash s = hashRefreshToken lib tok"
        by (auto simp: find_Some_iff)
      with assms \<open>token = Some tok\<close> False have "\<not> liveSession nowCheck s"
        by (auto simp: presentsLiveToken_def)
      with Some \<open>token = Some tok\<close> False show ?thesis
        by (fastforce simp: refresh_def liveSession_def)
    qed
  qed
qed

lemma setAuthCookiesAndRespond_ok:
  assumes "getSecret env = Inr secret" "sessionId \<notin> set (map rs_id (refreshSessions db))"
  shows "setAuthCookiesAndRespond env lib db userId tok h st sessionId now =
           (Inr \<lparr>status = st, body = UserBody userId,
                 cookies = [(''access_token'', jwt_sign lib userId secret ACCESS_TOKEN_TTL_SEC),
                            (''refresh_token'', tok)]\<rparr>,
            db\<lparr>refreshSessions := refreshSessions db @
                 [\<lparr>rs_id = sessionId, rs_userId = userId, rs_refreshTokenHash = h,
                   rs_expiresAt = now + REFRESH_EXPIRES_MS, rs_revokedAt = None\<rparr>]\<rparr>)"
  using assms
  by (simp add: setAuthCookiesAndRespond_def createRefreshSession_def createAccessToken_def)

lemma revokeSessionById_ids:
  "map rs_id (refreshSessions (revokeSessionById db sid now)) = map rs_id (refreshSessions db)"
  by (simp add: revokeSessionById_def comp_def)

lemma refresh_live:
  assumes uniq: "uniqueSessionHashes db"
    and secret: "getSecret env = Inr secret"
    and fresh: "sg_sessionId g \<notin> set (map rs_id (refreshSessions db))"
    and tok: "tok \<noteq> []"
    and s: "s \<in> set (refreshSessions db)" "rs_refreshTokenHash s = hashRefreshToken lib tok"
      "liveSession nowCheck s"
  shows "refresh env lib db (Some tok) nowCheck nowRevoke g =
           (Inr \<lparr>status = 200, body = UserBody (rs_userId s),
                 cookies = [(''access_token'',
                             jwt_sign lib (rs_userId s) secret ACCESS_TOKEN_TTL_SEC),
                            (''refresh_token'', sg_refreshToken g)]\<rparr>,
            db\<lparr>refreshSessions :=
                 map (\<lambda>x. if rs_id x = rs_id s then x\<lparr>rs_revokedAt := Some nowRevoke\<rparr> else x)
                   (refreshSessions db) @
                 [\<lparr>rs_id = sg_sessionId g, rs_userId = rs_userId s,
                   rs_refreshTokenHash = hashRefreshToken lib (sg_refreshToken g),
                   rs_expiresAt = sg_now g + REFRESH_EXPIRES_MS, rs_revokedAt = None\<rparr>]\<rparr>)"
proof -
  have f: "find (\<lambda>x. rs_refreshTokenHash x = hashRefreshToken lib tok) (refreshSessions db) = Some s"
    using find_hash_unique [OF uniq s(1,2)] .
  have fresh': "sg_sessionId g \<notin>
      set (map rs_id (refreshSessions (revokeSessionById db (rs_id s) nowRevoke)))"
    unfolding revokeSessionById_ids using fresh .
  have "refresh env lib db (Some tok) nowCheck nowRevoke g =
          setAuthCookiesAndRespond env lib (revokeSessionById db (rs_id s) nowRevoke)
            (rs_userId s) (sg_refreshToken g) (hashRefreshToken lib (sg_refreshToken g)) 200
            (sg_sessionId g) (sg_now g)"
    using f tok s(3) by (simp add: refresh_def liveSession_def Let_def)
  also have "\<dots> =
      (Inr \<lparr>status = 200, body = UserBody (rs_userId s),
            cookies = [(''access_token'',
                        jwt_sign lib (rs_userId s) secret ACCESS_TOKEN_TTL_SEC),
                       (''refresh_token'', sg_refreshToken g)]\<rparr>,
       (revokeSessionById db (rs_id s) nowRevoke)
         \<lparr>refreshSessions := refreshSessions (revokeSessionById db (rs_id s) nowRevoke) @
            [\<lparr>rs_id = sg_sessionId g, rs_userId = rs_userId s,
              rs_refreshTokenHash = hashRefreshToken lib (sg_refreshToken g),
              rs_expiresAt = sg_now g + REFRESH_EXPIRES_MS, rs_revokedAt = None\<rparr>]\<rparr>)"
    by (rule setAuthCookiesAndRespond_ok [OF secret fresh'])
  finally show ?thesis
    by (simp add: revokeSessionById_def)
qed

text \<open>
  Claim C2. A refresh request that presents no token, or a token under whose hash no live
  session is stored (none stored, revoked, or expired), is answered 401 UNAUTHORIZED and
  leaves the datastore as it was, so no session row is created. With session hashes
  unique, the signing secret configured and the generated session id new, the request
  is answered 200 exactly when a live session is stored under the hash of the presented
  token.
\<close>

theorem refresh_iff_live_session:
  shows "(\<not> presentsLiveToken lib db token nowCheck \<longrightarrow>
            (\<exists>msg. refresh env lib db token nowCheck nowRevoke g =
                     (Inr (respond 401 (ErrorBody ''UNAUTHORIZED'' msg)), db))) \<and>
         (uniqueSessionHashes db \<and> getSecret env = Inr secret \<and>
          sg_sessionId g \<notin> set (map rs_id (refreshSessions db)) \<longrightarrow>
            ((\<exists>r. fst (refresh env lib db token nowCheck nowRevoke g) = Inr r \<and> status r = 200)
               \<longleftrightarrow> presentsLiveToken lib db token nowCheck))"
proof -
  have fail: "\<not> presentsLiveToken lib db token nowCheck \<longrightarrow>
            (\<exists>msg. refresh env lib db token nowCheck nowRevoke g =
                     (Inr (respond 401 (ErrorBody ''UNAUTHORIZED'' msg)), db))"
    using refresh_no_live [of lib db token nowCheck env nowRevoke g]
    by (simp add: unauthorized_def)
  have iff: "(\<exists>r. fst (refresh env lib db token nowCheck nowRevoke g) = Inr r \<and> status r = 200)
               \<longleftrightarrow> presentsLiveToken lib db token nowCheck"
    if h: "uniqueSessionHashes db" "getSecret env = Inr secret"
      "sg_sessionId g \<notin> set (map rs_id (refreshSessions db))"
  proof
    assume "\<exists>r. fst (refresh env lib db token nowCheck nowRevoke g) = Inr r \<and> status r = 200"
    then obtain r where r: "fst (refresh env lib db token nowCheck nowRevoke g) = Inr r"
      "status r = 200" by blast
    show "presentsLiveToken lib db token nowCheck"
    proof (rule ccontr)
      assume "\<not> presentsLiveToken lib db token nowCheck"
      with fail r show False by (auto simp: respond_def)
    qed
  next
    assume "presentsLiveToken lib db token nowCheck"
    then obtain tok s where ts: "token = Some tok" "tok \<noteq> []" "s \<in> set (refreshSessions db)"
      "rs_refreshTokenHash s = hashRefreshToken lib tok" "liveSession nowCheck s"
      by (auto simp: presentsLiveToken_def)
    from refresh_live [OF h ts(2,3,4,5), of nowRevoke] ts(1)
    show "\<exists>r. fst (refresh env lib db token nowCheck nowRevoke g) = Inr r \<and> status r = 200"
      by simp
  qed
  from fail iff show ?thesis by blast
qed

subsection \<open>Rotation\<close>

lemma setAuthCookiesAndRespond_sessions:
  "refreshSessions (snd (setAuthCookiesAndRespond env lib db uid tok h st sid now)) =
     refreshSessions db \<or>
   sid \<notin> set (map rs_id (refreshSessions db)) \<and>
   refreshSessions (snd (setAuthCookiesAndRespond env lib db uid tok h st sid now)) =
     refreshSessions db @
       [\<lparr>rs_id = sid, rs_userId = uid, rs_refreshTokenHash = h,
         rs_expiresAt = now + REFRESH_EXPIRES_MS, rs_revokedAt = None\<rparr>]"
  by (simp add: setAuthCookiesAndRespond_def createRefreshSession_def Let_def split: sum.splits)

lemma revoked_map_ids:
  "map rs_id (map (\<lambda>s. if P s then s\<lparr>rs_revokedAt := Some t\<rparr> else s) xs) = map rs_id xs"
  by (induction xs) auto

lemma revoked_map_hashes:
  "map rs_refreshTokenHash (map (\<lambda>s. if P s then s\<lparr>rs_revokedAt := Some t\<rparr> else s) xs) =
   map rs_refreshTokenHash xs"
  by (induction xs) auto

lemma ledgerStep_setAuth:
  assumes "refreshSessions db1 =
             map (\<lambda>s. if P s then s\<lparr>rs_revokedAt := Some t\<rparr> else s) (refreshSessions db)"
    and "\<forall>s. P s \<longrightarrow> p = Some (rs_refreshTokenHash s)"
  shows "ledgerStep p (Some h) db (snd (setAuthCookiesAndRespond env lib db1 uid tok h st sid now))"
proof -
  let ?db' = "snd (setAuthCookiesAndRespond env lib db1 uid tok h st sid now)"
  let ?new = "\<lparr>rs_id = sid, rs_userId = uid, rs_refreshTokenHash = h,
               rs_expiresAt = now + REFRESH_EXPIRES_MS, rs_revokedAt = None\<rparr>"
  from setAuthCookiesAndRespond_sessions [of env lib db1 uid tok h st sid now]
  consider "refreshSessions ?db' = refreshSessions db1"
    | "sid \<notin> set (map rs_id (refreshSessions db1))"
      "refreshSessions ?db' = refreshSessions db1 @ [?new]" by blast
  then show ?thesis
  proof cases
    case 1
    with assms show ?thesis
      unfolding ledgerStep_def
      by (intro exI [of _ P] exI [of _ t] exI [of _ "[]"]) simp
  next
    case 2
    from 2(1) have "sid \<notin> set (map rs_id (refreshSessions db))"
      unfolding assms(1) revoked_map_ids .
    with 2(2) assms show ?thesis
      unfolding ledgerStep_def
      by (intro exI [of _ P] exI [of _ t] exI [of _ "[?new]"]) simp
  qed
qed

lemma ledgerStep_unchanged:
  assumes "refreshSessions db' = refreshSessions db"
  shows "ledgerStep p g db db'"
  unfolding ledgerStep_def using assms
  by (intro exI [of _ "\<lambda>s. False"] exI [of _ 0] exI [of _ "[]"]) simp

lemma sessions_same_map:
  "refreshSessions db1 = refreshSessions db \<Longrightarrow>
   refreshSessions db1 =
     map (\<lambda>s. if False then s\<lparr>rs_revokedAt := Some 0\<rparr> else s) (refreshSessions db)"
  by simp

lemma createUser_sessions:
  "createUser db u = Inr db' \<Longrightarrow> refreshSessions db' = refreshSessions db"
  by (auto simp: createUser_def split: if_splits)

lemma createWorkspace_sessions:
  "createWorkspace db w = Inr db' \<Longrightarrow> refreshSessions db' = refreshSessions db"
  by (auto simp: createWorkspace_def split: if_splits)

lemma createWorkspaceMember_sessions:
  "createWorkspaceMember db m = Inr db' \<Longrightarrow> refreshSessions db' = refreshSessions db"
  by (auto simp: createWorkspaceMember_def split: if_splits)

lemma login_ledgerStep:
  "ledgerStep None (Some (hashRefreshToken lib (sg_refreshToken g))) db
     (snd (login env lib db parsed g))"
proof (cases "\<exists>uid. login env lib db parsed g =
    setAuthCookiesAndRespond env lib db uid (sg_refreshToken g)
      (hashRefreshToken lib (sg_refreshToken g)) 200 (sg_sessionId g) (sg_now g)")
  case True
  then obtain uid where "login env lib db parsed g =
    setAuthCookiesAndRespond env lib db uid (sg_refreshToken g)
      (hashRefreshToken lib (sg_refreshToken g)) 200 (sg_sessionId g) (sg_now g)" by blast
  then show ?thesis
    using ledgerStep_setAuth [OF sessions_same_map [OF refl], of None] by simp
next
  case False
  then have "snd (login env lib db parsed g) = db"
    by (auto simp: login_def split: sum.splits option.splits prod.splits if_splits)
  then show ?thesis by (simp add: ledgerStep_unchanged)
qed

lemma findOrCreateCustomerWorkspace_sessions:
  "findOrCreateCustomerWorkspace db d n = Inr (w, db') \<Longrightarrow>
   refreshSessions db' = refreshSessions db"
  by (auto simp: findOrCreateCustomerWorkspace_def Let_def
      split: option.splits sum.splits dest: createWorkspace_sessions)

lemma grantSupportOps_sessions:
  "grantSupportOps db a u m = Inr db' \<Longrightarrow> refreshSessions db' = refreshSessions db"
  by (auto simp: grantSupportOps_def split: option.splits if_splits
      dest: createWorkspaceMember_sessions)

text \<open>The shape of every run of signup: an early answer, an exception, or the session step.\<close>

lemma signup_shape:
  "refreshSessions (snd (signup env lib db parsed g)) = refreshSessions db \<or>
   (\<exists>db4 uid. refreshSessions db4 = refreshSessions db \<and>
      signup env lib db parsed g =
        setAuthCookiesAndRespond env lib db4 uid (sg_refreshToken (su_session g))
          (hashRefreshToken lib (sg_refreshToken (su_session g))) 201
          (sg_sessionId (su_session g)) (sg_now (su_session g)))"
proof (cases parsed)
  case (Inl msg)
  then show ?thesis by (simp add: signup_def)
next
  case (Inr ep)
  obtain email password where ep: "ep = (email, password)" by (cases ep)
  show ?thesis
  proof (cases "find (\<lambda>u. user_email u = email) (users db)")
    case (Some u)
    with Inr ep show ?thesis by (simp add: signup_def)
  next
    case None
    note nouser = None
    show ?thesis
    proof (cases "parseEmailDomain email")
      case None
      with Inr ep nouser show ?thesis by (simp add: signup_def)
    next
      case (Some domain)
      let ?user = "\<lparr>user_id = su_userId g, user_email = email,
                     user_passwordHash = bcrypt_hashSync lib password (su_salt g),
                     user_isSupportAgent = isSupportAgentDomain env email\<rparr>"
      show ?thesis
      proof (cases "createUser db ?user")
        case (Inl e)
        with Inr ep nouser Some show ?thesis by (simp add: signup_def)
      next
        case (Inr db1)
        note u = Inr createUser_sessions [OF Inr]
        show ?thesis
        proof (cases "findOrCreateCustomerWorkspace db1 domain (su_workspaceId g)")
          case (Inl e)
          with \<open>parsed = Inr ep\<close> ep nouser Some u show ?thesis by (simp add: signup_def)
        next
          case (Inr wd)
          obtain w db2 where wd: "wd = (w, db2)" by (cases wd)
          note f = Inr [unfolded wd] findOrCreateCustomerWorkspace_sessions [OF Inr [unfolded wd]]
          show ?thesis
          proof (cases "createWorkspaceMember db2
                          \<lparr>wm_id = su_memberId g, wm_workspaceId = ws_id w,
                           wm_userId = su_userId g, wm_role = MEMBER\<rparr>")
            case (Inl e)
            with \<open>parsed = Inr ep\<close> ep nouser Some u f show ?thesis
              by (simp add: signup_def)
          next
            case (Inr db3)
            note m = Inr createWorkspaceMember_sessions [OF Inr]
            show ?thesis
            proof (cases "grantSupportOps db3 (isSupportAgentDomain env email) (su_userId g)
                            (su_opsMemberId g)")
              case (Inl e)
              with \<open>parsed = Inr ep\<close> ep nouser Some u f m show ?thesis
                by (simp add: signup_def)
            next
              case (Inr db4)
              note o = Inr grantSupportOps_sessions [OF Inr]
              have "signup env lib db parsed g =
                setAuthCookiesAndRespond env lib db4 (su_userId g)
                  (sg_refreshToken (su_session g))
                  (hashRefreshToken lib (sg_refreshToken (su_session g))) 201
                  (sg_sessionId (su_session g)) (sg_now (su_session g))"
                using \<open>parsed = Inr ep\<close> ep nouser Some u(1) f(1) m(1) o(1)
                by (simp add: signup_def Let_def)
              moreover have "refreshSessions db4 = refreshSessions db"
                using u(2) f(2) m(2) o(2) by simp
              ultimately show ?thesis by blast
            qed
          qed
        qed
      qed
    qed
  qed
qed

lemma signup_ledgerStep:
  "ledgerStep None (Some (hashRefreshToken lib (sg_refreshToken (su_session g)))) db
     (snd (signup env lib db parsed g))"
proof -
  from signup_shape [of env lib db parsed g]
  consider "refreshSessions (snd (signup env lib db parsed g)) = refreshSessions db"
    | db4 uid where "refreshSessions db4 = refreshSessions db"
      "signup env lib db parsed g =
        setAuthCookiesAndRespond env lib db4 uid (sg_refreshToken (su_session g))
          (hashRefreshToken lib (sg_refreshToken (su_session g))) 201
          (sg_sessionId (su_session g)) (sg_now (su_session g))"
    by blast
  then show ?thesis
  proof cases
    case 1
    then show ?thesis by (simp add: ledgerStep_unchanged)
  next
    case 2
    then show ?thesis
      using ledgerStep_setAuth [OF sessions_same_map [OF 2(1)], of None] by simp
  qed
qed

lemma logout_ledgerStep:
  "ledgerStep (map_option (hashRefreshToken lib) token) None db
     (snd (logout lib db token nowRevoke))"
proof (cases "\<exists>tok. token = Some tok \<and> tok \<noteq> []")
  case True
  then obtain tok where tok: "token = Some tok" "tok \<noteq> []" by blast
  show ?thesis
    unfolding ledgerStep_def
    by (intro exI [of _ "\<lambda>s. rs_refreshTokenHash s = hashRefreshToken lib tok"]
        exI [of _ nowRevoke] exI [of _ "[]"])
      (simp add: tok logout_def revokeSessionsByHash_def)
next
  case False
  then have "snd (logout lib db token nowRevoke) = db"
    by (cases token) (auto simp: logout_def)
  then show ?thesis by (simp add: ledgerStep_unchanged)
qed

lemma refresh_ledgerStep:
  assumes ids: "uniqueSessionIds db"
  shows "ledgerStep (map_option (hashRefreshToken lib) token)
     (Some (hashRefreshToken lib (sg_refreshToken g))) db
     (snd (refresh env lib db token nowCheck nowRevoke g))"
proof (cases "presentsLiveToken lib db token nowCheck")
  case False
  from refresh_no_live [OF this, of env nowRevoke g]
  have "snd (refresh env lib db token nowCheck nowRevoke g) = db" by auto
  then show ?thesis by (simp add: ledgerStep_unchanged)
next
  case True
  then obtain tok where tok: "token = Some tok" "tok \<noteq> []"
    by (auto simp: presentsLiveToken_def)
  show ?thesis
  proof (cases "find (\<lambda>s. rs_refreshTokenHash s = hashRefreshToken lib tok) (refreshSessions db)")
    case None
    with tok have "snd (refresh env lib db token nowCheck nowRevoke g) = db"
      by (simp add: refresh_def)
    then show ?thesis by (simp add: ledgerStep_unchanged)
  next
    case (Some s)
    then have s: "s \<in> set (refreshSessions db)"
      "rs_refreshTokenHash s = hashRefreshToken lib tok"
      by (auto simp: find_Some_iff)
    show ?thesis
    proof (cases "rs_revokedAt s \<noteq> None \<or> rs_expiresAt s < nowCheck")
      case True
      with tok Some have "snd (refresh env lib db token nowCheck nowRevoke g) = db"
        by (auto simp: refresh_def)
      then show ?thesis by (simp add: ledgerStep_unchanged)
    next
      case False
      with tok(2) Some have r: "refresh env lib db (Some tok) nowCheck nowRevoke g =
          setAuthCookiesAndRespond env lib (revokeSessionById db (rs_id s) nowRevoke)
            (rs_userId s) (sg_refreshToken g) (hashRefreshToken lib (sg_refreshToken g)) 200
            (sg_sessionId g) (sg_now g)"
        by (simp add: refresh_def Let_def)
      have same: "x = s" if "x \<in> set (refreshSessions db)" "rs_id x = rs_id s" for x
        using ids s(1) that unfolding uniqueSessionIds_def
        by (simp add: distinct_map inj_on_def)
      have m: "refreshSessions (revokeSessionById db (rs_id s) nowRevoke) =
                 map (\<lambda>x. if x = s then x\<lparr>rs_revokedAt := Some nowRevoke\<rparr> else x)
                   (refreshSessions db)"
        using same by (auto simp: revokeSessionById_def)
      have "ledgerStep (Some (hashRefreshToken lib tok))
              (Some (hashRefreshToken lib (sg_refreshToken g))) db
              (snd (setAuthCookiesAndRespond env lib (revokeSessionById db (rs_id s) nowRevoke)
                (rs_userId s) (sg_refreshToken g) (hashRefreshToken lib (sg_refreshToken g)) 200
                (sg_sessionId g) (sg_now g)))"
        by (rule ledgerStep_setAuth [OF m]) (simp add: s(2))
      then show ?thesis by (simp add: r tok(1))
    qed
  qed
qed

lemma handleAuth_ledgerStep:
  assumes "uniqueSessionIds db"
  shows "ledgerStep (presentedHash lib r) (generatedHash lib r) db (snd (handleAuth env lib db r))"
proof (cases r)
  case (Signup parsed g)
  then show ?thesis by (simp add: signup_ledgerStep)
next
  case (Login parsed g)
  then show ?thesis by (simp add: login_ledgerStep)
next
  case (Refresh token c v g)
  then show ?thesis by (simp add: refresh_ledgerStep [OF assms])
next
  case (Logout token v)
  then show ?thesis by (simp add: logout_ledgerStep)
qed

text \<open>What a ledger step preserves.\<close>

lemma ledgerStep_ids:
  assumes "ledgerStep p g db db'" "uniqueSessionIds db"
  shows "uniqueSessionIds db'"
proof -
  from assms(1) obtain P t extra where
    e: "refreshSessions db' =
          map (\<lambda>s. if P s then s\<lparr>rs_revokedAt := Some t\<rparr> else s) (refreshSessions db) @ extra"
    and x: "extra = [] \<or>
            (\<exists>s. extra = [s] \<and> rs_id s \<notin> set (map rs_id (refreshSessions db)))"
    unfolding ledgerStep_def by blast
  have m: "map rs_id (refreshSessions db') = map rs_id (refreshSessions db) @ map rs_id extra"
    unfolding e by (simp only: map_append revoked_map_ids)
  from x show ?thesis
  proof
    assume "extra = []"
    with assms(2) show ?thesis unfolding uniqueSessionIds_def m by simp
  next
    assume "\<exists>s. extra = [s] \<and> rs_id s \<notin> set (map rs_id (refreshSessions db))"
    then obtain s where "extra = [s]" "rs_id s \<notin> set (map rs_id (refreshSessions db))"
      by blast
    with assms(2) show ?thesis unfolding uniqueSessionIds_def m by simp
  qed
qed

lemma ledgerStep_hashes_mono:
  assumes "ledgerStep p g db db'"
  shows "sessionHashes db \<subseteq> sessionHashes db'"
proof -
  from assms obtain P t extra where
    e: "refreshSessions db' =
          map (\<lambda>s. if P s then s\<lparr>rs_revokedAt := Some t\<rparr> else s) (refreshSessions db) @ extra"
    unfolding ledgerStep_def by blast
  have "map rs_refreshTokenHash (refreshSessions db') =
          map rs_refreshTokenHash (refreshSessions db) @ map rs_refreshTokenHash extra"
    unfolding e by (simp only: map_append revoked_map_hashes)
  then show ?thesis unfolding sessionHashes_def by auto
qed

lemma ledgerStep_unique:
  assumes "ledgerStep p g db db'" "uniqueSessionHashes db"
    and "case g of None \<Rightarrow> True | Some h \<Rightarrow> h \<notin> sessionHashes db"
  shows "uniqueSessionHashes db'"
proof -
  from assms(1) obtain P t extra where
    e: "refreshSessions db' =
          map (\<lambda>s. if P s then s\<lparr>rs_revokedAt := Some t\<rparr> else s) (refreshSessions db) @ extra"
    and x: "extra = [] \<or> (\<exists>s. extra = [s] \<and> g = Some (rs_refreshTokenHash s))"
    unfolding ledgerStep_def by blast
  have m: "map rs_refreshTokenHash (refreshSessions db') =
          map rs_refreshTokenHash (refreshSessions db) @ map rs_refreshTokenHash extra"
    unfolding e by (simp only: map_append revoked_map_hashes)
  from x show ?thesis
  proof
    assume "extra = []"
    with assms(2) show ?thesis unfolding uniqueSessionHashes_def m by simp
  next
    assume "\<exists>s. extra = [s] \<and> g = Some (rs_refreshTokenHash s)"
    then obtain s where s: "extra = [s]" "g = Some (rs_refreshTokenHash s)" by blast
    with assms(3) have "rs_refreshTokenHash s \<notin> set (map rs_refreshTokenHash (refreshSessions db))"
      by (simp add: sessionHashes_def)
    with s(1) assms(2) show ?thesis unfolding uniqueSessionHashes_def m by simp
  qed
qed

lemma ledgerStep_dead:
  assumes "ledgerStep p g db db'" "deadHash db h"
    and "case g of None \<Rightarrow> True | Some h' \<Rightarrow> h' \<notin> sessionHashes db"
  shows "deadHash db' h"
proof -
  from assms(1) obtain P t extra where
    e: "refreshSessions db' =
          map (\<lambda>s. if P s then s\<lparr>rs_revokedAt := Some t\<rparr> else s) (refreshSessions db) @ extra"
    and x: "extra = [] \<or> (\<exists>s. extra = [s] \<and> g = Some (rs_refreshTokenHash s))"
    unfolding ledgerStep_def by blast
  from assms(2) have h: "h \<in> sessionHashes db"
    and d: "\<forall>s \<in> set (refreshSessions db). rs_refreshTokenHash s = h \<longrightarrow> rs_revokedAt s \<noteq> None"
    unfolding deadHash_def by auto
  have "h \<in> sessionHashes db'"
    using ledgerStep_hashes_mono [OF assms(1)] h by auto
  moreover have "rs_revokedAt s \<noteq> None"
    if "s \<in> set (refreshSessions db')" "rs_refreshTokenHash s = h" for s
  proof -
    from that(1) consider
      s0 where "s0 \<in> set (refreshSessions db)"
        "s = (if P s0 then s0\<lparr>rs_revokedAt := Some t\<rparr> else s0)"
      | "s \<in> set extra"
      unfolding e by auto
    then show ?thesis
    proof cases
      case 1
      with d that(2) show ?thesis by (auto split: if_splits)
    next
      case 2
      with x have "g = Some (rs_refreshTokenHash s)" by auto
      with assms(3) that(2) h show ?thesis by simp
    qed
  qed
  ultimately show ?thesis unfolding deadHash_def by blast
qed

lemma ledgerStep_live:
  assumes "ledgerStep p g db db'" "liveHash db h e" "p \<noteq> Some h"
  shows "liveHash db' h e"
proof -
  from assms(1) obtain P t extra where
    e: "refreshSessions db' =
          map (\<lambda>s. if P s then s\<lparr>rs_revokedAt := Some t\<rparr> else s) (refreshSessions db) @ extra"
    and p: "\<forall>s. P s \<longrightarrow> p = Some (rs_refreshTokenHash s)"
    unfolding ledgerStep_def by blast
  from assms(2) obtain s where s: "s \<in> set (refreshSessions db)" "rs_refreshTokenHash s = h"
    "rs_revokedAt s = None" "rs_expiresAt s = e"
    unfolding liveHash_def by blast
  with p assms(3) have "\<not> P s" by auto
  with s(1) have "s \<in> set (refreshSessions db')"
    unfolding e by (auto simp: image_iff intro!: bexI [of _ s])
  with s show ?thesis unfolding liveHash_def by blast
qed

lemma run_invariants:
  assumes "freshRun env lib db reqs" "uniqueSessionIds db" "uniqueSessionHashes db"
  shows "uniqueSessionIds (runAuth env lib db reqs) \<and>
         uniqueSessionHashes (runAuth env lib db reqs) \<and>
         (deadHash db h \<longrightarrow> deadHash (runAuth env lib db reqs) h) \<and>
         ((\<forall>r \<in> set reqs. presentedHash lib r \<noteq> Some h') \<and> liveHash db h' e \<longrightarrow>
            liveHash (runAuth env lib db reqs) h' e)"
  using assms
proof (induction reqs arbitrary: db)
  case Nil
  then show ?case by simp
next
  case (Cons r reqs)
  let ?db' = "snd (handleAuth env lib db r)"
  have step: "ledgerStep (presentedHash lib r) (generatedHash lib r) db ?db'"
    by (rule handleAuth_ledgerStep [OF Cons.prems(2)])
  from Cons.prems(1) have g: "case generatedHash lib r of None \<Rightarrow> True
      | Some h \<Rightarrow> h \<notin> sessionHashes db"
    and rest: "freshRun env lib ?db' reqs" by simp_all
  have ids: "uniqueSessionIds ?db'"
    by (rule ledgerStep_ids [OF step Cons.prems(2)])
  have hs: "uniqueSessionHashes ?db'"
    by (rule ledgerStep_unique [OF step Cons.prems(3) g])
  have dead: "deadHash db h \<Longrightarrow> deadHash ?db' h"
    by (rule ledgerStep_dead [OF step _ g])
  have live: "presentedHash lib r \<noteq> Some h' \<Longrightarrow> liveHash db h' e \<Longrightarrow> liveHash ?db' h' e"
    by (rule ledgerStep_live [OF step])
  from Cons.IH [OF rest ids hs] dead live show ?case by simp
qed

lemma deadHash_not_live:
  assumes "deadHash db (hashRefreshToken lib tok)"
  shows "\<not> presentsLiveToken lib db (Some tok) now"
  using assms by (auto simp: deadHash_def presentsLiveToken_def liveSession_def)

lemma refresh_dead:
  assumes "deadHash db (hashRefreshToken lib tok)" "tok \<noteq> []"
  shows "refresh env lib db (Some tok) c v g =
           (Inr (unauthorized ''Invalid or expired refresh token''), db)"
proof (cases "find (\<lambda>s. rs_refreshTokenHash s = hashRefreshToken lib tok) (refreshSessions db)")
  case None
  with assms(2) show ?thesis by (simp add: refresh_def)
next
  case (Some s)
  then have "s \<in> set (refreshSessions db)" "rs_refreshTokenHash s = hashRefreshToken lib tok"
    by (auto simp: find_Some_iff)
  with assms(1) have "rs_revokedAt s \<noteq> None" by (auto simp: deadHash_def)
  with Some assms(2) show ?thesis by (auto simp: refresh_def)
qed

lemma setAuthCookiesAndRespond_success:
  assumes "fst (setAuthCookiesAndRespond env lib db uid tok h st sid now) = Inr r"
  shows "(\<exists>secret. getSecret env = Inr secret) \<and> sid \<notin> set (map rs_id (refreshSessions db))"
  using assms
  by (auto simp: setAuthCookiesAndRespond_def createRefreshSession_def createAccessToken_def
      Let_def split: sum.splits if_splits)

lemma refresh_success_state:
  assumes ids: "uniqueSessionIds db" and hashes: "uniqueSessionHashes db"
    and ok: "fst (refresh env lib db (Some tok) c v g) = Inr r" "status r = 200"
    and fresh: "hashRefreshToken lib (sg_refreshToken g) \<notin> sessionHashes db"
  shows "tok \<noteq> [] \<and> (\<exists>secret. getSecret env = Inr secret) \<and>
         deadHash (snd (refresh env lib db (Some tok) c v g)) (hashRefreshToken lib tok) \<and>
         liveHash (snd (refresh env lib db (Some tok) c v g))
           (hashRefreshToken lib (sg_refreshToken g)) (sg_now g + REFRESH_EXPIRES_MS) \<and>
         uniqueSessionIds (snd (refresh env lib db (Some tok) c v g)) \<and>
         uniqueSessionHashes (snd (refresh env lib db (Some tok) c v g))"
proof -
  let ?db1 = "snd (refresh env lib db (Some tok) c v g)"
  let ?h = "hashRefreshToken lib tok"
  have live: "presentsLiveToken lib db (Some tok) c"
  proof (rule ccontr)
    assume "\<not> presentsLiveToken lib db (Some tok) c"
    from refresh_no_live [OF this, of env v g] ok show False
      by (auto simp: unauthorized_def respond_def)
  qed
  then obtain s where tok: "tok \<noteq> []" and s: "s \<in> set (refreshSessions db)"
    "rs_refreshTokenHash s = ?h" "liveSession c s"
    by (auto simp: presentsLiveToken_def)
  have f: "find (\<lambda>x. rs_refreshTokenHash x = ?h) (refreshSessions db) = Some s"
    by (rule find_hash_unique [OF hashes s(1,2)])
  have r: "refresh env lib db (Some tok) c v g =
          setAuthCookiesAndRespond env lib (revokeSessionById db (rs_id s) v)
            (rs_userId s) (sg_refreshToken g) (hashRefreshToken lib (sg_refreshToken g)) 200
            (sg_sessionId g) (sg_now g)"
    using f tok s(3) by (simp add: refresh_def liveSession_def Let_def)
  from setAuthCookiesAndRespond_success [OF ok(1) [unfolded r]]
  obtain secret where secret: "getSecret env = Inr secret"
    and sid: "sg_sessionId g \<notin> set (map rs_id (refreshSessions db))"
    unfolding revokeSessionById_ids by blast
  let ?new = "\<lparr>rs_id = sg_sessionId g, rs_userId = rs_userId s,
               rs_refreshTokenHash = hashRefreshToken lib (sg_refreshToken g),
               rs_expiresAt = sg_now g + REFRESH_EXPIRES_MS, rs_revokedAt = None\<rparr>"
  have db1: "refreshSessions ?db1 =
               map (\<lambda>x. if rs_id x = rs_id s then x\<lparr>rs_revokedAt := Some v\<rparr> else x)
                 (refreshSessions db) @ [?new]"
    by (simp add: refresh_live [OF hashes secret sid tok s])
  have step: "ledgerStep (Some ?h) (Some (hashRefreshToken lib (sg_refreshToken g))) db ?db1"
    using refresh_ledgerStep [OF ids, of lib "Some tok" g env c v] by simp
  have g: "case Some (hashRefreshToken lib (sg_refreshToken g)) of None \<Rightarrow> True
           | Some h \<Rightarrow> h \<notin> sessionHashes db"
    using fresh by simp
  have hin: "?h \<in> sessionHashes db"
    using s(1,2) by (force simp: sessionHashes_def)
  have ne: "hashRefreshToken lib (sg_refreshToken g) \<noteq> ?h"
    using fresh hin by auto
  have dead: "deadHash ?db1 ?h"
    unfolding deadHash_def
  proof (intro conjI ballI impI)
    show "?h \<in> sessionHashes ?db1"
      using ledgerStep_hashes_mono [OF step] hin by auto
  next
    fix x assume x: "x \<in> set (refreshSessions ?db1)" "rs_refreshTokenHash x = ?h"
    from x(1) consider x0 where "x0 \<in> set (refreshSessions db)"
        "x = (if rs_id x0 = rs_id s then x0\<lparr>rs_revokedAt := Some v\<rparr> else x0)"
      | "x = ?new"
      unfolding db1 by auto
    then show "rs_revokedAt x \<noteq> None"
    proof cases
      case 1
      with x(2) have "rs_refreshTokenHash x0 = ?h" by (auto split: if_splits)
      with 1(1) have "find (\<lambda>x. rs_refreshTokenHash x = ?h) (refreshSessions db) = Some x0"
        by (rule find_hash_unique [OF hashes])
      with f have "x0 = s" by simp
      with 1(2) show ?thesis by simp
    next
      case 2
      with x(2) ne show ?thesis by simp
    qed
  qed
  have livenew: "liveHash ?db1 (hashRefreshToken lib (sg_refreshToken g))
                   (sg_now g + REFRESH_EXPIRES_MS)"
    unfolding liveHash_def db1 by (intro bexI [of _ ?new]) simp_all
  from tok secret dead livenew ledgerStep_ids [OF step ids] ledgerStep_unique [OF step hashes g]
  show ?thesis by blast
qed

lemma refresh_liveHash:
  assumes "uniqueSessionHashes db" "getSecret env = Inr secret"
    and "sg_sessionId g \<notin> set (map rs_id (refreshSessions db))"
    and "tok \<noteq> []" "liveHash db (hashRefreshToken lib tok) e" "c \<le> e"
  shows "\<exists>r. fst (refresh env lib db (Some tok) c v g) = Inr r \<and> status r = 200"
proof -
  from assms(5) obtain s where s: "s \<in> set (refreshSessions db)"
    "rs_refreshTokenHash s = hashRefreshToken lib tok" "rs_revokedAt s = None" "rs_expiresAt s = e"
    unfolding liveHash_def by blast
  with assms(6) have "liveSession c s" by (simp add: liveSession_def)
  from refresh_live [OF assms(1,2,3,4) s(1,2) this, of v] show ?thesis by simp
qed

text \<open>
  Claim C3, as the code has it. After a refresh that rotates T1 into T2 (the session under
  T1's hash is revoked, a new unrevoked session is stored under T2's hash), T1 is answered
  401 after every later run of auth requests. T2 succeeds at most once: the first refresh
  that presents T2 succeeds provided it comes no later than the expiry of T2's session
  (seven days after the rotation) and no earlier request presented T2 (a logout would
  revoke it); after that success every later presentation of T2 is answered 401. Runs are
  fresh: generated tokens hash to values not yet stored, generated session ids are new.
\<close>

theorem refresh_rotation:
  assumes ids: "uniqueSessionIds db0" and hashes: "uniqueSessionHashes db0"
    and ok: "fst (refresh env lib db0 (Some T1) c1 v1 g1) = Inr r1" "status r1 = 200"
    and fresh: "hashRefreshToken lib (sg_refreshToken g1) \<notin> sessionHashes db0"
    and nonempty: "sg_refreshToken g1 \<noteq> []"
    and run1: "freshRun env lib (snd (refresh env lib db0 (Some T1) c1 v1 g1)) reqs1"
  shows "let T2 = sg_refreshToken g1;
             db1 = snd (refresh env lib db0 (Some T1) c1 v1 g1);
             db2 = runAuth env lib db1 reqs1;
             db3 = snd (refresh env lib db2 (Some T2) c2 v2 g2);
             db4 = runAuth env lib db3 reqs2
         in deadHash db1 (hashRefreshToken lib T1) \<and>
            liveHash db1 (hashRefreshToken lib T2) (sg_now g1 + REFRESH_EXPIRES_MS) \<and>
            (\<forall>c v g. refresh env lib db2 (Some T1) c v g =
                       (Inr (respond 401
                               (ErrorBody ''UNAUTHORIZED'' ''Invalid or expired refresh token'')),
                        db2)) \<and>
            ((\<forall>r \<in> set reqs1. presentedHash lib r \<noteq> Some (hashRefreshToken lib T2)) \<and>
             c2 \<le> sg_now g1 + REFRESH_EXPIRES_MS \<and>
             sg_sessionId g2 \<notin> set (map rs_id (refreshSessions db2)) \<and>
             hashRefreshToken lib (sg_refreshToken g2) \<notin> sessionHashes db2 \<and>
             freshRun env lib db3 reqs2 \<longrightarrow>
               (\<exists>r2. fst (refresh env lib db2 (Some T2) c2 v2 g2) = Inr r2 \<and> status r2 = 200) \<and>
               (\<forall>c v g. refresh env lib db4 (Some T2) c v g =
                          (Inr (respond 401
                                  (ErrorBody ''UNAUTHORIZED''
                                     ''Invalid or expired refresh token'')), db4)))"
proof -
  let ?T2 = "sg_refreshToken g1"
  let ?db1 = "snd (refresh env lib db0 (Some T1) c1 v1 g1)"
  let ?db2 = "runAuth env lib ?db1 reqs1"
  let ?db3 = "snd (refresh env lib ?db2 (Some ?T2) c2 v2 g2)"
  let ?db4 = "runAuth env lib ?db3 reqs2"
  let ?e = "sg_now g1 + REFRESH_EXPIRES_MS"
  from refresh_success_state [OF ids hashes ok fresh]
  obtain secret where T1: "T1 \<noteq> []" and secret: "getSecret env = Inr secret"
    and dead1: "deadHash ?db1 (hashRefreshToken lib T1)"
    and live1: "liveHash ?db1 (hashRefreshToken lib ?T2) ?e"
    and ids1: "uniqueSessionIds ?db1" and hashes1: "uniqueSessionHashes ?db1"
    by blast
  note inv2 = run_invariants [OF run1 ids1 hashes1]
  have dead2: "deadHash ?db2 (hashRefreshToken lib T1)"
    using inv2 [of "hashRefreshToken lib T1"] dead1 by blast
  have a: "refresh env lib ?db2 (Some T1) c v g =
             (Inr (respond 401 (ErrorBody ''UNAUTHORIZED'' ''Invalid or expired refresh token'')),
              ?db2)" for c v g
    using refresh_dead [OF dead2 T1] by (simp add: unauthorized_def)
  have b: "(\<exists>r2. fst (refresh env lib ?db2 (Some ?T2) c2 v2 g2) = Inr r2 \<and> status r2 = 200) \<and>
           (\<forall>c v g. refresh env lib ?db4 (Some ?T2) c v g =
                      (Inr (respond 401
                              (ErrorBody ''UNAUTHORIZED'' ''Invalid or expired refresh token'')),
                       ?db4))"
    if np: "\<forall>r \<in> set reqs1. presentedHash lib r \<noteq> Some (hashRefreshToken lib ?T2)"
      and c2: "c2 \<le> ?e"
      and sid: "sg_sessionId g2 \<notin> set (map rs_id (refreshSessions ?db2))"
      and fresh2: "hashRefreshToken lib (sg_refreshToken g2) \<notin> sessionHashes ?db2"
      and run2: "freshRun env lib ?db3 reqs2"
  proof -
    have ids2: "uniqueSessionIds ?db2" and hashes2: "uniqueSessionHashes ?db2"
      using inv2 by blast+
    have live2: "liveHash ?db2 (hashRefreshToken lib ?T2) ?e"
      using inv2 [of _ "hashRefreshToken lib ?T2" ?e] np live1 by blast
    from refresh_liveHash [OF hashes2 secret sid nonempty live2 c2, of v2]
    obtain r2 where r2: "fst (refresh env lib ?db2 (Some ?T2) c2 v2 g2) = Inr r2"
      "status r2 = 200" by blast
    from refresh_success_state [OF ids2 hashes2 r2 fresh2]
    have dead3: "deadHash ?db3 (hashRefreshToken lib ?T2)"
      and ids3: "uniqueSessionIds ?db3" and hashes3: "uniqueSessionHashes ?db3"
      by blast+
    have dead4: "deadHash ?db4 (hashRefreshToken lib ?T2)"
      using run_invariants [OF run2 ids3 hashes3, of "hashRefreshToken lib ?T2"] dead3 by blast
    have "refresh env lib ?db4 (Some ?T2) c v g =
            (Inr (respond 401 (ErrorBody ''UNAUTHORIZED'' ''Invalid or expired refresh token'')),
             ?db4)" for c v g
      using refresh_dead [OF dead4 nonempty] by (simp add: unauthorized_def)
    with r2 show ?thesis by blast
  qed
  from dead1 live1 a b show ?thesis
    unfolding Let_def by blast
qed

lemma demo_sessions:
  "uniqueSessionIds demoDb" "uniqueSessionHashes demoDb"
  "sessionHashes demoDb = {''h:T1''}"
  "getSecret demoEnv = Inr ''0123456789abcdef''"
  "hashRefreshToken demoLib tok = ''h:'' @ tok"
  by (simp_all add: uniqueSessionIds_def uniqueSessionHashes_def sessionHashes_def demoDb_def
      getSecret_def demoEnv_def hashRefreshToken_def demoLib_def)

lemma demo_live: "presentsLiveToken demoLib demoDb (Some ''T1'') 100"
  by (simp add: presentsLiveToken_def liveSession_def demo_sessions demoDb_def)

lemma demo_rotation:
  "refresh demoEnv demoLib demoDb (Some ''T1'') 100 101 demoGen1 =
     (Inr \<lparr>status = 200, body = UserBody ''u_alice'',
           cookies = [(''access_token'', ''jwt:u_alice''), (''refresh_token'', ''T2'')]\<rparr>,
      demoDb\<lparr>refreshSessions :=
        [\<lparr>rs_id = ''s1'', rs_userId = ''u_alice'', rs_refreshTokenHash = ''h:T1'',
          rs_expiresAt = 5000, rs_revokedAt = Some 101\<rparr>,
         \<lparr>rs_id = ''s2'', rs_userId = ''u_alice'', rs_refreshTokenHash = ''h:T2'',
          rs_expiresAt = 604800102, rs_revokedAt = None\<rparr>]\<rparr>)"
proof -
  let ?s = "\<lparr>rs_id = ''s1'', rs_userId = ''u_alice'', rs_refreshTokenHash = ''h:T1'',
            rs_expiresAt = 5000, rs_revokedAt = None\<rparr>"
  have sid: "sg_sessionId demoGen1 \<notin> set (map rs_id (refreshSessions demoDb))"
    by (simp add: demoGen1_def demoDb_def)
  have s: "?s \<in> set (refreshSessions demoDb)"
    "rs_refreshTokenHash ?s = hashRefreshToken demoLib ''T1''" "liveSession 100 ?s"
    by (simp_all add: demoDb_def demo_sessions liveSession_def)
  have tok: "''T1'' \<noteq> []" by simp
  show ?thesis
    unfolding refresh_live [OF demo_sessions(2) demo_sessions(4) sid tok s, of 101]
    by (simp add: demoGen1_def demo_sessions REFRESH_EXPIRES_MS_def ACCESS_TOKEN_TTL_SEC_def)
      (simp add: demoLib_def demoDb_def)
qed

theorem refresh_iff_live_session_witness:
  "\<not> presentsLiveToken demoLib demoDb (Some ''T1'') 6000 \<and>
   (\<exists>msg. refresh demoEnv demoLib demoDb (Some ''T1'') 6000 6001 demoGen1 =
            (Inr (respond 401 (ErrorBody ''UNAUTHORIZED'' msg)), demoDb)) \<and>
   uniqueSessionHashes demoDb \<and> getSecret demoEnv = Inr ''0123456789abcdef'' \<and>
   sg_sessionId demoGen1 \<notin> set (map rs_id (refreshSessions demoDb)) \<and>
   presentsLiveToken demoLib demoDb (Some ''T1'') 100 \<and>
   (\<exists>r. fst (refresh demoEnv demoLib demoDb (Some ''T1'') 100 101 demoGen1) = Inr r \<and>
        status r = 200)"
proof -
  have exp: "\<not> presentsLiveToken demoLib demoDb (Some ''T1'') 6000"
    by (simp add: presentsLiveToken_def liveSession_def demo_sessions demoDb_def)
  have sid: "sg_sessionId demoGen1 \<notin> set (map rs_id (refreshSessions demoDb))"
    by (simp add: demoGen1_def demoDb_def)
  note t1 = refresh_iff_live_session
    [of demoLib demoDb "Some ''T1''" 6000 demoEnv 6001 demoGen1 "''0123456789abcdef''"]
  note t2 = refresh_iff_live_session
    [of demoLib demoDb "Some ''T1''" 100 demoEnv 101 demoGen1 "''0123456789abcdef''"]
  from t1 t2 exp sid demo_sessions(2,4) demo_live show ?thesis by blast
qed

lemma demo_rotated_facts:
  "sg_sessionId demoGen2 \<notin>
     set (map rs_id (refreshSessions
       (snd (refresh demoEnv demoLib demoDb (Some ''T1'') 100 101 demoGen1))))"
  "hashRefreshToken demoLib (sg_refreshToken demoGen2) \<notin>
     sessionHashes (snd (refresh demoEnv demoLib demoDb (Some ''T1'') 100 101 demoGen1))"
  by (simp_all add: demo_rotation demoGen2_def demo_sessions sessionHashes_def)

theorem refresh_rotation_witness:
  "uniqueSessionIds demoDb \<and> uniqueSessionHashes demoDb \<and>
   (\<exists>r1. fst (refresh demoEnv demoLib demoDb (Some ''T1'') 100 101 demoGen1) = Inr r1 \<and>
         status r1 = 200) \<and>
   hashRefreshToken demoLib (sg_refreshToken demoGen1) \<notin> sessionHashes demoDb \<and>
   sg_refreshToken demoGen1 \<noteq> [] \<and>
   freshRun demoEnv demoLib (snd (refresh demoEnv demoLib demoDb (Some ''T1'') 100 101 demoGen1)) [] \<and>
   (let db1 = snd (refresh demoEnv demoLib demoDb (Some ''T1'') 100 101 demoGen1);
        db3 = snd (refresh demoEnv demoLib db1 (Some ''T2'') 200 201 demoGen2)
    in refresh demoEnv demoLib db1 (Some ''T1'') 300 301 demoGen2 =
         (Inr (respond 401 (ErrorBody ''UNAUTHORIZED'' ''Invalid or expired refresh token'')),
          db1) \<and>
       (\<exists>r2. fst (refresh demoEnv demoLib db1 (Some ''T2'') 200 201 demoGen2) = Inr r2 \<and>
             status r2 = 200) \<and>
       refresh demoEnv demoLib db3 (Some ''T2'') 300 301 demoGen2 =
         (Inr (respond 401 (ErrorBody ''UNAUTHORIZED'' ''Invalid or expired refresh token'')),
          db3))"
proof -
  let ?r1 = "\<lparr>status = 200, body = UserBody ''u_alice'',
              cookies = [(''access_token'', ''jwt:u_alice''), (''refresh_token'', ''T2'')]\<rparr>"
  have ok: "fst (refresh demoEnv demoLib demoDb (Some ''T1'') 100 101 demoGen1) = Inr ?r1"
    "status ?r1 = 200"
    by (simp_all add: demo_rotation)
  have fresh: "hashRefreshToken demoLib (sg_refreshToken demoGen1) \<notin> sessionHashes demoDb"
    by (simp add: demo_sessions demoGen1_def)
  have ne: "sg_refreshToken demoGen1 \<noteq> []"
    by (simp add: demoGen1_def)
  have run: "freshRun demoEnv demoLib
               (snd (refresh demoEnv demoLib demoDb (Some ''T1'') 100 101 demoGen1)) []"
    by simp
  have t2: "sg_refreshToken demoGen1 = ''T2''" "sg_now demoGen1 = 102"
    by (simp_all add: demoGen1_def)
  from refresh_rotation [OF demo_sessions(1,2) ok fresh ne run, of 200 201 demoGen2 "[]"]
    demo_rotated_facts ok fresh ne demo_sessions(1,2)
  show ?thesis
    by (simp add: Let_def t2 REFRESH_EXPIRES_MS_def)
qed

text \<open>
  The claim as written fails: rotated at time 100, T2's session expires at 604800102; the
  first refresh that presents T2, one millisecond later, is answered 401.
\<close>

theorem refresh_rotation_counterexample:
  "fst (refresh demoEnv demoLib demoDb (Some ''T1'') 100 101 demoGen1) =
     Inr \<lparr>status = 200, body = UserBody ''u_alice'',
          cookies = [(''access_token'', ''jwt:u_alice''), (''refresh_token'', ''T2'')]\<rparr> \<and>
   fst (refresh demoEnv demoLib
          (snd (refresh demoEnv demoLib demoDb (Some ''T1'') 100 101 demoGen1))
          (Some ''T2'') 604800103 604800104 demoGen2) =
     Inr (respond 401 (ErrorBody ''UNAUTHORIZED'' ''Invalid or expired refresh token''))"
  by (simp add: demo_rotation) (simp add: refresh_def demo_sessions unauthorized_def)
subsection \<open>The calendar\<close>

text \<open>
  The year found by \<open>yearFromDay\<close> is the one the standard asks for: its first day is
  not after the given day, and the first day of the next year is.
\<close>

lemma div_bounds:
  fixes x k :: int
  assumes "0 < k"
  shows "k * (x div k) \<le> x" "x < k * (x div k) + k"
proof -
  have "x = k * (x div k) + x mod k" by simp
  moreover have "0 \<le> x mod k" "x mod k < k"
    using assms by simp_all
  ultimately show "k * (x div k) \<le> x" "x < k * (x div k) + k" by linarith+
qed

lemma dayFromYear_lower: "146097 * (y - 1970) - 506 \<le> 400 * dayFromYear y"
proof -
  define a where "a = (y - 1969) div 4"
  define b where "b = (y - 1901) div 100"
  define c where "c = (y - 1601) div 400"
  have "y - 1969 < 4 * a + 4" "100 * b \<le> y - 1901" "y - 1601 < 400 * c + 400"
    unfolding a_def b_def c_def by (simp_all add: div_bounds)
  then have "y - 1972 \<le> 4 * a" "100 * b \<le> y - 1901" "y - 2000 \<le> 400 * c"
    by linarith+
  then show ?thesis
    unfolding dayFromYear_def a_def [symmetric] b_def [symmetric] c_def [symmetric]
    by simp
qed

lemma dayFromYear_upper: "400 * dayFromYear y \<le> 146097 * (y - 1970) + 589"
proof -
  define a where "a = (y - 1969) div 4"
  define b where "b = (y - 1901) div 100"
  define c where "c = (y - 1601) div 400"
  have "4 * a \<le> y - 1969" "y - 1901 < 100 * b + 100" "400 * c \<le> y - 1601"
    unfolding a_def b_def c_def by (simp_all add: div_bounds)
  then have "4 * a \<le> y - 1969" "y - 2000 \<le> 100 * b" "400 * c \<le> y - 1601"
    by linarith+
  then show ?thesis
    unfolding dayFromYear_def a_def [symmetric] b_def [symmetric] c_def [symmetric]
    by simp
qed

lemma yearFromDay_bounds:
  "dayFromYear (yearFromDay day) \<le> day \<and> day < dayFromYear (yearFromDay day + 1)"
proof -
  define n where "n = (400 * day) div 146097"
  have n: "146097 * n \<le> 400 * day" "400 * day < 146097 * n + 146097"
    unfolding n_def by (simp_all add: div_bounds)
  have lo: "dayFromYear (1970 + n - 1) \<le> day"
    using dayFromYear_upper [of "1970 + n - 1"] n by simp
  have hi: "day < dayFromYear (1970 + n + 2)"
    using dayFromYear_lower [of "1970 + n + 2"] n by simp
  show ?thesis
    unfolding yearFromDay_def n_def [symmetric] Let_def
    using lo hi by (auto simp: algebra_simps)
qed

lemma div_step:
  fixes x k :: int
  assumes "0 < k"
  shows "(x + 1) div k = x div k + (if k dvd x + 1 then 1 else 0)"
proof (cases "k dvd x + 1")
  case True
  then obtain q where q: "x + 1 = k * q" by (auto simp: dvd_def)
  then have "x = k * (q - 1) + (k - 1)" by (simp add: algebra_simps)
  with assms have "x div k = q - 1"
    by (intro int_div_pos_eq [of x k "q - 1" "k - 1"]) simp_all
  moreover from q assms have "(x + 1) div k = q" by simp
  ultimately show ?thesis using True by simp
next
  case False
  define r where "r = (x + 1) mod k"
  define q where "q = (x + 1) div k"
  have "r \<noteq> 0" using False unfolding r_def by (simp add: mod_eq_0_iff_dvd)
  moreover have "0 \<le> r" "r < k" using assms unfolding r_def by simp_all
  ultimately have r: "0 < r" "r < k" by simp_all
  have "x + 1 = k * q + r" unfolding q_def r_def by simp
  then have "x = k * q + (r - 1)" by simp
  with r have "x div k = q"
    by (intro int_div_pos_eq [of x k q "r - 1"]) simp_all
  with False show ?thesis by (simp add: q_def)
qed

lemma daysInYear: "dayFromYear (y + 1) - dayFromYear y = (if inLeapYear y then 366 else 365)"
proof -
  have d4: "(4::int) dvd y - 1969 + 1 \<longleftrightarrow> 4 dvd y"
    using dvd_diff_right_iff [of 4 1968 y] by (simp add: dvd_diff_commute)
  have d100: "(100::int) dvd y - 1901 + 1 \<longleftrightarrow> 100 dvd y"
    using dvd_diff_right_iff [of 100 1900 y] by (simp add: dvd_diff_commute)
  have d400: "(400::int) dvd y - 1601 + 1 \<longleftrightarrow> 400 dvd y"
    using dvd_diff_right_iff [of 400 1600 y] by (simp add: dvd_diff_commute)
  have "(400::int) = 100 * 4" "(100::int) = 4 * 25" by simp_all
  then have d: "(100::int) dvd 400" "(4::int) dvd 100" by (metis dvd_triv_left)+
  have i1: "(400::int) dvd y \<Longrightarrow> 100 dvd y" and i2: "(100::int) dvd y \<Longrightarrow> 4 dvd y"
    using d by (blast intro: dvd_trans)+
  have s: "y + 1 - 1969 = (y - 1969) + 1" "y + 1 - 1901 = (y - 1901) + 1"
    "y + 1 - 1601 = (y - 1601) + 1" by simp_all
  have "dayFromYear (y + 1) - dayFromYear y =
      365 + (if 4 dvd y then 1 else 0) - (if 100 dvd y then 1 else 0) + (if 400 dvd y then 1 else 0)"
    unfolding dayFromYear_def s div_step [of 4, simplified] div_step [of 100, simplified]
      div_step [of 400, simplified] d4 d100 d400
    by simp
  then show ?thesis
    using i1 i2 by (auto simp: inLeapYear_def mod_eq_0_iff_dvd)
qed


lemma dayFromYear_mono:
  assumes "a \<le> b"
  shows "dayFromYear a \<le> dayFromYear b"
  using assms
proof (induct b rule: int_ge_induct)
  case base
  show ?case by simp
next
  case (step i)
  from daysInYear [of i] have "dayFromYear i \<le> dayFromYear (i + 1)"
    by (simp split: if_splits)
  with step show ?case by simp
qed

lemma yearFromDay_largest:
  assumes "dayFromYear y \<le> day"
  shows "y \<le> yearFromDay day"
proof (rule ccontr)
  assume "\<not> y \<le> yearFromDay day"
  then have "yearFromDay day + 1 \<le> y" by simp
  from dayFromYear_mono [OF this] assms yearFromDay_bounds [of day]
  show False by simp
qed

subsection \<open>Months\<close>

lemma monthStart_simps:
  "monthStart leap 1 = 0"
  "monthStart leap 2 = 31"
  "monthStart leap 3 = (if leap then 60 else 59)"
  "monthStart leap 4 = (if leap then 91 else 90)"
  "monthStart leap 5 = (if leap then 121 else 120)"
  "monthStart leap 6 = (if leap then 152 else 151)"
  "monthStart leap 7 = (if leap then 182 else 181)"
  "monthStart leap 8 = (if leap then 213 else 212)"
  "monthStart leap 9 = (if leap then 244 else 243)"
  "monthStart leap 10 = (if leap then 274 else 273)"
  "monthStart leap 11 = (if leap then 305 else 304)"
  "monthStart leap 12 = (if leap then 335 else 334)"
  "monthStart leap 13 = (if leap then 366 else 365)"
  "monthStart leap (Suc 0) = 0"
  "monthStart leap (Suc (Suc 0)) = 31"
  by (simp_all add: monthStart_def)

lemma monthFromDay_cases:
  assumes "0 \<le> n" "n < (if leap then 366 else 365)"
  shows "monthFromDay leap n \<in> {1, 2, 3, 4, 5, 6, 7, 8, 9, 10, 11, 12}"
  unfolding monthFromDay_def by simp

lemma monthFromDay_bounds:
  assumes "0 \<le> n" "n < (if leap then 366 else 365)"
  shows "monthStart leap (monthFromDay leap n) \<le> n \<and>
         n < monthStart leap (monthFromDay leap n + 1)"
  using assms unfolding monthFromDay_def
  by (simp add: monthStart_simps split: if_splits)

lemma civilFromDays_fields:
  obtains y m d where "civilFromDays day = (y, m, d)"
    "1 \<le> m" "m \<le> 12" "1 \<le> d" "d \<le> daysInMonth y m" "makeDay y m d = day"
    "dayFromYear y \<le> day" "day < dayFromYear (y + 1)"
proof -
  define y where "y = yearFromDay day"
  define n where "n = day - dayFromYear y"
  define m where "m = monthFromDay (inLeapYear y) n"
  define d where "d = nat (n - monthStart (inLeapYear y) m + 1)"
  have yb: "dayFromYear y \<le> day" "day < dayFromYear (y + 1)"
    using yearFromDay_bounds [of day] by (simp_all add: y_def)
  then have n: "0 \<le> n" "n < (if inLeapYear y then 366 else 365)"
    using daysInYear [of y] unfolding n_def by (simp_all split: if_splits)
  from monthFromDay_cases [OF n] have m: "1 \<le> m" "m \<le> 12"
    unfolding m_def by auto
  from monthFromDay_bounds [OF n]
  have mb: "monthStart (inLeapYear y) m \<le> n" "n < monthStart (inLeapYear y) (m + 1)"
    unfolding m_def by simp_all
  then have d: "1 \<le> d" "d \<le> daysInMonth y m"
    unfolding d_def daysInMonth_def by simp_all
  have mk: "makeDay y m d = day"
    using mb unfolding makeDay_def d_def n_def by simp
  have c: "civilFromDays day = (y, m, d)"
    unfolding civilFromDays_def Let_def y_def [symmetric] n_def [symmetric] m_def [symmetric]
      d_def [symmetric] by simp
  from that [OF c m d mk yb] show thesis .
qed


subsection \<open>Digits\<close>

lemma digitChar_props:
  "isDigit (digitChar n) \<and> (of_char (digitChar n) :: nat) - 48 = n mod 10"
proof -
  have "n mod 10 < 10" by simp
  then have "n mod 10 = 0 \<or> n mod 10 = 1 \<or> n mod 10 = 2 \<or> n mod 10 = 3 \<or> n mod 10 = 4 \<or>
      n mod 10 = 5 \<or> n mod 10 = 6 \<or> n mod 10 = 7 \<or> n mod 10 = 8 \<or> n mod 10 = 9"
    by arith
  then show ?thesis
    unfolding digitChar_def isDigit_def less_eq_char_def
    by (elim disjE) simp_all
qed

lemma length_pad: "length (pad w n) = w"
  by (induction w arbitrary: n) simp_all

lemma pad_digits: "list_all isDigit (pad w n)"
  by (induction w arbitrary: n) (simp_all add: digitChar_props)

lemma digitsValue_snoc: "digitsValue (xs @ [c]) = 10 * digitsValue xs + (of_char c - 48)"
  by (simp add: digitsValue_def)

lemma digitsValue_pad: "digitsValue (pad w n) = n mod 10 ^ w"
proof (induction w arbitrary: n)
  case 0
  show ?case by (simp add: digitsValue_def)
next
  case (Suc w)
  have "digitsValue (pad (Suc w) n) = 10 * (n div 10 mod 10 ^ w) + n mod 10"
    by (simp add: digitsValue_snoc Suc digitChar_props)
  also have "\<dots> = n mod 10 ^ Suc w"
    by (simp add: mod_mult2_eq)
  finally show ?case .
qed

lemma parseDigits_pad:
  assumes "0 < w" "n < 10 ^ w"
  shows "parseDigits (pad w n) = Some n"
proof -
  from assms(1) have "pad w n \<noteq> []"
    using length_pad [of w n] by auto
  with assms(2) show ?thesis
    by (simp add: parseDigits_def pad_digits digitsValue_pad)
qed

lemma hd_pad_not_sign:
  assumes "0 < w"
  shows "hd (pad w n) \<noteq> CHR ''+'' \<and> hd (pad w n) \<noteq> CHR ''-''"
proof -
  from assms have ne: "pad w n \<noteq> []"
    using length_pad [of w n] by auto
  then have "hd (pad w n) \<in> set (pad w n)" by simp
  with pad_digits [of w n] have "isDigit (hd (pad w n))"
    by (simp add: list_all_iff)
  then show ?thesis
    by (auto simp: isDigit_def less_eq_char_def)
qed

subsection \<open>Time within the day\<close>

lemma makeTime_fields:
  "makeTime (x div 3600000) (x div 60000 mod 60) (x div 1000 mod 60) (x mod 1000) = int x"
proof -
  have a: "x div 3600000 = x div 60000 div 60" "x div 60000 = x div 1000 div 60"
    by (simp_all add: div_mult2_eq [symmetric])
  define h where "h = x div 60000"
  define s where "s = x div 1000"
  have "(h div 60 * 60 + h mod 60) = h" by simp
  moreover have "h = s div 60" unfolding h_def s_def by (rule a(2))
  moreover have "s div 60 * 60 + s mod 60 = s" by simp
  moreover have "s * 1000 + x mod 1000 = x" unfolding s_def by simp
  ultimately have "((x div 3600000 * 60 + h mod 60) * 60 + s mod 60) * 1000 + x mod 1000 = x"
    unfolding a(1) h_def [symmetric] by simp
  then show ?thesis
    unfolding makeTime_def h_def s_def by simp
qed

lemma time_fields_bounds:
  fixes x :: nat
  assumes "x < 86400000"
  shows "x div 3600000 < 24" "x div 60000 mod 60 < 60" "x div 1000 mod 60 < 60"
    "x mod 1000 < 1000"
  using assms by (simp_all add: less_mult_imp_div_less)

subsection \<open>Years of valid time values\<close>

lemma valid_year_range:
  assumes v: "validTimeValue t"
    and lo: "dayFromYear y \<le> t div msPerDay" and hi: "t div msPerDay < dayFromYear (y + 1)"
  shows "- 271822 \<le> y \<and> y \<le> 275760"
proof -
  define day where "day = t div msPerDay"
  have "msPerDay * day \<le> t" "t < msPerDay * day + msPerDay"
    unfolding day_def by (simp_all add: div_bounds msPerDay_def)
  with v have d: "- 100000001 \<le> day" "day \<le> 100000000"
    unfolding validTimeValue_def maxTimeValue_def msPerDay_def by simp_all
  from dayFromYear_lower [of y] lo d have "y \<le> 275760"
    unfolding day_def [symmetric] by simp
  moreover from dayFromYear_upper [of "y + 1"] hi d have "- 271822 \<le> y"
    unfolding day_def [symmetric] by simp
  ultimately show ?thesis by simp
qed


subsection \<open>Reading the ISO form back\<close>

lemma iso_tail:
  assumes "length A = 2" "length B = 2" "length C = 2" "length D = 2" "length E = 2"
    "length F = 3"
  defines "r \<equiv> ''-'' @ A @ ''-'' @ B @ ''T'' @ C @ '':'' @ D @ '':'' @ E @ ''.'' @ F @ ''Z''"
  shows "length r = 20" "r ! 0 = CHR ''-''" "r ! 3 = CHR ''-''" "r ! 6 = CHR ''T''"
    "r ! 9 = CHR '':''" "r ! 12 = CHR '':''" "r ! 15 = CHR ''.''" "r ! 19 = CHR ''Z''"
    "take 2 (drop 1 r) = A" "take 2 (drop 4 r) = B" "take 2 (drop 7 r) = C"
    "take 2 (drop 10 r) = D" "take 2 (drop 13 r) = E" "take 3 (drop 16 r) = F"
proof -
  obtain a1 a2 where A: "A = [a1, a2]"
    using assms(1) by (auto simp: numeral_2_eq_2 length_Suc_conv)
  obtain b1 b2 where B: "B = [b1, b2]"
    using assms(2) by (auto simp: numeral_2_eq_2 length_Suc_conv)
  obtain c1 c2 where C: "C = [c1, c2]"
    using assms(3) by (auto simp: numeral_2_eq_2 length_Suc_conv)
  obtain d1 d2 where D: "D = [d1, d2]"
    using assms(4) by (auto simp: numeral_2_eq_2 length_Suc_conv)
  obtain e1 e2 where E: "E = [e1, e2]"
    using assms(5) by (auto simp: numeral_2_eq_2 length_Suc_conv)
  obtain f1 f2 f3 where F: "F = [f1, f2, f3]"
    using assms(6) by (auto simp: numeral_3_eq_3 length_Suc_conv)
  show "length r = 20" "r ! 0 = CHR ''-''" "r ! 3 = CHR ''-''" "r ! 6 = CHR ''T''"
    "r ! 9 = CHR '':''" "r ! 12 = CHR '':''" "r ! 15 = CHR ''.''" "r ! 19 = CHR ''Z''"
    "take 2 (drop 1 r) = A" "take 2 (drop 4 r) = B" "take 2 (drop 7 r) = C"
    "take 2 (drop 10 r) = D" "take 2 (drop 13 r) = E" "take 3 (drop 16 r) = F"
    unfolding r_def A B C D E F by simp_all
qed

lemma parseIsoDateTime_fields:
  assumes y: "\<bar>y\<bar> < 1000000"
    and f: "mo < 100" "d < 100" "hh < 100" "mi < 100" "ss < 100" "ms < 1000"
  shows "parseIsoDateTime
           (yearString y @ ''-'' @ pad 2 mo @ ''-'' @ pad 2 d @ ''T'' @ pad 2 hh @ '':'' @
            pad 2 mi @ '':'' @ pad 2 ss @ ''.'' @ pad 3 ms @ ''Z'') =
         parseDateFields (y < 0) (nat \<bar>y\<bar>) mo d hh mi ss ms"
proof -
  define r where "r = ''-'' @ pad 2 mo @ ''-'' @ pad 2 d @ ''T'' @ pad 2 hh @ '':'' @
            pad 2 mi @ '':'' @ pad 2 ss @ ''.'' @ pad 3 ms @ ''Z''"
  note t = iso_tail [of "pad 2 mo" "pad 2 d" "pad 2 hh" "pad 2 mi" "pad 2 ss" "pad 3 ms",
      folded r_def, simplified length_pad, simplified]
  have p: "parseDigits (pad 2 mo) = Some mo" "parseDigits (pad 2 d) = Some d"
    "parseDigits (pad 2 hh) = Some hh" "parseDigits (pad 2 mi) = Some mi"
    "parseDigits (pad 2 ss) = Some ss" "parseDigits (pad 3 ms) = Some ms"
    using f by (simp_all add: parseDigits_pad)
  show ?thesis
  proof (cases "0 \<le> y \<and> y \<le> 9999")
    case True
    define ys where "ys = pad 4 (nat y)"
    have l: "length ys = 4" by (simp add: ys_def length_pad)
    then have ne: "ys \<noteq> []" by auto
    have h: "hd ys \<noteq> CHR ''+''" "hd ys \<noteq> CHR ''-''"
      using hd_pad_not_sign [of 4 "nat y"] by (simp_all add: ys_def)
    from True have "nat y < 10000" by linarith
    then have "nat y < 10 ^ 4" by simp
    then have "parseDigits (pad 4 (nat y)) = Some (nat y)"
      by (intro parseDigits_pad) simp_all
    with True have pd: "parseDigits ys = Some (nat \<bar>y\<bar>)"
      by (simp add: ys_def)
    have ysr: "yearString y = ys" using True by (simp add: yearString_def ys_def)
    have e: "(hd (ys @ r) = CHR ''+'') = False" "(hd (ys @ r) = CHR ''-'') = False"
      "take 4 (ys @ r) = ys" "drop 4 (ys @ r) = r"
      using ne h l by simp_all
    have "parseIsoDateTime (ys @ r) = parseDateFields False (nat \<bar>y\<bar>) mo d hh mi ss ms"
      unfolding parseIsoDateTime_def Let_def e
      by (simp add: t p pd l)
    with True show ?thesis
      unfolding ysr r_def by simp
  next
    case False
    define ys where "ys = pad 6 (nat \<bar>y\<bar>)"
    define sg where "sg = (if y < 0 then CHR ''-'' else CHR ''+'')"
    have l: "length ys = 6" by (simp add: ys_def length_pad)
    from y have "nat \<bar>y\<bar> < 1000000" by linarith
    then have "nat \<bar>y\<bar> < 10 ^ 6" by simp
    then have pd: "parseDigits ys = Some (nat \<bar>y\<bar>)"
      unfolding ys_def by (intro parseDigits_pad) simp_all
    have ysr: "yearString y = sg # ys"
      using False by (simp add: yearString_def ys_def sg_def)
    have e: "hd ((sg # ys) @ r) = sg" "take 6 (tl ((sg # ys) @ r)) = ys"
      "drop 7 ((sg # ys) @ r) = r" "(sg # ys) @ r \<noteq> []"
      using l by simp_all
    have sg: "(sg = CHR ''+'' \<or> sg = CHR ''-'') = True" "(sg = CHR ''-'') = (y < 0)"
      "(sg = CHR ''+'' \<or> y < 0) = True"
      by (simp_all add: sg_def)
    have "parseIsoDateTime ((sg # ys) @ r) =
        parseDateFields (y < 0) (nat \<bar>y\<bar>) mo d hh mi ss ms"
      unfolding parseIsoDateTime_def Let_def e sg
      by (simp add: t p pd l)
    then show ?thesis
      unfolding ysr r_def by simp
  qed
qed

lemma parseIsoDateTime_toISOString:
  assumes v: "validTimeValue t"
  shows "\<exists>s. toISOString t = Inr s \<and> parseIsoDateTime s = Some t"
proof -
  obtain y m d where c: "civilFromDays (t div msPerDay) = (y, m, d)"
    and m: "1 \<le> m" "m \<le> 12" and d: "1 \<le> d" "d \<le> daysInMonth y m"
    and mk: "makeDay y m d = t div msPerDay"
    and yb: "dayFromYear y \<le> t div msPerDay" "t div msPerDay < dayFromYear (y + 1)"
    by (rule civilFromDays_fields)
  define x where "x = nat (t mod msPerDay)"
  have x: "int x = t mod msPerDay" "x < 86400000"
    unfolding x_def msPerDay_def by simp_all
  note tb = time_fields_bounds [OF x(2)]
  from valid_year_range [OF v yb] have yr: "\<bar>y\<bar> < 1000000" by linarith
  have dm: "daysInMonth y m \<le> 31"
    using m unfolding daysInMonth_def
    by (cases "inLeapYear y")
      (auto simp: monthStart_def nth_Cons' numeral_eq_Suc split: if_splits)
  define s where "s = yearString y @ ''-'' @ pad 2 m @ ''-'' @ pad 2 d @ ''T'' @
      pad 2 (x div 3600000) @ '':'' @ pad 2 (x div 60000 mod 60) @ '':'' @
      pad 2 (x div 1000 mod 60) @ ''.'' @ pad 3 (x mod 1000) @ ''Z''"
  have iso: "toISOString t = Inr s"
    unfolding toISOString_def Let_def c x_def [symmetric] s_def using v by simp
  have "parseIsoDateTime s =
      parseDateFields (y < 0) (nat \<bar>y\<bar>) m d (x div 3600000) (x div 60000 mod 60)
        (x div 1000 mod 60) (x mod 1000)"
    unfolding s_def using m d dm tb
    by (intro parseIsoDateTime_fields [OF yr]) simp_all
  also have "\<dots> = Some t"
  proof -
    have y': "(if y < 0 then - int (nat \<bar>y\<bar>) else int (nat \<bar>y\<bar>)) = y" by simp
    have t': "makeDay y m d * msPerDay +
        makeTime (x div 3600000) (x div 60000 mod 60) (x div 1000 mod 60) (x mod 1000) = t"
      unfolding makeTime_fields mk x(1) by simp
    show ?thesis
      unfolding parseDateFields_def Let_def y' t'
      using m d tb v by auto
  qed
  finally show ?thesis using iso by blast
qed


subsection \<open>Cursors\<close>

lemma digitChar_digit: "digitChar d \<in> set ''0123456789''"
proof -
  have "d mod 10 < length ''0123456789''" by simp
  then show ?thesis unfolding digitChar_def by (rule nth_mem)
qed

lemma pad_charset: "set (pad w n) \<subseteq> set ''0123456789''"
proof (induction w arbitrary: n)
  case 0
  then show ?case by simp
next
  case (Suc w)
  from Suc.IH [of "n div 10"] digitChar_digit [of n] show ?case by simp
qed

lemma bar_not_in_pad: "CHR ''|'' \<notin> set (pad w n)"
  using pad_charset [of w n] by auto

lemma bar_not_in_yearString: "CHR ''|'' \<notin> set (yearString y)"
  by (simp add: yearString_def bar_not_in_pad)

lemma bar_not_in_toISOString: "toISOString t = Inr s \<Longrightarrow> CHR ''|'' \<notin> set s"
  by (auto simp: toISOString_def Let_def bar_not_in_pad bar_not_in_yearString split: if_splits)

lemma split_on_no_sep: "sep \<notin> set s \<Longrightarrow> split_on sep s = [s]"
  by (induction s) auto

lemma split_on_first:
  "sep \<notin> set a \<Longrightarrow> split_on sep (a @ sep # b) = a # split_on sep b"
  by (induction a) auto

lemma split_on_not_Nil: "split_on sep s \<noteq> []"
  by (induction s) (auto split: list.splits)

lemma split_on_single: "split_on sep s = [a] \<Longrightarrow> s = a \<and> sep \<notin> set a"
proof (induction s arbitrary: a)
  case Nil
  then show ?case by simp
next
  case (Cons c cs)
  show ?case
  proof (cases "c = sep")
    case True
    with Cons.prems show ?thesis by (simp add: split_on_not_Nil)
  next
    case False
    with Cons.prems obtain p where p: "split_on sep cs = [p]" "a = c # p"
      by (auto split: list.splits simp: split_on_not_Nil)
    from Cons.IH [OF p(1)] p(2) False show ?thesis by simp
  qed
qed

lemma split_on_two:
  "split_on sep s = [a, b] \<longleftrightarrow> s = a @ sep # b \<and> sep \<notin> set a \<and> sep \<notin> set b"
proof
  assume "s = a @ sep # b \<and> sep \<notin> set a \<and> sep \<notin> set b"
  then show "split_on sep s = [a, b]"
    by (simp add: split_on_first split_on_no_sep)
next
  assume "split_on sep s = [a, b]"
  then show "s = a @ sep # b \<and> sep \<notin> set a \<and> sep \<notin> set b"
  proof (induction s arbitrary: a)
    case Nil
    then show ?case by simp
  next
    case (Cons c cs)
    show ?case
    proof (cases "c = sep")
      case True
      with Cons.prems have "a = []" "split_on sep cs = [b]" by simp_all
      with split_on_single [of sep cs b] True show ?thesis by simp
    next
      case False
      with Cons.prems obtain p where p: "split_on sep cs = [p, b]" "a = c # p"
        by (auto split: list.splits simp: split_on_not_Nil)
      from Cons.IH [OF p(1)] p(2) False show ?thesis by simp
    qed
  qed
qed

text \<open>The cursor that the parser accepts, read off the string.\<close>

lemma parseCursor_Some_iff:
  "parseCursor dateOf (Some c) = Some (date, cid) \<longleftrightarrow>
     (\<exists>dateStr. c = dateStr @ ''|'' @ cid \<and> CHR ''|'' \<notin> set dateStr \<and> CHR ''|'' \<notin> set cid \<and>
                cid \<noteq> [] \<and> dateOf dateStr = Some date)"
proof
  assume "\<exists>dateStr. c = dateStr @ ''|'' @ cid \<and> CHR ''|'' \<notin> set dateStr \<and> CHR ''|'' \<notin> set cid \<and>
                cid \<noteq> [] \<and> dateOf dateStr = Some date"
  then obtain dateStr where d: "c = dateStr @ CHR ''|'' # cid" "CHR ''|'' \<notin> set dateStr"
    "CHR ''|'' \<notin> set cid" "cid \<noteq> []" "dateOf dateStr = Some date"
    by auto
  then have "split_on CHR ''|'' c = [dateStr, cid]"
    by (simp add: split_on_two)
  with d show "parseCursor dateOf (Some c) = Some (date, cid)"
    by (simp add: parseCursor_def)
next
  assume p: "parseCursor dateOf (Some c) = Some (date, cid)"
  then obtain dateStr cid' where s: "split_on CHR ''|'' c = [dateStr, cid']"
    by (auto simp: parseCursor_def split: if_splits list.splits)
  with p have "dateOf dateStr = Some date" "cid' = cid" "cid \<noteq> []"
    by (auto simp: parseCursor_def split: if_splits option.splits)
  with s split_on_two [of "CHR ''|''" c dateStr cid]
  show "\<exists>dateStr. c = dateStr @ ''|'' @ cid \<and> CHR ''|'' \<notin> set dateStr \<and> CHR ''|'' \<notin> set cid \<and>
                cid \<noteq> [] \<and> dateOf dateStr = Some date"
    by auto
qed

lemma encodeCursor_invalid: "\<not> validTimeValue d \<Longrightarrow> encodeCursor d tid = Inl RangeError"
  by (simp add: encodeCursor_def toISOString_def)

lemma encodeCursor_parse:
  assumes "readsIsoDateTime dateOf" and "validTimeValue d" and "tid \<noteq> []"
    and "CHR ''|'' \<notin> set tid"
  shows "\<exists>c. encodeCursor d tid = Inr c \<and> parseCursor dateOf (Some c) = Some (d, tid)"
proof -
  from parseIsoDateTime_toISOString [OF assms(2)]
  obtain s where s: "toISOString d = Inr s" "parseIsoDateTime s = Some d" by blast
  from assms(1) s(2) have "dateOf s = Some d"
    unfolding readsIsoDateTime_def by blast
  with bar_not_in_toISOString [OF s(1)] assms(3,4)
  have "parseCursor dateOf (Some (s @ ''|'' @ tid)) = Some (d, tid)"
    unfolding parseCursor_Some_iff by blast
  with s(1) show ?thesis by (simp add: encodeCursor_def)
qed

text \<open>
  Claim C10. For a date \<open>d\<close> and a non-empty id without the character \<open>|\<close>, the cursor
  is encoded without an exception, and parsing it gives back the same time value, to the
  millisecond, and the same id. A date is a valid time value in integer milliseconds; the
  only other thing a \<^verbatim>\<open>Date\<close> can hold is NaN, the invalid date, and for it the
  encoding throws. The date parser is any parser that reads the Date Time String Format as
  the standard fixes it; the ISO form printed for \<open>d\<close> is read back by that format's own
  parser, field by field.
\<close>

theorem cursor_roundtrip:
  assumes "readsIsoDateTime dateOf" and "tid \<noteq> []" and "CHR ''|'' \<notin> set tid"
  shows "(validTimeValue d \<longrightarrow>
            (\<exists>c isoDate. toISOString d = Inr isoDate \<and> parseIsoDateTime isoDate = Some d \<and>
               encodeCursor d tid = Inr c \<and> c = isoDate @ ''|'' @ tid \<and>
               parseCursor dateOf (Some c) = Some (d, tid))) \<and>
         (\<not> validTimeValue d \<longrightarrow> encodeCursor d tid = Inl RangeError)"
proof (intro conjI impI)
  assume v: "validTimeValue d"
  from parseIsoDateTime_toISOString [OF v]
  obtain s where s: "toISOString d = Inr s" "parseIsoDateTime s = Some d" by blast
  from encodeCursor_parse [OF assms(1) v assms(2,3)]
  obtain c where c: "encodeCursor d tid = Inr c" "parseCursor dateOf (Some c) = Some (d, tid)"
    by blast
  from c(1) s(1) have "c = s @ ''|'' @ tid" by (simp add: encodeCursor_def)
  with s c show "\<exists>c isoDate. toISOString d = Inr isoDate \<and> parseIsoDateTime isoDate = Some d \<and>
               encodeCursor d tid = Inr c \<and> c = isoDate @ ''|'' @ tid \<and>
               parseCursor dateOf (Some c) = Some (d, tid)"
    by blast
next
  assume "\<not> validTimeValue d"
  then show "encodeCursor d tid = Inl RangeError" by (rule encodeCursor_invalid)
qed

lemma pad_numeral: "pad (numeral k) n = pad (pred_numeral k) (n div 10) @ [digitChar n]"
proof -
  have "pad (numeral k) n = pad (Suc (pred_numeral k)) n"
    by (simp only: numeral_eq_Suc)
  then show ?thesis by (simp only: pad.simps)
qed

lemma civilFromDays_epoch: "civilFromDays 0 = (1970, 1, 1)"
  unfolding civilFromDays_def yearFromDay_def dayFromYear_def monthFromDay_def inLeapYear_def
    Let_def
  by (simp add: monthStart_simps)

lemma toISOString_2000: "toISOString 2000 = Inr ''1970-01-01T00:00:02.000Z''"
  unfolding toISOString_def Let_def
  by (simp add: validTimeValue_def maxTimeValue_def msPerDay_def civilFromDays_epoch
      yearString_def pad_numeral digitChar_def)


lemma readsIsoDateTime_self: "readsIsoDateTime parseIsoDateTime"
  by (simp add: readsIsoDateTime_def)

theorem cursor_roundtrip_witness:
  "validTimeValue 2000 \<and> ''tk4'' \<noteq> [] \<and> CHR ''|'' \<notin> set ''tk4'' \<and>
   toISOString 2000 = Inr ''1970-01-01T00:00:02.000Z'' \<and>
   parseIsoDateTime ''1970-01-01T00:00:02.000Z'' = Some 2000 \<and>
   encodeCursor 2000 ''tk4'' = Inr ''1970-01-01T00:00:02.000Z|tk4'' \<and>
   parseCursor (date_parse demoLib) (Some ''1970-01-01T00:00:02.000Z|tk4'') = Some (2000, ''tk4'') \<and>
   \<not> validTimeValue 8640000000000001 \<and> encodeCursor 8640000000000001 ''tk4'' = Inl RangeError"
proof -
  have r: "readsIsoDateTime (date_parse demoLib)"
    by (simp add: demoLib_def readsIsoDateTime_self)
  have v: "validTimeValue 2000" "\<not> validTimeValue 8640000000000001"
    by (simp_all add: validTimeValue_def maxTimeValue_def)
  have n: "''tk4'' \<noteq> []" and b: "CHR ''|'' \<notin> set ''tk4''"
    by simp_all
  from cursor_roundtrip [of "date_parse demoLib" "''tk4''" 2000, OF r n b]
    cursor_roundtrip [of "date_parse demoLib" "''tk4''" 8640000000000001, OF r n b] v
  show ?thesis by (simp add: toISOString_2000)
qed
subsection \<open>Listing: pages and cursors\<close>

lemma effectiveLimit_range: "1 \<le> effectiveLimit l \<and> effectiveLimit l \<le> 50"
  by (simp add: effectiveLimit_def Let_def)









lemma baseWhere_iff:
  "baseWhere w (if mine then Some uid else None) sortBy cursor =
     (\<lambda>t. t_workspaceId t = w \<and> (mine \<longrightarrow> t_createdByUserId t = uid) \<and>
          afterCursor sortBy cursor t)"
  by (rule ext) (simp add: baseWhere_def afterCursor_def)

lemma mset_orderTickets: "mset (orderTickets s ts) = mset ts"
  by (cases s) simp_all





lemma set_orderTickets: "set (orderTickets s ts) = set ts"
  using mset_orderTickets [of s ts] by (metis set_mset_mset)

text \<open>The answer of the handler, in terms of all matching rows in their order.\<close>

lemma listTickets_rows:
  fixes dateOf db w role uid q
  defines "limit \<equiv> nat (effectiveLimit (q_limit q))"
    and "sortBy \<equiv> effectiveSort role q"
  defines "rows \<equiv> orderTickets sortBy
      (filter (\<lambda>t. t_workspaceId t = w \<and> (effectiveMine role q \<longrightarrow> t_createdByUserId t = uid) \<and>
                   afterCursor sortBy (effectiveCursor dateOf sortBy q) t) (tickets db))"
  shows "listTickets dateOf db (w, role) uid q =
     (if limit < length rows \<and> supportsCursor sortBy
      then (case encodeCursor (cursorDate sortBy (last (take limit rows)))
                   (t_id (last (take limit rows))) of
              Inl e \<Rightarrow> Inl e
            | Inr c \<Rightarrow> Inr (respond 200 (ListBody (take limit rows) (Some c))))
      else Inr (respond 200 (ListBody (take limit rows) None)))"
proof -
  have pos: "0 < limit"
    using effectiveLimit_range [of "q_limit q"] by (simp add: limit_def)
  have f: "findManyTickets db
             (baseWhere w (if effectiveMine role q then Some uid else None) sortBy
                (effectiveCursor dateOf sortBy q)) sortBy (limit + 1) = take (limit + 1) rows"
    unfolding findManyTickets_def baseWhere_iff rows_def by simp
  show ?thesis
  proof (cases "limit < length rows")
    case True
    with pos have ne: "take limit rows \<noteq> []" by auto
    from True have l: "length (take (limit + 1) rows) = limit + 1" by simp
    have tt: "take limit (take (limit + 1) rows) = take limit rows" by (simp add: min_def)
    show ?thesis
      unfolding listTickets_def Let_def fst_conv snd_conv limit_def [symmetric]
        sortBy_def [symmetric] f
      using True ne l tt
      by (simp split: sum.splits)
  next
    case False
    then have t: "take (limit + 1) rows = rows" "take limit rows = rows" by simp_all
    show ?thesis
      unfolding listTickets_def Let_def fst_conv snd_conv limit_def [symmetric]
        sortBy_def [symmetric] f t
      using False by simp
  qed
qed


subsection \<open>A walk over two pages, and a listing by title\<close>


lemma list_tables: "tickets listDb = [tk1, tk2, tk3, tk4]"
  by (simp add: listDb_def)

lemma list_ticket_fields:
  "t_id tk4 = ''tk4''" "t_workspaceId tk4 = ''ws_acme''" "t_createdByUserId tk4 = ''u_carol''"
  "t_createdAt tk4 = 2000"
  "t_title tk1 = ''Printer''" "t_title tk2 = ''Login''" "t_title tk3 = ''Invoice''"
  "t_title tk4 = ''Login''"
  by (simp_all add: tk1_def tk2_def tk3_def tk4_def)













subsection \<open>Listing: whose tickets\<close>

lemma effectiveMine_iff: "effectiveMine role q \<longleftrightarrow> role = MEMBER \<or> q_mine q = Some ''true''"
  by (simp add: effectiveMine_def)

lemma page_answer:
  assumes "(if C then (case x of Inl e \<Rightarrow> Inl e
                      | Inr c \<Rightarrow> Inr (respond 200 (ListBody p (Some c))))
            else Inr (respond 200 (ListBody p None))) = Inr r"
  shows "\<exists>nc. r = respond 200 (ListBody p nc)"
  using assms by (cases C; cases x) auto

lemma listTickets_items:
  assumes "listTickets dateOf db (w, role) uid q = Inr r"
  shows "\<exists>nc. r = respond 200
           (ListBody
              (take (nat (effectiveLimit (q_limit q)))
                 (orderTickets (effectiveSort role q)
                    (filter (\<lambda>t. t_workspaceId t = w \<and>
                                 (effectiveMine role q \<longrightarrow> t_createdByUserId t = uid) \<and>
                                 afterCursor (effectiveSort role q)
                                   (effectiveCursor dateOf (effectiveSort role q) q) t)
                       (tickets db)))) nc)"
  using assms unfolding listTickets_rows by (rule page_answer)

text \<open>
  Claim C7, as the code has it. The \<open>mine\<close> flag is forced for every caller whose
  resolved role is MEMBER: whatever the request asks, every listed ticket was created by
  the caller. For a resolved role ADMIN, a workspace administrator as much as an elevated
  agent, the flag of the request is used: with \<open>mine=true\<close> every listed ticket was
  created by the caller, and with any other value the listed tickets are the first rows of
  the workspace after the cursor, whoever created them. In each case the items are the
  first \<open>limit\<close> of exactly those rows, in the order of the sort field.
\<close>

theorem listTickets_mine_flag:
  assumes "requireWorkspaceMember db workspaceId (Some user) = Inr (w, role)"
    and "listTicketsRoute dateOf db user workspaceId q = Inr r"
    and "body r = ListBody items nc"
  shows "items =
           take (nat (effectiveLimit (q_limit q)))
             (orderTickets (effectiveSort role q)
                (filter (\<lambda>t. t_workspaceId t = w \<and>
                             ((role = MEMBER \<or> q_mine q = Some ''true'') \<longrightarrow>
                                t_createdByUserId t = user_id user) \<and>
                             afterCursor (effectiveSort role q)
                               (effectiveCursor dateOf (effectiveSort role q) q) t)
                   (tickets db))) \<and>
         (role = MEMBER \<longrightarrow> (\<forall>t \<in> set items. t_createdByUserId t = user_id user)) \<and>
         (role = ADMIN \<and> q_mine q = Some ''true'' \<longrightarrow>
            (\<forall>t \<in> set items. t_createdByUserId t = user_id user)) \<and>
         (role = ADMIN \<and> q_mine q \<noteq> Some ''true'' \<longrightarrow>
            items =
              take (nat (effectiveLimit (q_limit q)))
                (orderTickets (effectiveSort role q)
                   (filter (\<lambda>t. t_workspaceId t = w \<and>
                                afterCursor (effectiveSort role q)
                                  (effectiveCursor dateOf (effectiveSort role q) q) t)
                      (tickets db))))"
proof -
  let ?rows = "\<lambda>forced. orderTickets (effectiveSort role q)
                (filter (\<lambda>t. t_workspaceId t = w \<and>
                             (forced \<longrightarrow> t_createdByUserId t = user_id user) \<and>
                             afterCursor (effectiveSort role q)
                               (effectiveCursor dateOf (effectiveSort role q) q) t)
                   (tickets db))"
  let ?limit = "nat (effectiveLimit (q_limit q))"
  have "listTickets dateOf db (w, role) (user_id user) q = Inr r"
  proof (cases "workspaceId = [] \<or> trim workspaceId = []")
    case True
    with assms(2) have "r = respond 400 (ErrorBody ''VALIDATION_ERROR'' ''workspaceId is required'')"
      by (simp add: listTicketsRoute_def)
    with assms(3) show ?thesis by (simp add: respond_def)
  next
    case False
    with assms(1,2) show ?thesis by (simp add: listTicketsRoute_def)
  qed
  from listTickets_items [OF this]
  obtain nc' where "r = respond 200
           (ListBody (take ?limit (?rows (effectiveMine role q))) nc')"
    by blast
  with assms(3)
  have i: "items = take ?limit (?rows (role = MEMBER \<or> q_mine q = Some ''true''))"
    by (simp add: respond_def effectiveMine_iff)
  have own: "role = MEMBER \<or> q_mine q = Some ''true'' \<Longrightarrow>
      \<forall>t \<in> set items. t_createdByUserId t = user_id user"
  proof
    fix t assume f: "role = MEMBER \<or> q_mine q = Some ''true''" and t: "t \<in> set items"
    from t have "t \<in> set (?rows (role = MEMBER \<or> q_mine q = Some ''true''))"
      unfolding i by (rule in_set_takeD)
    with f show "t_createdByUserId t = user_id user"
      by (simp add: set_orderTickets)
  qed
  have all: "role = ADMIN \<and> q_mine q \<noteq> Some ''true'' \<longrightarrow> items = take ?limit (?rows False)"
  proof
    assume "role = ADMIN \<and> q_mine q \<noteq> Some ''true''"
    then have "(role = MEMBER \<or> q_mine q = Some ''true'') = False" by simp
    with i show "items = take ?limit (?rows False)" by (simp only:)
  qed
  have m: "role = MEMBER \<longrightarrow> (\<forall>t \<in> set items. t_createdByUserId t = user_id user)"
    using own by blast
  have a: "role = ADMIN \<and> q_mine q = Some ''true'' \<longrightarrow>
      (\<forall>t \<in> set items. t_createdByUserId t = user_id user)"
    using own by blast
  have all': "role = ADMIN \<and> q_mine q \<noteq> Some ''true'' \<longrightarrow>
            items =
              take (nat (effectiveLimit (q_limit q)))
                (orderTickets (effectiveSort role q)
                   (filter (\<lambda>t. t_workspaceId t = w \<and>
                                afterCursor (effectiveSort role q)
                                  (effectiveCursor dateOf (effectiveSort role q) q) t)
                      (tickets db)))"
    using all by simp
  from i m a all' show ?thesis by (intro conjI)
qed

lemma demo_role_dana:
  "requireWorkspaceMember demoDb ''ws_acme'' (Some dana) = Inr (''ws_acme'', ADMIN)"
  by (simp add: requireWorkspaceMember_def findWorkspace_def findMembership_def
      isSupportAgent_def demoDb_def demo_user_ids dana_def)

lemma list_role_carol:
  "requireWorkspaceMember listDb ''ws_acme'' (Some carol) = Inr (''ws_acme'', ADMIN)"
  by (simp add: requireWorkspaceMember_def findWorkspace_def findMembership_def
      isSupportAgent_def listDb_def demoDb_def demo_user_ids)

lemma demo_listing_carol:
  "listTicketsRoute (date_parse demoLib) demoDb carol ''ws_acme''
     \<lparr>q_mine = Some ''false'', q_limit = None, q_sort = None, q_cursor = None\<rparr> =
   Inr (respond 200 (ListBody [tk3, tk2, tk1] None))"
  by (simp add: listTicketsRoute_def listTickets_def demo_roles trim_acme effectiveLimit_default
      demo_query effectiveMine_def findManyTickets_def baseWhere_def demo_tables
      demo_ticket_fields demo_order_all Let_def)

lemma demo_listing_dana:
  "listTicketsRoute (date_parse demoLib) demoDb dana ''ws_acme''
     \<lparr>q_mine = Some ''false'', q_limit = None, q_sort = None, q_cursor = None\<rparr> =
   Inr (respond 200 (ListBody [tk3, tk2, tk1] None))"
  by (simp add: listTicketsRoute_def listTickets_def demo_role_dana trim_acme
      effectiveLimit_default demo_query effectiveMine_def findManyTickets_def baseWhere_def
      demo_tables demo_ticket_fields demo_order_all Let_def)

lemma demo_listing_alice:
  "listTicketsRoute (date_parse demoLib) demoDb alice ''ws_acme''
     \<lparr>q_mine = Some ''false'', q_limit = None, q_sort = None, q_cursor = None\<rparr> =
   Inr (respond 200 (ListBody [tk3, tk1] None))"
  by (simp add: listTicketsRoute_def listTickets_def demo_roles trim_acme effectiveLimit_default
      demo_query effectiveMine_def findManyTickets_def baseWhere_def demo_tables
      demo_ticket_fields demo_user_ids demo_order_alice Let_def)

lemma list_listing_carol_mine:
  "listTicketsRoute (date_parse demoLib) listDb carol ''ws_acme''
     \<lparr>q_mine = Some ''true'', q_limit = None, q_sort = None, q_cursor = None\<rparr> =
   Inr (respond 200 (ListBody [tk4] None))"
  by (simp add: listTicketsRoute_def listTickets_def list_role_carol trim_acme
      effectiveLimit_default demo_query effectiveMine_def findManyTickets_def baseWhere_def
      list_tables demo_ticket_fields list_ticket_fields demo_user_ids Let_def)

theorem listTickets_mine_flag_witness:
  "requireWorkspaceMember demoDb ''ws_acme'' (Some alice) = Inr (''ws_acme'', MEMBER) \<and>
   listTicketsRoute (date_parse demoLib) demoDb alice ''ws_acme''
     \<lparr>q_mine = Some ''false'', q_limit = None, q_sort = None, q_cursor = None\<rparr> =
     Inr (respond 200 (ListBody [tk3, tk1] None)) \<and>
   t_createdByUserId tk3 = user_id alice \<and> t_createdByUserId tk1 = user_id alice \<and>
   requireWorkspaceMember listDb ''ws_acme'' (Some carol) = Inr (''ws_acme'', ADMIN) \<and>
   listTicketsRoute (date_parse demoLib) listDb carol ''ws_acme''
     \<lparr>q_mine = Some ''true'', q_limit = None, q_sort = None, q_cursor = None\<rparr> =
     Inr (respond 200 (ListBody [tk4] None)) \<and>
   t_createdByUserId tk4 = user_id carol \<and>
   requireWorkspaceMember demoDb ''ws_acme'' (Some dana) = Inr (''ws_acme'', ADMIN) \<and>
   listTicketsRoute (date_parse demoLib) demoDb dana ''ws_acme''
     \<lparr>q_mine = Some ''false'', q_limit = None, q_sort = None, q_cursor = None\<rparr> =
     Inr (respond 200 (ListBody [tk3, tk2, tk1] None)) \<and>
   t_createdByUserId tk2 \<noteq> user_id dana"
proof -
  have b: "body (respond 200 (ListBody [tk3, tk1] None)) = ListBody [tk3, tk1] None"
    "body (respond 200 (ListBody [tk4] None)) = ListBody [tk4] None"
    "body (respond 200 (ListBody [tk3, tk2, tk1] None)) = ListBody [tk3, tk2, tk1] None"
    by (simp_all add: respond_def)
  from listTickets_mine_flag [OF demo_roles(1) demo_listing_alice b(1)]
  have a: "t_createdByUserId tk3 = user_id alice \<and> t_createdByUserId tk1 = user_id alice"
    by simp
  from listTickets_mine_flag [OF list_role_carol list_listing_carol_mine b(2)]
  have c: "t_createdByUserId tk4 = user_id carol"
    by simp
  from listTickets_mine_flag [OF demo_role_dana demo_listing_dana b(3)]
  have d: "[tk3, tk2, tk1] =
      take (nat (effectiveLimit None))
        (orderTickets CreatedAt
           (filter (\<lambda>t. t_workspaceId t = ''ws_acme'' \<and> afterCursor CreatedAt None t)
              (tickets demoDb)))"
    by (simp add: demo_query)
  have e: "t_createdByUserId tk2 \<noteq> user_id dana"
    by (simp add: demo_ticket_fields demo_user_ids)
  from a c e demo_roles(1) demo_listing_alice list_role_carol list_listing_carol_mine
    demo_role_dana demo_listing_dana
  show ?thesis by (intro conjI) simp_all
qed

text \<open>
  The claim as written fails for a workspace administrator who is not an elevated agent:
  Carol asks for \<open>mine=false\<close> and is shown Bob's ticket.
\<close>

theorem listTickets_mine_counterexample:
  "\<not> isSupportAgent demoDb (user_id carol) \<and>
   listTicketsRoute (date_parse demoLib) demoDb carol ''ws_acme''
     \<lparr>q_mine = Some ''false'', q_limit = None, q_sort = None, q_cursor = None\<rparr> =
     Inr (respond 200 (ListBody [tk3, tk2, tk1] None)) \<and>
   t_createdByUserId tk2 \<noteq> user_id carol"
proof -
  have "\<not> isSupportAgent demoDb (user_id carol)"
    by (simp add: isSupportAgent_def demo_defs)
  moreover have "t_createdByUserId tk2 \<noteq> user_id carol"
    by (simp add: demo_defs)
  ultimately show ?thesis using demo_listing_carol by simp
qed

subsection \<open>Signup\<close>

lemma signup_stages:
  assumes "find (\<lambda>u. user_email u = email) (users db) = None"
    and "parseEmailDomain email = Some domain"
    and "createUser db \<lparr>user_id = su_userId g, user_email = email,
           user_passwordHash = bcrypt_hashSync lib password (su_salt g),
           user_isSupportAgent = isSupportAgentDomain env email\<rparr> = Inr db1"
    and "findOrCreateCustomerWorkspace db1 domain (su_workspaceId g) = Inr (cw, db2)"
    and "createWorkspaceMember db2 \<lparr>wm_id = su_memberId g, wm_workspaceId = ws_id cw,
           wm_userId = su_userId g, wm_role = MEMBER\<rparr> = Inr db3"
    and "grantSupportOps db3 (isSupportAgentDomain env email) (su_userId g) (su_opsMemberId g) =
           Inr db4"
  shows "signup env lib db (Inr (email, password)) g =
           setAuthCookiesAndRespond env lib db4 (su_userId g) (sg_refreshToken (su_session g))
             (hashRefreshToken lib (sg_refreshToken (su_session g))) 201
             (sg_sessionId (su_session g)) (sg_now (su_session g))"
  using assms by (simp add: signup_def Let_def)

lemma find_None_domain:
  "find (\<lambda>w. ws_domain w = Some d) ws = None \<Longrightarrow> Some d \<notin> set (map ws_domain ws)"
  by (auto simp: find_None_iff)

text \<open>
  Claim C8, as the code has it. Signup answers 400 EMAIL_TAKEN for a registered email and
  changes nothing. For a schema-valid body with a new email whose domain parses, new
  generated ids and a configured secret, it appends the user, uses the workspace of the
  email's domain (a CUSTOMER workspace, appended when the domain has none), grants the
  user MEMBER in it, and answers 201 with the user id; the user becomes an elevated agent
  (ADMIN of a SUPPORT_OPS workspace) exactly when the domain is on the allow-list and a
  SUPPORT_OPS workspace exists.
\<close>

theorem signup_creates:
  assumes wsIds: "uniqueWorkspaceIds db"
    and opsNoDomain: "\<forall>w \<in> set (workspaces db). ws_kind w = SUPPORT_OPS \<longrightarrow> ws_domain w = None"
    and dom: "parseEmailDomain email = Some domain"
    and secret: "getSecret env = Inr secret"
    and freshUser: "su_userId g \<notin> set (map user_id (users db))"
      "su_userId g \<notin> set (map wm_userId (workspaceMembers db))"
    and freshWs: "su_workspaceId g \<notin> set (map ws_id (workspaces db))"
    and freshMember: "su_memberId g \<notin> set (map wm_id (workspaceMembers db))"
      "su_opsMemberId g \<notin> set (map wm_id (workspaceMembers db))"
      "su_opsMemberId g \<noteq> su_memberId g"
    and freshSession: "sg_sessionId (su_session g) \<notin> set (map rs_id (refreshSessions db))"
  shows "(email \<in> set (map user_email (users db)) \<longrightarrow>
            signup env lib db (Inr (email, password)) g =
              (Inr (respond 400 (ErrorBody ''EMAIL_TAKEN'' ''Email already registered'')), db)) \<and>
         (email \<notin> set (map user_email (users db)) \<longrightarrow>
            (let db' = snd (signup env lib db (Inr (email, password)) g);
                 uid = su_userId g
             in fst (signup env lib db (Inr (email, password)) g) =
                  Inr \<lparr>status = 201, body = UserBody uid,
                       cookies = [(''access_token'', jwt_sign lib uid secret ACCESS_TOKEN_TTL_SEC),
                                  (''refresh_token'', sg_refreshToken (su_session g))]\<rparr> \<and>
                users db' = users db @
                  [\<lparr>user_id = uid, user_email = email,
                    user_passwordHash = bcrypt_hashSync lib password (su_salt g),
                    user_isSupportAgent = isSupportAgentDomain env email\<rparr>] \<and>
                workspaces db' =
                  (if \<exists>w \<in> set (workspaces db). ws_domain w = Some domain then workspaces db
                   else workspaces db @
                     [\<lparr>ws_id = su_workspaceId g, ws_name = domain, ws_domain = Some domain,
                       ws_kind = CUSTOMER\<rparr>]) \<and>
                (\<exists>cw \<in> set (workspaces db').
                   ws_domain cw = Some domain \<and> ws_kind cw = CUSTOMER \<and>
                   holdsRole db' uid (ws_id cw) MEMBER) \<and>
                (elevatedAgent db' uid \<longleftrightarrow>
                   isSupportAgentDomain env email \<and>
                   (\<exists>w \<in> set (workspaces db). ws_kind w = SUPPORT_OPS))))"
proof -
  let ?uid = "su_userId g"
  let ?agent = "isSupportAgentDomain env email"
  let ?user = "\<lparr>user_id = ?uid, user_email = email,
                 user_passwordHash = bcrypt_hashSync lib password (su_salt g),
                 user_isSupportAgent = ?agent\<rparr>"
  let ?new = "\<lparr>ws_id = su_workspaceId g, ws_name = domain, ws_domain = Some domain,
                ws_kind = CUSTOMER\<rparr>"
  have dup: "signup env lib db (Inr (email, password)) g =
              (Inr (respond 400 (ErrorBody ''EMAIL_TAKEN'' ''Email already registered'')), db)"
    if "email \<in> set (map user_email (users db))"
  proof -
    from that have "find (\<lambda>u. user_email u = email) (users db) \<noteq> None"
      by (auto simp: find_None_iff)
    then show ?thesis by (auto simp: signup_def)
  qed
  have new: "(let db' = snd (signup env lib db (Inr (email, password)) g); uid = ?uid
             in fst (signup env lib db (Inr (email, password)) g) =
                  Inr \<lparr>status = 201, body = UserBody uid,
                       cookies = [(''access_token'', jwt_sign lib uid secret ACCESS_TOKEN_TTL_SEC),
                                  (''refresh_token'', sg_refreshToken (su_session g))]\<rparr> \<and>
                users db' = users db @ [?user] \<and>
                workspaces db' =
                  (if \<exists>w \<in> set (workspaces db). ws_domain w = Some domain then workspaces db
                   else workspaces db @ [?new]) \<and>
                (\<exists>cw \<in> set (workspaces db').
                   ws_domain cw = Some domain \<and> ws_kind cw = CUSTOMER \<and>
                   holdsRole db' uid (ws_id cw) MEMBER) \<and>
                (elevatedAgent db' uid \<longleftrightarrow>
                   ?agent \<and> (\<exists>w \<in> set (workspaces db). ws_kind w = SUPPORT_OPS)))"
    if nodup: "email \<notin> set (map user_email (users db))"
  proof -
    \<comment> \<open>the user row\<close>
    have nf: "find (\<lambda>u. user_email u = email) (users db) = None"
      using nodup by (auto simp: find_None_iff)
    define db1 where "db1 = db\<lparr>users := users db @ [?user]\<rparr>"
    have s1: "createUser db ?user = Inr db1"
      using nodup freshUser(1) by (simp add: createUser_def db1_def)
    \<comment> \<open>the customer workspace\<close>
    obtain cw db2 where s2: "findOrCreateCustomerWorkspace db1 domain (su_workspaceId g) =
        Inr (cw, db2)"
      and db2: "db2 = db1\<lparr>workspaces :=
          (if \<exists>w \<in> set (workspaces db). ws_domain w = Some domain then workspaces db
           else workspaces db @ [?new])\<rparr>"
      and cw: "cw \<in> set (workspaces db2)" "ws_domain cw = Some domain"
      and cwnew: "\<not> (\<exists>w \<in> set (workspaces db). ws_domain w = Some domain) \<longrightarrow> cw = ?new"
    proof (cases "find (\<lambda>w. ws_domain w = Some domain) (workspaces db)")
      case None
      then have no: "\<not> (\<exists>w \<in> set (workspaces db). ws_domain w = Some domain)"
        by (auto simp: find_None_iff)
      have "findOrCreateCustomerWorkspace db1 domain (su_workspaceId g) =
              Inr (?new, db1\<lparr>workspaces := workspaces db @ [?new]\<rparr>)"
        using None find_None_domain [OF None] freshWs
        by (simp add: findOrCreateCustomerWorkspace_def createWorkspace_def db1_def Let_def)
      with no show ?thesis by (intro that [of ?new "db1\<lparr>workspaces := workspaces db @ [?new]\<rparr>"])
          simp_all
    next
      case (Some w)
      then have w: "w \<in> set (workspaces db)" "ws_domain w = Some domain"
        by (auto simp: find_Some_iff)
      have "findOrCreateCustomerWorkspace db1 domain (su_workspaceId g) = Inr (w, db1)"
        using Some by (simp add: findOrCreateCustomerWorkspace_def db1_def)
      moreover have "db1 = db1\<lparr>workspaces := workspaces db\<rparr>"
        by (simp add: db1_def)
      ultimately show ?thesis using w
        by (intro that [of w db1]) (auto simp: db1_def)
    qed
    have ws2: "set (workspaces db2) \<subseteq> set (workspaces db) \<union> {?new}"
      "set (workspaces db) \<subseteq> set (workspaces db2)"
      by (auto simp: db2 split: if_splits)
    have ids2: "distinct (map ws_id (workspaces db2))"
      using wsIds freshWs by (simp add: db2 uniqueWorkspaceIds_def)
    have kind2: "ws_kind w = SUPPORT_OPS \<longrightarrow> ws_domain w = None"
      if "w \<in> set (workspaces db2)" for w
      using that ws2(1) opsNoDomain by auto
    have cwkind: "ws_kind cw = CUSTOMER"
      using kind2 [OF cw(1)] cw(2) by (cases "ws_kind cw") simp_all
    \<comment> \<open>the MEMBER row\<close>
    let ?m = "\<lparr>wm_id = su_memberId g, wm_workspaceId = ws_id cw, wm_userId = ?uid,
               wm_role = MEMBER\<rparr>"
    define db3 where "db3 = db2\<lparr>workspaceMembers := workspaceMembers db @ [?m]\<rparr>"
    have mem2: "workspaceMembers db2 = workspaceMembers db"
      by (simp add: db2 db1_def)
    have s3: "createWorkspaceMember db2 ?m = Inr db3"
      using freshMember(1) freshUser(2)
      by (auto simp: createWorkspaceMember_def mem2 db3_def)
    \<comment> \<open>the ADMIN row in the operations workspace\<close>
    have ws3: "workspaces db3 = workspaces db2"
      by (simp add: db3_def)
    obtain db4 where s4: "grantSupportOps db3 ?agent ?uid (su_opsMemberId g) = Inr db4"
      and db4: "workspaces db4 = workspaces db2" "users db4 = users db1"
        "refreshSessions db4 = refreshSessions db"
      and mem4: "if ?agent \<and> (\<exists>w \<in> set (workspaces db). ws_kind w = SUPPORT_OPS)
                 then \<exists>ops \<in> set (workspaces db). ws_kind ops = SUPPORT_OPS \<and>
                        workspaceMembers db4 = workspaceMembers db @
                          [?m, \<lparr>wm_id = su_opsMemberId g, wm_workspaceId = ws_id ops,
                                wm_userId = ?uid, wm_role = ADMIN\<rparr>]
                 else workspaceMembers db4 = workspaceMembers db @ [?m]"
    proof (cases "?agent \<and> (\<exists>w \<in> set (workspaces db). ws_kind w = SUPPORT_OPS)")
      case False
      have f: "find (\<lambda>w. ws_kind w = SUPPORT_OPS) (workspaces db2) = None" if "?agent"
        using that False ws2(1) by (auto simp: find_None_iff)
      have "grantSupportOps db3 ?agent ?uid (su_opsMemberId g) = Inr db3"
        using f by (cases "?agent") (simp_all add: grantSupportOps_def ws3)
      with False show ?thesis
        by (intro that [of db3]) (simp_all add: db3_def db2 db1_def)
    next
      case True
      then have "find (\<lambda>w. ws_kind w = SUPPORT_OPS) (workspaces db2) \<noteq> None"
        using ws2(2) by (auto simp: find_None_iff)
      then obtain ops where f: "find (\<lambda>w. ws_kind w = SUPPORT_OPS) (workspaces db2) = Some ops"
        by auto
      then have ops: "ops \<in> set (workspaces db2)" "ws_kind ops = SUPPORT_OPS"
        by (auto simp: find_Some_iff)
      with ws2(1) have opsdb: "ops \<in> set (workspaces db)" by auto
      from ops cwkind have "ops \<noteq> cw" by auto
      with ids2 ops(1) cw(1) have idne: "ws_id ops \<noteq> ws_id cw"
        by (auto simp: distinct_map inj_on_def)
      let ?o = "\<lparr>wm_id = su_opsMemberId g, wm_workspaceId = ws_id ops, wm_userId = ?uid,
                 wm_role = ADMIN\<rparr>"
      have "createWorkspaceMember db3 ?o =
              Inr (db3\<lparr>workspaceMembers := workspaceMembers db @ [?m, ?o]\<rparr>)"
        using freshMember(2,3) freshUser(2) idne
        by (auto simp: createWorkspaceMember_def db3_def)
      then have "grantSupportOps db3 ?agent ?uid (su_opsMemberId g) =
              Inr (db3\<lparr>workspaceMembers := workspaceMembers db @ [?m, ?o]\<rparr>)"
        using True f by (simp add: grantSupportOps_def ws3)
      with True opsdb ops(2) show ?thesis
        by (intro that [of "db3\<lparr>workspaceMembers := workspaceMembers db @ [?m, ?o]\<rparr>"])
          (auto simp: db3_def db2 db1_def)
    qed
    \<comment> \<open>the session and the answer\<close>
    have sid: "sg_sessionId (su_session g) \<notin> set (map rs_id (refreshSessions db4))"
      using freshSession by (simp add: db4(3))
    have run: "signup env lib db (Inr (email, password)) g =
        (Inr \<lparr>status = 201, body = UserBody ?uid,
              cookies = [(''access_token'', jwt_sign lib ?uid secret ACCESS_TOKEN_TTL_SEC),
                         (''refresh_token'', sg_refreshToken (su_session g))]\<rparr>,
         db4\<lparr>refreshSessions := refreshSessions db4 @
            [\<lparr>rs_id = sg_sessionId (su_session g), rs_userId = ?uid,
              rs_refreshTokenHash = hashRefreshToken lib (sg_refreshToken (su_session g)),
              rs_expiresAt = sg_now (su_session g) + REFRESH_EXPIRES_MS,
              rs_revokedAt = None\<rparr>]\<rparr>)"
      unfolding signup_stages [OF nf dom s1 s2 s3 s4]
      by (rule setAuthCookiesAndRespond_ok [OF secret sid])
    let ?db' = "snd (signup env lib db (Inr (email, password)) g)"
    have tables: "users ?db' = users db @ [?user]" "workspaces ?db' = workspaces db2"
      "workspaceMembers ?db' = workspaceMembers db4"
      by (simp_all add: run db4 db1_def)
    have wsd: "workspaces ?db' =
        (if \<exists>w \<in> set (workspaces db). ws_domain w = Some domain then workspaces db
         else workspaces db @ [?new])"
      by (simp add: tables db2)
    have mIn: "?m \<in> set (workspaceMembers ?db')"
      using mem4 by (auto simp: tables split: if_splits)
    have member: "\<exists>cw \<in> set (workspaces ?db').
        ws_domain cw = Some domain \<and> ws_kind cw = CUSTOMER \<and> holdsRole ?db' ?uid (ws_id cw) MEMBER"
      using cw cwkind mIn unfolding tables(2) holdsRole_def
      by (intro bexI [of _ cw] conjI bexI [of _ ?m]) simp_all
    have elev: "elevatedAgent ?db' ?uid \<longleftrightarrow>
        ?agent \<and> (\<exists>w \<in> set (workspaces db). ws_kind w = SUPPORT_OPS)"
    proof (cases "?agent \<and> (\<exists>w \<in> set (workspaces db). ws_kind w = SUPPORT_OPS)")
      case True
      with mem4 obtain ops where ops: "ops \<in> set (workspaces db)" "ws_kind ops = SUPPORT_OPS"
        and m: "workspaceMembers db4 = workspaceMembers db @
                  [?m, \<lparr>wm_id = su_opsMemberId g, wm_workspaceId = ws_id ops,
                        wm_userId = ?uid, wm_role = ADMIN\<rparr>]"
        by auto
      have "ops \<in> set (workspaces ?db')"
        using ops(1) ws2(2) by (auto simp: tables)
      then have "workspaceHasKind ?db' (ws_id ops) SUPPORT_OPS"
        using ops(2) by (auto simp: workspaceHasKind_def)
      then have "elevatedAgent ?db' ?uid"
        unfolding elevatedAgent_def tables(3) m
        by (intro bexI [of _ "\<lparr>wm_id = su_opsMemberId g, wm_workspaceId = ws_id ops,
                        wm_userId = ?uid, wm_role = ADMIN\<rparr>"]) simp_all
      with True show ?thesis by simp
    next
      case False
      with mem4 have m: "workspaceMembers db4 = workspaceMembers db @ [?m]" by simp
      have "\<not> elevatedAgent ?db' ?uid"
        unfolding elevatedAgent_def tables(3) m using freshUser(2) by force
      with False show ?thesis by simp
    qed
    from run tables(1) wsd member elev show ?thesis
      unfolding Let_def by simp
  qed
  from dup new show ?thesis unfolding Let_def by blast
qed

lemma toLowerCase_helpnest: "toLowerCase ''helpnest.io'' = ''helpnest.io''"
  by (simp add: toLowerCase_def toLowerChar_def less_eq_char_def)

lemma erin_domain: "parseEmailDomain ''erin@helpnest.io'' = Some ''helpnest.io''"
  by (simp add: parseEmailDomain_def toLowerCase_helpnest)

lemma erin_agent: "isSupportAgentDomain demoEnv ''erin@helpnest.io''"
  by (simp add: isSupportAgentDomain_def demoEnv_def erin_domain trim_def isWhiteSpace_def
      toLowerCase_helpnest)

lemma signup_empty:
  "signup demoEnv demoLib emptyDb (Inr (''erin@helpnest.io'', ''pw'')) demoSignupGen =
     (Inr \<lparr>status = 201, body = UserBody ''u_erin'',
           cookies = [(''access_token'', ''jwt:u_erin''), (''refresh_token'', ''T9'')]\<rparr>,
      \<lparr>users = [\<lparr>user_id = ''u_erin'', user_email = ''erin@helpnest.io'',
                  user_passwordHash = ''salt$pw'', user_isSupportAgent = True\<rparr>],
       workspaces = [\<lparr>ws_id = ''ws_helpnest'', ws_name = ''helpnest.io'',
                       ws_domain = Some ''helpnest.io'', ws_kind = CUSTOMER\<rparr>],
       workspaceMembers = [\<lparr>wm_id = ''m5'', wm_workspaceId = ''ws_helpnest'',
                             wm_userId = ''u_erin'', wm_role = MEMBER\<rparr>],
       tickets = [], ticketMessages = [],
       refreshSessions = [\<lparr>rs_id = ''s9'', rs_userId = ''u_erin'', rs_refreshTokenHash = ''h:T9'',
                            rs_expiresAt = 604800100, rs_revokedAt = None\<rparr>]\<rparr>)"
  by (simp add: signup_def erin_domain erin_agent emptyDb_def demoSignupGen_def createUser_def
      findOrCreateCustomerWorkspace_def createWorkspace_def createWorkspaceMember_def
      grantSupportOps_def setAuthCookiesAndRespond_def createRefreshSession_def
      createAccessToken_def demo_sessions REFRESH_EXPIRES_MS_def ACCESS_TOKEN_TTL_SEC_def Let_def)
    (simp add: demoLib_def)

theorem signup_creates_witness:
  "uniqueWorkspaceIds demoDb \<and>
   parseEmailDomain ''erin@helpnest.io'' = Some ''helpnest.io'' \<and>
   getSecret demoEnv = Inr ''0123456789abcdef'' \<and>
   ''erin@helpnest.io'' \<notin> set (map user_email (users demoDb)) \<and>
   fst (signup demoEnv demoLib demoDb (Inr (''erin@helpnest.io'', ''pw'')) demoSignupGen) =
     Inr \<lparr>status = 201, body = UserBody ''u_erin'',
          cookies = [(''access_token'', ''jwt:u_erin''), (''refresh_token'', ''T9'')]\<rparr> \<and>
   workspaces (snd (signup demoEnv demoLib demoDb (Inr (''erin@helpnest.io'', ''pw''))
                      demoSignupGen)) =
     workspaces demoDb @
       [\<lparr>ws_id = ''ws_helpnest'', ws_name = ''helpnest.io'', ws_domain = Some ''helpnest.io'',
         ws_kind = CUSTOMER\<rparr>] \<and>
   elevatedAgent (snd (signup demoEnv demoLib demoDb (Inr (''erin@helpnest.io'', ''pw''))
                         demoSignupGen)) ''u_erin''"
proof -
  have ops: "\<forall>w \<in> set (workspaces demoDb). ws_kind w = SUPPORT_OPS \<longrightarrow> ws_domain w = None"
    by (simp add: demoDb_def)
  have g: "su_userId demoSignupGen = ''u_erin''" "su_workspaceId demoSignupGen = ''ws_helpnest''"
    "su_memberId demoSignupGen = ''m5''" "su_opsMemberId demoSignupGen = ''m6''"
    "sg_sessionId (su_session demoSignupGen) = ''s9''"
    "sg_refreshToken (su_session demoSignupGen) = ''T9''"
    by (simp_all add: demoSignupGen_def)
  have fu: "su_userId demoSignupGen \<notin> set (map user_id (users demoDb))"
    "su_userId demoSignupGen \<notin> set (map wm_userId (workspaceMembers demoDb))"
    by (simp_all add: g demo_defs)
  have fw: "su_workspaceId demoSignupGen \<notin> set (map ws_id (workspaces demoDb))"
    by (simp add: g demoDb_def)
  have fm: "su_memberId demoSignupGen \<notin> set (map wm_id (workspaceMembers demoDb))"
    "su_opsMemberId demoSignupGen \<notin> set (map wm_id (workspaceMembers demoDb))"
    "su_opsMemberId demoSignupGen \<noteq> su_memberId demoSignupGen"
    by (simp_all add: g demoDb_def)
  have fs: "sg_sessionId (su_session demoSignupGen) \<notin> set (map rs_id (refreshSessions demoDb))"
    by (simp add: g demoDb_def)
  have nodup: "''erin@helpnest.io'' \<notin> set (map user_email (users demoDb))"
    by (simp add: demo_defs)
  have nodom: "\<not> (\<exists>w \<in> set (workspaces demoDb). ws_domain w = Some ''helpnest.io'')"
    by (simp add: demoDb_def)
  have hasops: "\<exists>w \<in> set (workspaces demoDb). ws_kind w = SUPPORT_OPS"
    by (simp add: demoDb_def)
  have sign: "jwt_sign demoLib ''u_erin'' s n = ''jwt:u_erin''" for s n
    by (simp add: demoLib_def)
  note t = signup_creates [OF demoDb_uniqueWorkspaceIds ops erin_domain demo_sessions(4)
      fu fw fm fs, of demoLib "''pw''"]
  from t nodup nodom hasops erin_agent demoDb_uniqueWorkspaceIds erin_domain
    demo_sessions(4)
  show ?thesis
    by (simp add: Let_def g sign)
qed

text \<open>
  The claim as written fails where no SUPPORT_OPS workspace exists: the email's domain is
  on the allow-list, signup answers 201, and the only membership granted is MEMBER.
\<close>

theorem signup_ops_counterexample:
  "isSupportAgentDomain demoEnv ''erin@helpnest.io'' \<and>
   fst (signup demoEnv demoLib emptyDb (Inr (''erin@helpnest.io'', ''pw'')) demoSignupGen) =
     Inr \<lparr>status = 201, body = UserBody ''u_erin'',
          cookies = [(''access_token'', ''jwt:u_erin''), (''refresh_token'', ''T9'')]\<rparr> \<and>
   workspaceMembers
     (snd (signup demoEnv demoLib emptyDb (Inr (''erin@helpnest.io'', ''pw'')) demoSignupGen)) =
     [\<lparr>wm_id = ''m5'', wm_workspaceId = ''ws_helpnest'', wm_userId = ''u_erin'',
       wm_role = MEMBER\<rparr>]"
  by (simp add: erin_agent signup_empty)

end
